(* ===== verification/Prelude.thy ===== *)
theory Prelude
  imports Main "HOL-Library.Sublist"
begin

text \<open>
  Shared vocabulary of the development: the two state enumerations of the backend
  (\<^verbatim>\<open>src/backend/app/models.py\<close>) that every component talks about, the small pieces of
  Python's library the source uses (\<open>str\<close> of an integer, \<open>deque(maxlen=n)\<close>, \<open>max\<close> with a
  default, \<open>strip\<close>, slices), results with an error side, and the lemmas about them.

  A Python \<open>str\<close> is a \<^typ>\<open>string\<close>: the list of the characters with its code points, so
  the model covers text whose code points are below 256; \<open>len\<close> and slices count
  characters, as Python does.
\<close>

named_theorems wf_intros \<open>introduction rules for the well-formedness invariants\<close>
named_theorems frame_simps \<open>fields an operation leaves as they were\<close>

section \<open>State enumerations\<close>

datatype hazard_state =
  CLEAR | SUSPECTED | VERIFYING | CONFIRMED | VISUAL_SIGNATURE_LOST | RESOLVED | DEGRADED

datatype response_state =
  IDLE | AWAITING_RESPONSE | CANCELLED | ESCALATING | CALL_REQUESTED | CALL_INITIATED
| CALL_CONNECTED | CALL_COMPLETED | CALL_FAILED

section \<open>Results\<close>

type_synonym ('e, 'a) result = "'e + 'a"

abbreviation Ok :: "'a \<Rightarrow> ('e, 'a) result" where "Ok \<equiv> Inr"
abbreviation Err :: "'e \<Rightarrow> ('e, 'a) result" where "Err \<equiv> Inl"

definition is_ok :: "('e, 'a) result \<Rightarrow> bool" where
  "is_ok r = (case r of Inl _ \<Rightarrow> False | Inr _ \<Rightarrow> True)"

lemma is_ok_simps [simp]: "is_ok (Inr x)" "\<not> is_ok (Inl e)"
  by (simp_all add: is_ok_def)

lemma is_ok_iff: "is_ok r \<longleftrightarrow> (\<exists>x. r = Inr x)"
  by (cases r) auto

definition rbind :: "('e, 'a) result \<Rightarrow> ('a \<Rightarrow> ('e, 'b) result) \<Rightarrow> ('e, 'b) result" where
  "rbind r f = (case r of Inl e \<Rightarrow> Err e | Inr x \<Rightarrow> f x)"

lemma rbind_simps [simp]: "rbind (Inr x) f = f x" "rbind (Inl e) f = Inl e"
  by (simp_all add: rbind_def)

lemma rbind_Ok: "rbind r f = Inr y \<longleftrightarrow> (\<exists>x. r = Inr x \<and> f x = Inr y)"
  by (cases r) auto

section \<open>Integers as decimal text\<close>

fun digits :: "nat \<Rightarrow> nat list" where
  "digits n = (if n < 10 then [n] else digits (n div 10) @ [n mod 10])"

declare digits.simps [simp del]

definition digit_char :: "nat \<Rightarrow> char" where
  "digit_char d = char_of (48 + d)"

definition str_nat :: "nat \<Rightarrow> string" where
  "str_nat n = map digit_char (digits n)"

definition str_int :: "int \<Rightarrow> string" where
  "str_int i = (if i < 0 then CHR ''-'' # str_nat (nat (- i)) else str_nat (nat i))"

fun undigits :: "nat \<Rightarrow> nat list \<Rightarrow> nat" where
  "undigits acc [] = acc"
| "undigits acc (d # ds) = undigits (10 * acc + d) ds"

lemma undigits_append: "undigits acc (xs @ [d]) = 10 * undigits acc xs + d"
  by (induction acc xs rule: undigits.induct) auto

lemma undigits_digits [simp]: "undigits 0 (digits n) = n"
proof (induction n rule: digits.induct)
  case (1 n)
  show ?case
  proof (cases "n < 10")
    case True
    then show ?thesis by (simp add: digits.simps [of n])
  next
    case False
    with 1 show ?thesis by (simp add: digits.simps [of n] undigits_append)
  qed
qed

lemma digits_less_10: "d \<in> set (digits n) \<Longrightarrow> d < 10"
proof (induction n rule: digits.induct)
  case (1 n)
  then show ?case by (cases "n < 10") (auto simp: digits.simps [of n])
qed

lemma digits_nonempty [simp]: "digits n \<noteq> []"
  by (subst digits.simps) simp

lemma of_char_digit_char: "d < 10 \<Longrightarrow> of_char (digit_char d) = (48 + d :: nat)"
  by (simp add: digit_char_def take_bit_nat_def)

lemma str_nat_inj: "str_nat m = str_nat n \<Longrightarrow> m = n"
proof -
  assume eq: "str_nat m = str_nat n"
  have dec: "map (\<lambda>c. of_char c - 48) (str_nat k) = digits k" for k
    by (simp add: str_nat_def o_def map_idI of_char_digit_char digits_less_10)
  from eq have "digits m = digits n" by (metis dec)
  then show "m = n" by (metis undigits_digits)
qed

lemma str_nat_chars: "c \<in> set (str_nat n) \<Longrightarrow> 48 \<le> (of_char c :: nat) \<and> (of_char c :: nat) < 58"
  by (auto simp: str_nat_def of_char_digit_char dest!: digits_less_10)

lemma str_nat_nonempty [simp]: "str_nat n \<noteq> []"
  by (simp add: str_nat_def)

lemma str_int_inj: "str_int i = str_int j \<Longrightarrow> i = j"
proof -
  assume eq: "str_int i = str_int j"
  have dash: "CHR ''-'' \<notin> set (str_nat n)" for n
    using str_nat_chars [of "CHR ''-''" n] by auto
  show "i = j"
  proof (cases "i < 0"; cases "j < 0")
    assume "\<not> i < 0" "\<not> j < 0"
    with eq show ?thesis by (auto simp: str_int_def dest: str_nat_inj)
  next
    assume "i < 0" "\<not> j < 0"
    with eq dash [of "nat j"] show ?thesis by (metis list.set_intros(1) str_int_def)
  next
    assume "\<not> i < 0" "j < 0"
    with eq dash [of "nat i"] show ?thesis by (metis list.set_intros(1) str_int_def)
  next
    assume "i < 0" "j < 0"
    with eq show ?thesis by (auto simp: str_int_def dest: str_nat_inj)
  qed
qed

section \<open>Bounded queues\<close>

text \<open>\<open>collections.deque(maxlen=n)\<close>: an append to a full queue drops from the left.\<close>

definition deque_append :: "nat \<Rightarrow> 'a \<Rightarrow> 'a list \<Rightarrow> 'a list" where
  "deque_append maxlen x q = (let q' = q @ [x] in drop (length q' - maxlen) q')"

lemma length_deque_append: "length q \<le> n \<Longrightarrow> length (deque_append n x q) \<le> n"
  by (simp add: deque_append_def)

lemma deque_append_last_n:
  "deque_append n x (drop (length xs - n) xs) = drop (length (xs @ [x]) - n) (xs @ [x])"
  by (cases "n \<le> length xs") (auto simp: deque_append_def Let_def Suc_diff_le)

section \<open>Maximum with a default\<close>

definition max_default :: "'a::linorder \<Rightarrow> 'a list \<Rightarrow> 'a" where
  "max_default d xs = (case xs of [] \<Rightarrow> d | y # ys \<Rightarrow> foldl max y ys)"

lemma foldl_max_ge: "(x::'a::linorder) \<le> foldl max x ys"
  by (induction ys arbitrary: x) (auto intro: order_trans [OF max.cobounded1])

lemma foldl_max_mem: "foldl max (x::'a::linorder) ys \<in> insert x (set ys)"
proof (induction ys arbitrary: x)
  case (Cons y ys)
  from Cons [of "max x y"] show ?case by (auto simp: max_def split: if_splits)
qed simp

lemma foldl_max_ub: "y \<in> set ys \<Longrightarrow> y \<le> foldl max (x::'a::linorder) ys"
proof (induction ys arbitrary: x)
  case (Cons z zs)
  then show ?case
    using foldl_max_ge [of "max x z" zs] by (auto intro: order_trans [OF max.cobounded2])
qed simp

lemma max_default_ub: "x \<in> set xs \<Longrightarrow> x \<le> max_default d xs"
  by (cases xs) (auto simp: max_default_def foldl_max_ge foldl_max_ub)

lemma max_default_mem: "xs \<noteq> [] \<Longrightarrow> max_default d xs \<in> set xs"
  using foldl_max_mem by (cases xs) (auto simp: max_default_def)

lemma max_default_Nil [simp]: "max_default d [] = d"
  by (simp add: max_default_def)

lemma max_default_ge_iff:
  "xs \<noteq> [] \<Longrightarrow> c \<le> max_default d xs \<longleftrightarrow> (\<exists>x \<in> set xs. c \<le> x)"
  using max_default_mem [of xs d] max_default_ub by (metis order_trans)

section \<open>Machines with an invariant\<close>

text \<open>
  A component that takes its events one at a time. The locale lifts what one step keeps to
  every run; components with a step function interpret it on their own step.
\<close>

locale machine =
  fixes step :: "'e \<Rightarrow> 's \<Rightarrow> 's" and inv :: "'s \<Rightarrow> bool"
  assumes step_inv: "inv s \<Longrightarrow> inv (step e s)"
begin

lemma run_inv: "inv s \<Longrightarrow> inv (fold step es s)"
  by (induction es arbitrary: s) (auto intro: step_inv)

lemma run_mono:
  fixes f :: "'s \<Rightarrow> 'a::preorder"
  assumes "\<And>s e. inv s \<Longrightarrow> f s \<le> f (step e s)" and "inv s"
  shows "f s \<le> f (fold step es s)"
  using assms(2)
proof (induction es arbitrary: s)
  case (Cons e es)
  from assms(1) [OF Cons.prems, of e] Cons.IH [OF step_inv [OF Cons.prems], of e]
  show ?case by (auto intro: order_trans)
qed simp

lemma fold_snoc: "fold step (es @ [e]) s = step e (fold step es s)"
  by simp

end

end
