(* ===== verification/Binary64.thy ===== *)
theory Binary64
  imports Prelude Complex_Main "HOL-Library.Log_Nat"
begin

text \<open>
  Python's \<open>float\<close>. A finite binary64 value is the rational it denotes, comparisons and
  \<open>min\<close>/\<open>max\<close> are those of the rationals, and the result of an arithmetic operation is the
  exact result rounded to nearest, ties to even, with 53 significant bits and the
  subnormal exponent -1074 (\<open>fl\<close>). Overflow to infinity and NaN are not values of the
  model. What the components need of rounding is the locale \<open>rounding\<close>, interpreted on
  \<open>fl\<close>.
\<close>

section \<open>Rounding to an integer, ties to even\<close>

definition rne :: "rat \<Rightarrow> int" where
  "rne x = (let f = \<lfloor>x\<rfloor>; r = x - of_int f in
     if r < 1/2 then f else if 1/2 < r then f + 1 else if even f then f else f + 1)"

lemma rne_of_int [simp]: "rne (of_int k) = k"
  by (simp add: rne_def)

lemma rne_numeral [simp]: "rne 0 = 0" "rne 1 = 1"
  using rne_of_int [of 0] rne_of_int [of 1] by simp_all

lemma rne_floor: "rne x = \<lfloor>x\<rfloor> \<or> rne x = \<lfloor>x\<rfloor> + 1"
  by (simp add: rne_def Let_def)

lemma rne_mono: "x \<le> y \<Longrightarrow> rne x \<le> rne y"
proof -
  assume le: "x \<le> y"
  show ?thesis
  proof (cases "\<lfloor>x\<rfloor> = \<lfloor>y\<rfloor>")
    case True
    with le show ?thesis by (auto simp: rne_def Let_def)
  next
    case False
    with floor_mono [OF le] have "\<lfloor>x\<rfloor> + 1 \<le> \<lfloor>y\<rfloor>" by linarith
    with rne_floor [of x] rne_floor [of y] show ?thesis by linarith
  qed
qed

lemma rne_dist: "\<bar>of_int (rne x) - x\<bar> \<le> 1/2"
proof -
  have "of_int \<lfloor>x\<rfloor> \<le> x" "x < of_int \<lfloor>x\<rfloor> + 1" by linarith+
  then show ?thesis by (auto simp: rne_def Let_def abs_le_iff)
qed

section \<open>Binary exponent\<close>

definition ilog2 :: "rat \<Rightarrow> int" where
  "ilog2 x = (let (n, d) = quotient_of x; k = bitlen n - bitlen d
     in if 2 powi k \<le> x then k else k - 1)"

lemma bitlen_powi:
  assumes "0 < (n::int)"
  shows "2 powi (bitlen n - 1) \<le> (of_int n :: rat)" "(of_int n :: rat) < 2 powi (bitlen n)"
proof -
  from bitlen_bounds [OF assms]
  have b: "2 ^ nat (bitlen n - 1) \<le> n" "n < 2 ^ nat (bitlen n)" by simp_all
  have pos: "0 < bitlen n"
  proof (rule ccontr)
    assume "\<not> 0 < bitlen n"
    with b(2) assms show False by simp
  qed
  have "(of_int (2 ^ nat (bitlen n - 1)) :: rat) \<le> of_int n" using b(1) by (simp only: of_int_le_iff)
  with pos show "2 powi (bitlen n - 1) \<le> (of_int n :: rat)" by (simp add: power_int_def)
  have "(of_int n :: rat) < of_int (2 ^ nat (bitlen n))" using b(2) by (simp only: of_int_less_iff)
  with pos show "(of_int n :: rat) < 2 powi (bitlen n)" by (simp add: power_int_def)
qed

lemma ilog2_bounds:
  assumes "0 < x"
  shows "2 powi (ilog2 x) \<le> x" "x < 2 powi (ilog2 x + 1)"
proof -
  obtain n d where q: "quotient_of x = (n, d)" by force
  from quotient_of_denom_pos [OF q] have d: "0 < d" .
  from quotient_of_div [OF q] have x: "x = of_int n / of_int d" .
  with assms d have n: "0 < n" by (simp add: zero_less_divide_iff)
  define k where "k = bitlen n - bitlen d"
  have "x < 2 powi (bitlen n) / 2 powi (bitlen d - 1)"
    unfolding x using bitlen_powi [OF n] bitlen_powi [OF d] d n
    by (intro frac_less) auto
  also have "\<dots> = 2 powi (k + 1)" by (simp add: k_def algebra_simps flip: power_int_diff)
  finally have ub: "x < 2 powi (k + 1)" .
  have "2 powi (k - 1) = 2 powi (bitlen n - 1) / (2 powi (bitlen d) :: rat)"
    by (simp add: k_def algebra_simps flip: power_int_diff)
  also have "\<dots> \<le> x"
    unfolding x using bitlen_powi [OF n] bitlen_powi [OF d] d n
    by (intro frac_le) auto
  finally have lb: "2 powi (k - 1) \<le> x" .
  have il: "ilog2 x = (if 2 powi k \<le> x then k else k - 1)"
    by (simp add: ilog2_def q k_def)
  from il lb show "2 powi (ilog2 x) \<le> x" by auto
  from il ub show "x < 2 powi (ilog2 x + 1)" by auto
qed

lemma ilog2_ge_iff: "0 < x \<Longrightarrow> 2 powi k \<le> x \<longleftrightarrow> k \<le> ilog2 x"
proof
  assume x: "0 < x" and "2 powi k \<le> x"
  with ilog2_bounds(2) [OF x] have "(2::rat) powi k < 2 powi (ilog2 x + 1)" by simp
  then have "k < ilog2 x + 1" using power_int_strict_increasing [of "ilog2 x + 1" k "2::rat"]
    by (metis linorder_not_less order_less_imp_le power_int_increasing one_le_numeral)
  then show "k \<le> ilog2 x" by simp
next
  assume x: "0 < x" and "k \<le> ilog2 x"
  then have "(2::rat) powi k \<le> 2 powi (ilog2 x)" by (intro power_int_increasing) auto
  with ilog2_bounds(1) [OF x] show "2 powi k \<le> x" by simp
qed

lemma ilog2_mono: "0 < x \<Longrightarrow> x \<le> y \<Longrightarrow> ilog2 x \<le> ilog2 y"
  using ilog2_bounds(1) [of x] ilog2_ge_iff [of y "ilog2 x"] by simp

lemma ilog2_powi [simp]: "ilog2 (2 powi k) = k"
proof -
  have p: "(0::rat) < 2 powi k" by simp
  have "k \<le> ilog2 (2 powi k)" using ilog2_ge_iff [OF p, of k] by simp
  moreover have "\<not> k + 1 \<le> ilog2 (2 powi k)"
    using ilog2_ge_iff [OF p, of "k + 1"] by (simp add: power_int_add)
  ultimately show ?thesis by simp
qed

section \<open>Rounding to binary64\<close>

definition ulp :: "rat \<Rightarrow> rat" where
  "ulp x = 2 powi (max (ilog2 \<bar>x\<bar> - 52) (- 1074))"

definition fl :: "rat \<Rightarrow> rat" where
  "fl x = (if x = 0 then 0 else of_int (rne (x / ulp x)) * ulp x)"

definition fadd :: "rat \<Rightarrow> rat \<Rightarrow> rat" where "fadd x y = fl (x + y)"
definition fsub :: "rat \<Rightarrow> rat \<Rightarrow> rat" where "fsub x y = fl (x - y)"
definition fmul :: "rat \<Rightarrow> rat \<Rightarrow> rat" where "fmul x y = fl (x * y)"
definition fdiv :: "rat \<Rightarrow> rat \<Rightarrow> rat" where "fdiv x y = fl (x / y)"

lemma ulp_pos [simp]: "0 < ulp x"
  by (simp add: ulp_def)

lemma ulp_nonzero [simp]: "ulp x \<noteq> 0" "0 \<le> ulp x"
  by (simp_all add: ulp_def)

lemma ulp_minus [simp]: "ulp (- x) = ulp x"
  by (simp add: ulp_def)

lemma fl_0 [simp]: "fl 0 = 0"
  by (simp add: fl_def)

lemma rne_nonneg: "0 \<le> x \<Longrightarrow> 0 \<le> rne x"
  using rne_mono [of 0 x] by simp

lemma fl_nonneg: "0 \<le> x \<Longrightarrow> 0 \<le> fl x"
  by (simp add: fl_def rne_nonneg zero_le_mult_iff zero_le_divide_iff)

text \<open>The grid points of an exponent: what \<open>rne\<close> leaves alone.\<close>

lemma rne_minus: "rne (- x) = - rne x"
proof (cases "x \<in> \<int>")
  case True
  then obtain k where "x = of_int k" by (auto elim: Ints_cases)
  moreover have "rne (- (of_int k)) = - k" using rne_of_int [of "- k"] by simp
  ultimately show ?thesis by simp
next
  case False
  then have f: "\<lfloor>- x\<rfloor> = - \<lfloor>x\<rfloor> - 1"
    by (metis ceiling_altdef ceiling_def Ints_of_int add_diff_cancel_right' minus_add_distrib
        minus_minus uminus_add_conv_diff diff_conv_add_uminus)
  show ?thesis
    by (auto simp: rne_def Let_def f)
qed

lemma fl_minus: "fl (- x) = - fl x"
  by (simp add: fl_def rne_minus)

lemma powi_div_int:
  assumes "j \<le> k"
  shows "\<exists>n. (2::rat) powi k / 2 powi j = of_int n"
proof -
  have "(2::rat) powi k / 2 powi j = 2 powi (k - j)" by (simp add: power_int_diff)
  also have "\<dots> = of_int (2 ^ nat (k - j))" using assms by (simp add: power_int_def)
  finally show ?thesis by blast
qed

text \<open>Rounding stays on the same side of a multiple of the unit in the last place.\<close>

lemma fl_grid:
  assumes "y / ulp x = of_int n" and "x \<noteq> 0"
  shows "y \<le> x \<Longrightarrow> y \<le> fl x" and "x \<le> y \<Longrightarrow> fl x \<le> y"
proof -
  from assms(1) have y: "y = of_int n * ulp x" by (simp add: field_simps)
  { assume "y \<le> x"
    then have "of_int n \<le> x / ulp x" unfolding y by (simp add: pos_le_divide_eq)
    then have "n \<le> rne (x / ulp x)" using rne_mono by fastforce
    then have "of_int n * ulp x \<le> of_int (rne (x / ulp x)) * ulp x" by (simp add: mult_right_mono)
    with assms(2) show "y \<le> fl x" by (simp add: y fl_def) }
  { assume "x \<le> y"
    then have "x / ulp x \<le> of_int n" unfolding y by (simp add: pos_divide_le_eq)
    then have "rne (x / ulp x) \<le> n" using rne_mono by fastforce
    then have "of_int (rne (x / ulp x)) * ulp x \<le> of_int n * ulp x" by (simp add: mult_right_mono)
    with assms(2) show "fl x \<le> y" by (simp add: y fl_def) }
qed

lemma fl_le_powi:
  assumes "0 < x" and "- 1074 \<le> k" and "x \<le> 2 powi k"
  shows "fl x \<le> 2 powi k"
proof -
  from assms(3) ilog2_mono [OF assms(1), of "2 powi k"] have "ilog2 x \<le> k" by simp
  with assms(1,2) have "max (ilog2 \<bar>x\<bar> - 52) (- 1074) \<le> k" by simp
  from powi_div_int [OF this] obtain n where "2 powi k / ulp x = of_int n"
    by (auto simp: ulp_def)
  from fl_grid(2) [OF this] assms show ?thesis by simp
qed

lemma fl_ge_ilog2:
  assumes "0 < x" and "- 1074 \<le> ilog2 x"
  shows "2 powi (ilog2 x) \<le> fl x"
proof -
  from assms have "max (ilog2 \<bar>x\<bar> - 52) (- 1074) \<le> ilog2 x" by simp
  from powi_div_int [OF this] obtain n where "2 powi (ilog2 x) / ulp x = of_int n"
    by (auto simp: ulp_def)
  from fl_grid(1) [OF this] ilog2_bounds(1) [OF assms(1)] assms(1) show ?thesis by simp
qed

lemma fl_mono_pos:
  assumes "0 < x" and "x \<le> y"
  shows "fl x \<le> fl y"
proof (cases "max (ilog2 x - 52) (- 1074) = max (ilog2 y - 52) (- 1074)")
  case True
  with assms have u: "ulp x = ulp y" by (simp add: ulp_def)
  have "x / ulp y \<le> y / ulp y" using assms(2) by (simp add: divide_right_mono)
  then have "rne (x / ulp y) \<le> rne (y / ulp y)" by (rule rne_mono)
  with assms u show ?thesis by (simp add: fl_def mult_right_mono)
next
  case False
  from assms have y: "0 < y" by simp
  have le: "ilog2 x \<le> ilog2 y" by (rule ilog2_mono [OF assms])
  with False have lt: "ilog2 x + 1 \<le> ilog2 y" and b: "- 1074 \<le> ilog2 y" by linarith+
  have "x \<le> 2 powi (ilog2 x + 1)" using ilog2_bounds(2) [OF assms(1)] by simp
  also have "\<dots> \<le> 2 powi (ilog2 y)" using lt by (intro power_int_increasing) auto
  finally have "fl x \<le> 2 powi (ilog2 y)" by (rule fl_le_powi [OF assms(1) b])
  also have "\<dots> \<le> fl y" by (rule fl_ge_ilog2 [OF y b])
  finally show ?thesis .
qed

lemma fl_mono: "x \<le> y \<Longrightarrow> fl x \<le> fl y"
proof -
  assume le: "x \<le> y"
  consider "0 < x" | "x \<le> 0" "0 \<le> y" | "y < 0" by linarith
  then show ?thesis
  proof cases
    case 1
    then show ?thesis by (rule fl_mono_pos) (rule le)
  next
    case 2
    then have "0 \<le> - x" by simp
    from fl_nonneg [OF this] fl_nonneg [OF 2(2)] show ?thesis by (simp add: fl_minus)
  next
    case 3
    with le have "fl (- y) \<le> fl (- x)" by (intro fl_mono_pos) auto
    then show ?thesis by (simp add: fl_minus)
  qed
qed

section \<open>The representable values\<close>

definition representable :: "rat \<Rightarrow> bool" where
  "representable y \<longleftrightarrow> (\<exists>n e. - 1074 \<le> e \<and> \<bar>n\<bar> \<le> 2 ^ 53 \<and> y = of_int n * 2 powi e)"

lemma representable_of_int: "\<bar>n\<bar> \<le> 2 ^ 53 \<Longrightarrow> representable (of_int n)"
  unfolding representable_def by (intro exI [of _ n] exI [of _ 0]) simp

lemma representable_double: "representable y \<Longrightarrow> representable (2 * y)"
  unfolding representable_def
  by (elim exE conjE) (rule_tac x = n in exI, rule_tac x = "e + 1" in exI, simp add: power_int_add)

lemma representable_minus: "representable y \<Longrightarrow> representable (- y)"
  unfolding representable_def
  by (elim exE conjE) (rule_tac x = "- n" in exI, rule_tac x = e in exI, simp)

lemma representable_strict:
  assumes "representable y"
  obtains n e where "- 1074 \<le> e" "\<bar>n\<bar> < 2 ^ 53" "y = of_int n * 2 powi e"
proof -
  from assms obtain n e where ne: "- 1074 \<le> e" "\<bar>n\<bar> \<le> 2 ^ 53" "y = of_int n * 2 powi e"
    by (auto simp: representable_def)
  show ?thesis
  proof (cases "\<bar>n\<bar> = 2 ^ 53")
    case True
    then have "n = 2 * 2 ^ 52 \<or> n = 2 * (- (2 ^ 52))" by (simp add: abs_if split: if_splits)
    then obtain m :: int where m: "n = 2 * m" "\<bar>m\<bar> < 2 ^ 53" by force
    with ne have y: "y = of_int m * 2 powi (e + 1)" by (simp add: power_int_add)
    from ne(1) have "- 1074 \<le> e + 1" by simp
    from that [OF this m(2) y] show ?thesis .
  next
    case False
    with that [of e n] ne show ?thesis by simp
  qed
qed

lemma representable_fl_pos: "0 < x \<Longrightarrow> representable (fl x)"
proof -
  assume x: "0 < x"
  let ?e = "max (ilog2 x - 52) (- 1074)"
  have u: "ulp x = 2 powi ?e" using x by (simp add: ulp_def)
  have "x \<le> 2 powi (ilog2 x + 1)" using ilog2_bounds(2) [OF x] by simp
  also have "\<dots> \<le> 2 powi (53 + ?e)" by (intro power_int_increasing) auto
  also have "\<dots> = 2 powi 53 * 2 powi ?e" by (rule power_int_add) simp
  finally have "x / ulp x \<le> of_int (2 ^ 53)" unfolding u by (simp add: pos_divide_le_eq)
  then have "rne (x / ulp x) \<le> rne (of_int (2 ^ 53))" by (rule rne_mono)
  then have "rne (x / ulp x) \<le> 2 ^ 53" by (simp only: rne_of_int)
  moreover have "0 \<le> rne (x / ulp x)" using x by (simp add: rne_nonneg)
  ultimately show ?thesis
    unfolding representable_def using x u
    by (intro exI [of _ "rne (x / ulp x)"] exI [of _ ?e]) (simp add: fl_def)
qed

lemma representable_fl: "representable (fl x)"
proof -
  consider "0 < x" | "x = 0" | "0 < - x" by linarith
  then show ?thesis
  proof cases
    case 2
    then show ?thesis using representable_of_int [of 0] by simp
  next
    case 3
    from representable_minus [OF representable_fl_pos [OF 3]] show ?thesis by (simp add: fl_minus)
  qed (rule representable_fl_pos)
qed

lemma fl_representable: "representable y \<Longrightarrow> fl y = y"
proof (cases "y = 0")
  case False
  assume "representable y"
  then obtain n e where ne: "- 1074 \<le> e" "\<bar>n\<bar> < 2 ^ 53" "y = of_int n * 2 powi e"
    by (rule representable_strict)
  have ay: "\<bar>y\<bar> = of_int \<bar>n\<bar> * 2 powi e" using ne by (simp add: abs_mult)
  have "\<bar>y\<bar> < 2 powi (53 + e)"
  proof -
    have "of_int \<bar>n\<bar> < (of_int (2 ^ 53) :: rat)" using ne(2) by (simp only: of_int_less_iff)
    then have "\<bar>y\<bar> < of_int (2 ^ 53) * 2 powi e" unfolding ay by (intro mult_strict_right_mono) auto
    then show ?thesis by (simp add: power_int_add)
  qed
  then have "\<not> 53 + e \<le> ilog2 \<bar>y\<bar>" using ilog2_ge_iff [of "\<bar>y\<bar>" "53 + e"] False by simp
  then have "max (ilog2 \<bar>y\<bar> - 52) (- 1074) \<le> e" using ne(1) by simp
  from powi_div_int [OF this] obtain m where "2 powi e / ulp y = of_int m" by (auto simp: ulp_def)
  then have "y / ulp y = of_int (n * m)" using ne(3) by (simp add: field_simps)
  then show ?thesis using False by (simp add: fl_def del: of_int_mult) (simp add: field_simps)
qed simp

section \<open>What the components rely on\<close>

locale rounding =
  fixes rnd :: "rat \<Rightarrow> rat"
  assumes rnd_mono: "x \<le> y \<Longrightarrow> rnd x \<le> rnd y"
    and rnd_idem: "rnd (rnd x) = rnd x"
    and rnd_double: "rnd (2 * rnd x) = 2 * rnd x"
    and rnd_int: "\<bar>n\<bar> \<le> 2 ^ 53 \<Longrightarrow> rnd (of_int n) = of_int n"
begin

lemma rnd_zero [simp]: "rnd 0 = 0"
  using rnd_int [of 0] by simp

lemma rnd_one [simp]: "rnd 1 = 1"
  using rnd_int [of 1] by simp

lemma nonneg: "0 \<le> x \<Longrightarrow> 0 \<le> rnd x"
  using rnd_mono [of 0 x] by simp

lemma le_one: "x \<le> 1 \<Longrightarrow> rnd x \<le> 1"
  using rnd_mono [of x 1] by simp

lemma le_fixed: "x \<le> y \<Longrightarrow> rnd y = y \<Longrightarrow> rnd x \<le> y"
  using rnd_mono [of x y] by simp

lemma ge_fixed: "y \<le> x \<Longrightarrow> rnd y = y \<Longrightarrow> y \<le> rnd x"
  using rnd_mono [of y x] by simp

text \<open>The denominator of an intersection over union: it never drops below the intersection.\<close>

lemma union_ge_intersection:
  assumes "rnd i = i" and "i \<le> a" and "i \<le> b"
  shows "i \<le> rnd (rnd (a + b) - i)"
proof -
  have "2 * i = rnd (2 * i)" using rnd_double [of i] assms(1) by simp
  also have "\<dots> \<le> rnd (a + b)" using assms by (intro rnd_mono) simp
  finally have "i \<le> rnd (a + b) - i" by simp
  then show ?thesis using assms(1) by (rule ge_fixed)
qed

lemma ratio_unit: "0 \<le> i \<Longrightarrow> i \<le> u \<Longrightarrow> 0 < u \<Longrightarrow> 0 \<le> rnd (i / u) \<and> rnd (i / u) \<le> 1"
  by (auto intro!: nonneg le_one)

end

interpretation binary64: rounding fl
  by unfold_locales
    (auto simp: fl_mono fl_representable representable_fl representable_double representable_of_int)

end
