(* ===== verification/Rounding.thy ===== *)
theory Rounding
  imports Binary64
begin

text \<open>
  Rounding to nearest for the other formats of the program, and how far a rounded value is
  from the exact one: NumPy's float32 in theory \<open>Inference\<close>, binary64 in theory \<open>Render\<close>.
\<close>

text \<open>Rounding to nearest, ties to even, with a number of significant bits and a least exponent.\<close>

definition round_bits :: "int \<Rightarrow> int \<Rightarrow> rat \<Rightarrow> rat" where
  "round_bits bits emin x = (if x = 0 then 0
     else let u = 2 powi (max (ilog2 \<bar>x\<bar> - (bits - 1)) emin) in of_int (rne (x / u)) * u)"

text \<open>How far rounding moves a value: half a unit of its last place, or of the smallest one.\<close>

lemma round_bits_error:
  "\<bar>round_bits bits emin x - x\<bar> \<le> \<bar>x\<bar> * 2 powi (- bits) + 2 powi (emin - 1)"
proof (cases "x = 0")
  case True
  then show ?thesis by (simp add: round_bits_def)
next
  case False
  define u :: rat where "u = 2 powi (max (ilog2 \<bar>x\<bar> - (bits - 1)) emin)"
  have pos: "0 < u" by (simp add: u_def)
  have half: "2 powi (1 - bits) = 2 * (2 powi (- bits) :: rat)" "2 powi emin = 2 * (2 powi (emin - 1) :: rat)"
    using power_int_add [of "2 :: rat" 1 "- bits"] power_int_add [of "2 :: rat" 1 "emin - 1"] by simp_all
  have step: "u \<le> \<bar>x\<bar> * 2 powi (1 - bits) + 2 powi emin"
  proof (cases "emin \<le> ilog2 \<bar>x\<bar> - (bits - 1)")
    case True
    then have "u = 2 powi (ilog2 \<bar>x\<bar> + (1 - bits))" by (simp add: u_def max_def algebra_simps)
    also have "\<dots> = 2 powi (ilog2 \<bar>x\<bar>) * 2 powi (1 - bits)" by (rule power_int_add) simp
    also have "\<dots> \<le> \<bar>x\<bar> * 2 powi (1 - bits)"
      using ilog2_bounds(1) [of "\<bar>x\<bar>"] False by (intro mult_right_mono) auto
    also have "\<dots> \<le> \<bar>x\<bar> * 2 powi (1 - bits) + 2 powi emin" by simp
    finally show ?thesis .
  next
    case False
    then have "u = 2 powi emin" by (simp add: u_def max_def)
    then show ?thesis by simp
  qed
  have "of_int (rne (x / u)) * u - x = (of_int (rne (x / u)) - x / u) * u"
    using pos by (simp add: left_diff_distrib)
  then have "\<bar>of_int (rne (x / u)) * u - x\<bar> = \<bar>of_int (rne (x / u)) - x / u\<bar> * u"
    using pos by (simp only: abs_mult abs_of_pos)
  also have "\<dots> \<le> 1 / 2 * u"
    using rne_dist [of "x / u"] pos by (intro mult_right_mono) auto
  also have "\<dots> \<le> \<bar>x\<bar> * 2 powi (- bits) + 2 powi (emin - 1)"
    using step unfolding half by linarith
  finally show ?thesis
    using False by (simp add: round_bits_def Let_def u_def)
qed

lemma fl_round_bits: "fl = round_bits 53 (- 1074)"
  by (simp add: fun_eq_iff fl_def round_bits_def ulp_def Let_def)

lemma fl_error: "\<bar>fl x - x\<bar> \<le> \<bar>x\<bar> / 2 ^ 53 + 1 / 2 ^ 64"
proof -
  have "(2::rat) powi (- 1074 - 1) \<le> 2 powi (- 64)" by (intro power_int_increasing) auto
  also have "\<dots> = 1 / 2 ^ 64" by (simp add: power_int_minus)
  finally have "(2::rat) powi (- 1074 - 1) \<le> 1 / 2 ^ 64" .
  with round_bits_error [of 53 "- 1074" x] show ?thesis
    by (simp add: fl_round_bits power_int_minus field_simps)
qed

text \<open>Values up to a thousand, as in the geometry of an image, move by less than a billionth.\<close>

lemma fl_near: "\<bar>x\<bar> \<le> 1000 \<Longrightarrow> \<bar>fl x - x\<bar> \<le> 1 / 1000000000"
  using fl_error [of x] by (simp add: field_simps)

end
