(* ===== verification/Verifier.thy ===== *)
theory Verifier
  imports Binary64
begin

text \<open>
  The edge gate \<^verbatim>\<open>FireVerifier\<close> of \<^verbatim>\<open>src/poc/pi/ignis_poc/core.py\<close>: detections of one
  frame go in, the state of the local incident comes out. \<open>update\<close> is the method of that
  name; the object's fields are the record \<open>verifier\<close>, whose \<open>state\<close> is the mutable
  \<^verbatim>\<open>FireState\<close> the method returns.
\<close>

section \<open>Data\<close>

record detection =
  class_name :: string
  class_id :: int
  confidence :: rat
  bbox :: "rat \<times> rat \<times> rat \<times> rat"

record fire_state =
  hazard_state :: hazard_state
  incident_id :: "string option"
  first_detection_ns :: int
  last_relevant_ns :: int
  confirmed :: bool
  fire_confidence :: rat
  smoke_confidence :: rat
  seconds_persistent :: rat

definition fire_state0 :: fire_state where
  "fire_state0 = \<lparr>hazard_state = CLEAR, incident_id = None, first_detection_ns = 0,
     last_relevant_ns = 0, confirmed = False, fire_confidence = 0, smoke_confidence = 0,
     seconds_persistent = 0\<rparr>"

record verifier =
  device_id :: string
  boot_id :: string
  maxlen :: nat
  window :: "bool list"
  required :: int
  fire_threshold :: rat
  smoke_threshold :: rat
  confirm_ns :: int
  clear_ns :: int
  reset_ns :: int
  counter :: int
  state :: fire_state

text \<open>\<open>int(x)\<close> of a float truncates towards zero.\<close>

definition py_int :: "rat \<Rightarrow> int" where
  "py_int x = (if 0 \<le> x then \<lfloor>x\<rfloor> else \<lceil>x\<rceil>)"

definition fire_verifier ::
  "string \<Rightarrow> string \<Rightarrow> nat \<Rightarrow> int \<Rightarrow> rat \<Rightarrow> rat \<Rightarrow> rat \<Rightarrow> rat \<Rightarrow> rat \<Rightarrow> verifier" where
  "fire_verifier dev boot win req fire_thr smoke_thr confirm_seconds clear_seconds reset_seconds =
     \<lparr>device_id = dev, boot_id = boot, maxlen = win, window = [], required = req,
      fire_threshold = fire_thr, smoke_threshold = smoke_thr,
      confirm_ns = py_int (fmul confirm_seconds 1000000000),
      clear_ns = py_int (fmul clear_seconds 1000000000),
      reset_ns = py_int (fmul reset_seconds 1000000000),
      counter = 0, state = fire_state0\<rparr>"

text \<open>The defaults of the constructor; the decimal literals are rounded when they are read.\<close>

definition default_verifier :: "string \<Rightarrow> string \<Rightarrow> verifier" where
  "default_verifier dev boot =
     fire_verifier dev boot 10 6 (fl (55/100)) (fl (65/100)) (fl (15/10)) 5 10"

section \<open>One frame\<close>

definition class_max :: "string \<Rightarrow> detection list \<Rightarrow> rat" where
  "class_max c dets = max_default 0 [confidence d. d \<leftarrow> dets, class_name d = c]"

definition relevant :: "verifier \<Rightarrow> detection list \<Rightarrow> bool" where
  "relevant v dets \<longleftrightarrow> fire_threshold v \<le> class_max ''fire'' dets
                    \<or> smoke_threshold v \<le> class_max ''smoke'' dets"

definition mk_incident_id :: "string \<Rightarrow> string \<Rightarrow> int \<Rightarrow> string" where
  "mk_incident_id dev boot n = dev @ ''-'' @ boot @ ''-'' @ str_int n"

definition hits :: "verifier \<Rightarrow> int" where
  "hits v = int (length (filter (\<lambda>b. b) (window v)))"

definition verifying_hits :: "verifier \<Rightarrow> int" where
  "verifying_hits v = max 3 (required v div 2)"

text \<open>\<open>if state.incident_id is None: \<dots>\<close>\<close>

definition open_incident :: "int \<Rightarrow> verifier \<Rightarrow> verifier" where
  "open_incident t v =
     (if incident_id (state v) = None then
        let n = counter v + 1 in
        v\<lparr>counter := n,
          state := (state v)\<lparr>incident_id := Some (mk_incident_id (device_id v) (boot_id v) n),
                             first_detection_ns := t, hazard_state := SUSPECTED\<rparr>\<rparr>
      else v)"

text \<open>The two threshold checks on the window, in the order of the code.\<close>

definition advance :: "int \<Rightarrow> verifier \<Rightarrow> verifier" where
  "advance t v =
     (let s = state v;
          s = s\<lparr>seconds_persistent :=
                  fdiv (fl (of_int (t - first_detection_ns s))) 1000000000\<rparr>;
          h = hits v;
          s = (if verifying_hits v \<le> h \<and> \<not> confirmed s
               then s\<lparr>hazard_state := VERIFYING\<rparr> else s);
          s = (if required v \<le> h \<and> confirm_ns v \<le> t - first_detection_ns s
               then s\<lparr>hazard_state := CONFIRMED, confirmed := True\<rparr> else s)
      in v\<lparr>state := s\<rparr>)"

text \<open>A frame without relevant detections while an incident is open.\<close>

definition missing :: "int \<Rightarrow> verifier \<Rightarrow> verifier" where
  "missing t v =
     (let s = state v; missing_ns = t - last_relevant_ns s in
      if confirmed s \<and> reset_ns v \<le> missing_ns then v\<lparr>window := [], state := fire_state0\<rparr>
      else if confirmed s \<and> clear_ns v \<le> missing_ns
        then v\<lparr>state := s\<lparr>hazard_state := VISUAL_SIGNATURE_LOST\<rparr>\<rparr>
      else if \<not> confirmed s \<and> clear_ns v \<le> missing_ns
        then v\<lparr>window := [], state := fire_state0\<rparr>
      else v)"

definition observe :: "detection list \<Rightarrow> verifier \<Rightarrow> verifier" where
  "observe dets v =
     v\<lparr>window := deque_append (maxlen v) (relevant v dets) (window v),
       state := (state v)\<lparr>fire_confidence := class_max ''fire'' dets,
                          smoke_confidence := class_max ''smoke'' dets\<rparr>\<rparr>"

definition update :: "int \<Rightarrow> detection list \<Rightarrow> verifier \<Rightarrow> verifier" where
  "update t dets v =
     (let rel = relevant v dets; v = observe dets v in
      if rel then
        advance t (open_incident t (v\<lparr>state := (state v)\<lparr>last_relevant_ns := t\<rparr>\<rparr>))
      else if incident_id (state v) \<noteq> None \<and> incident_id (state v) \<noteq> Some [] then missing t v
      else v)"

type_synonym frame = "int \<times> detection list"

definition step :: "frame \<Rightarrow> verifier \<Rightarrow> verifier" where
  "step e = update (fst e) (snd e)"

definition run :: "frame list \<Rightarrow> verifier \<Rightarrow> verifier" where
  "run es v = fold step es v"

lemma run_simps [simp]:
  "run [] v = v" "run (e # es) v = run es (step e v)" "run (es @ fs) v = run fs (run es v)"
  by (simp_all add: run_def)

section \<open>Frame conditions\<close>

lemmas op_defs = update_def observe_def open_incident_def advance_def missing_def Let_def

lemma update_config [frame_simps]:
  "device_id (update t d v) = device_id v" "boot_id (update t d v) = boot_id v"
  "maxlen (update t d v) = maxlen v" "required (update t d v) = required v"
  "fire_threshold (update t d v) = fire_threshold v"
  "smoke_threshold (update t d v) = smoke_threshold v"
  "confirm_ns (update t d v) = confirm_ns v" "clear_ns (update t d v) = clear_ns v"
  "reset_ns (update t d v) = reset_ns v"
  by (simp_all add: op_defs)

lemma verifying_hits_update [frame_simps]: "verifying_hits (update t d v) = verifying_hits v"
  by (simp add: verifying_hits_def frame_simps)

lemma relevant_update [frame_simps]: "relevant (update t d v) = relevant v"
  by (simp add: relevant_def fun_eq_iff frame_simps)

lemma run_config [frame_simps]:
  "device_id (run es v) = device_id v" "boot_id (run es v) = boot_id v"
  "maxlen (run es v) = maxlen v" "required (run es v) = required v"
  "confirm_ns (run es v) = confirm_ns v" "clear_ns (run es v) = clear_ns v"
  "reset_ns (run es v) = reset_ns v" "relevant (run es v) = relevant v"
  by (induction es arbitrary: v) (simp_all add: step_def frame_simps)

section \<open>Well-formedness\<close>

definition wf :: "verifier \<Rightarrow> bool" where
  "wf v \<longleftrightarrow> length (window v) \<le> maxlen v
     \<and> (case incident_id (state v) of
          None \<Rightarrow> hazard_state (state v) = CLEAR \<and> True \<notin> set (window v)
        | Some i \<Rightarrow> i = mk_incident_id (device_id v) (boot_id v) (counter v)
                  \<and> hazard_state (state v) \<in> {SUSPECTED, VERIFYING, CONFIRMED, VISUAL_SIGNATURE_LOST})
     \<and> (confirmed (state v) \<longleftrightarrow> hazard_state (state v) \<in> {CONFIRMED, VISUAL_SIGNATURE_LOST})
     \<and> (hazard_state (state v) = SUSPECTED \<longrightarrow> hits v < verifying_hits v)"

lemma mk_incident_id_nonempty [simp]: "mk_incident_id d b n \<noteq> []"
  by (simp add: mk_incident_id_def)

lemma mk_incident_id_inj: "mk_incident_id d b m = mk_incident_id d b n \<longleftrightarrow> m = n"
  by (auto simp: mk_incident_id_def dest: str_int_inj)

definition hit_count :: "bool list \<Rightarrow> int" where
  "hit_count w = int (length (filter (\<lambda>b. b) w))"

lemma hits_count: "hits v = hit_count (window v)"
  by (simp add: hits_def hit_count_def)

lemma hit_count_append: "hit_count (xs @ ys) = hit_count xs + hit_count ys"
  by (simp add: hit_count_def)

lemma hit_count_nonneg [simp]: "0 \<le> hit_count w"
  by (simp add: hit_count_def)

lemma hit_count_drop: "hit_count (drop k xs) \<le> hit_count xs"
  by (metis append_take_drop_id hit_count_append hit_count_nonneg le_add_same_cancel2)

lemma hit_count_deque:
  "hit_count (deque_append n x w) \<le> hit_count w + (if x then 1 else 0)"
  using hit_count_drop [of "length (w @ [x]) - n" "w @ [x]"]
  by (simp add: hit_count_append deque_append_def hit_count_def split: if_splits)

lemma hit_count_zero [simp]: "True \<notin> set w \<Longrightarrow> hit_count w = 0"
  by (auto simp: hit_count_def filter_empty_conv)

lemma hit_count_Nil [simp]: "hit_count [] = 0"
  by (simp add: hit_count_def)

lemma True_in_deque: "\<not> x \<Longrightarrow> True \<notin> set w \<Longrightarrow> True \<notin> set (deque_append n x w)"
  by (auto simp: deque_append_def Let_def dest: in_set_dropD)

text \<open>What one frame does, field by field: first a frame with a relevant detection.\<close>

definition first_ns :: "int \<Rightarrow> verifier \<Rightarrow> int" where
  "first_ns t v = (if incident_id (state v) = None then t else first_detection_ns (state v))"

definition confirms :: "int \<Rightarrow> verifier \<Rightarrow> bool" where
  "confirms t v \<longleftrightarrow> required v \<le> hit_count (deque_append (maxlen v) True (window v))
                 \<and> confirm_ns v \<le> t - first_ns t v"

lemma advance_simps [simp]:
  "window (advance t v) = window v" "counter (advance t v) = counter v"
  "incident_id (state (advance t v)) = incident_id (state v)"
  "first_detection_ns (state (advance t v)) = first_detection_ns (state v)"
  "last_relevant_ns (state (advance t v)) = last_relevant_ns (state v)"
  "confirmed (state (advance t v)) \<longleftrightarrow> confirmed (state v)
     \<or> required v \<le> hits v \<and> confirm_ns v \<le> t - first_detection_ns (state v)"
  "hazard_state (state (advance t v)) =
     (if required v \<le> hits v \<and> confirm_ns v \<le> t - first_detection_ns (state v) then CONFIRMED
      else if verifying_hits v \<le> hits v \<and> \<not> confirmed (state v) then VERIFYING
      else hazard_state (state v))"
  by (simp_all add: advance_def Let_def) blast

lemma open_incident_simps [simp]:
  "window (open_incident t v) = window v" "maxlen (open_incident t v) = maxlen v"
  "required (open_incident t v) = required v" "confirm_ns (open_incident t v) = confirm_ns v"
  "verifying_hits (open_incident t v) = verifying_hits v"
  "hits (open_incident t v) = hits v"
  "counter (open_incident t v) = (if incident_id (state v) = None then counter v + 1 else counter v)"
  "incident_id (state (open_incident t v)) = (if incident_id (state v) = None
     then Some (mk_incident_id (device_id v) (boot_id v) (counter v + 1)) else incident_id (state v))"
  "first_detection_ns (state (open_incident t v)) = first_ns t v"
  "last_relevant_ns (state (open_incident t v)) = last_relevant_ns (state v)"
  "confirmed (state (open_incident t v)) = confirmed (state v)"
  "hazard_state (state (open_incident t v)) =
     (if incident_id (state v) = None then SUSPECTED else hazard_state (state v))"
  by (simp_all add: open_incident_def first_ns_def hits_def verifying_hits_def Let_def)

lemma update_relevant:
  assumes "relevant v d"
  shows "window (update t d v) = deque_append (maxlen v) True (window v)"
    and "counter (update t d v) = (if incident_id (state v) = None then counter v + 1 else counter v)"
    and "incident_id (state (update t d v)) =
       (if incident_id (state v) = None
        then Some (mk_incident_id (device_id v) (boot_id v) (counter v + 1))
        else incident_id (state v))"
    and "first_detection_ns (state (update t d v)) = first_ns t v"
    and "last_relevant_ns (state (update t d v)) = t"
    and "confirmed (state (update t d v)) \<longleftrightarrow> confirmed (state v) \<or> confirms t v"
    and "hazard_state (state (update t d v)) =
       (if confirms t v then CONFIRMED
        else if verifying_hits v \<le> hit_count (deque_append (maxlen v) True (window v))
              \<and> \<not> confirmed (state v) then VERIFYING
        else if incident_id (state v) = None then SUSPECTED
        else hazard_state (state v))"
  using assms
  by (auto simp: update_def observe_def first_ns_def confirms_def hits_count verifying_hits_def
        Let_def)

text \<open>Then a frame without one: nothing is open, the incident is closed, lost, or untouched.\<close>

definition closes :: "int \<Rightarrow> verifier \<Rightarrow> bool" where
  "closes t v \<longleftrightarrow> incident_id (state v) \<noteq> None \<and> incident_id (state v) \<noteq> Some []
     \<and> (if confirmed (state v) then reset_ns v else clear_ns v) \<le> t - last_relevant_ns (state v)"

definition loses :: "int \<Rightarrow> verifier \<Rightarrow> bool" where
  "loses t v \<longleftrightarrow> incident_id (state v) \<noteq> None \<and> incident_id (state v) \<noteq> Some []
     \<and> confirmed (state v) \<and> clear_ns v \<le> t - last_relevant_ns (state v) \<and> \<not> closes t v"

lemma update_irrelevant:
  assumes "\<not> relevant v d"
  shows "window (update t d v) =
       (if closes t v then [] else deque_append (maxlen v) False (window v))"
    and "counter (update t d v) = counter v"
    and "incident_id (state (update t d v)) = (if closes t v then None else incident_id (state v))"
    and "first_detection_ns (state (update t d v)) =
       (if closes t v then 0 else first_detection_ns (state v))"
    and "last_relevant_ns (state (update t d v)) =
       (if closes t v then 0 else last_relevant_ns (state v))"
    and "confirmed (state (update t d v)) \<longleftrightarrow> confirmed (state v) \<and> \<not> closes t v"
    and "hazard_state (state (update t d v)) =
       (if closes t v then CLEAR else if loses t v then VISUAL_SIGNATURE_LOST
        else hazard_state (state v))"
  using assms
  by (simp_all add: update_def observe_def missing_def fire_state0_def closes_def loses_def Let_def)

lemma wf_init: "wf (fire_verifier d b w r ft st cs ls rs)"
  by (simp add: wf_def fire_verifier_def fire_state0_def)

lemma wf_update_relevant:
  assumes "wf v" and "relevant v d"
  shows "wf (update t d v)"
proof -
  have len: "length (deque_append (maxlen v) True (window v)) \<le> maxlen v"
    using assms(1) by (simp add: wf_def length_deque_append)
  note fields = update_relevant [OF assms(2)] hits_count frame_simps
  show ?thesis
  proof (cases "incident_id (state v)")
    case None
    with assms(1) len show ?thesis unfolding wf_def by (simp add: fields not_le)
  next
    case (Some i)
    with assms(1) len show ?thesis unfolding wf_def by (simp add: fields not_le)
  qed
qed

lemma wf_update_irrelevant:
  assumes "wf v" and "\<not> relevant v d"
  shows "wf (update t d v)"
proof (cases "closes t v")
  case True
  then show ?thesis
    by (simp add: wf_def hits_count frame_simps update_irrelevant [OF assms(2)])
next
  case False
  have "hit_count (deque_append (maxlen v) False (window v)) \<le> hit_count (window v)"
    using hit_count_deque [of "maxlen v" False "window v"] by simp
  with assms(1) False length_deque_append [of "window v" "maxlen v" False] show ?thesis
    by (auto simp: wf_def hits_count frame_simps update_irrelevant [OF assms(2)] loses_def
             dest: True_in_deque [rotated, of _ False "maxlen v"] split: option.splits)
qed

lemma wf_update [wf_intros]: "wf v \<Longrightarrow> wf (update t d v)"
  by (cases "relevant v d") (simp_all add: wf_update_relevant wf_update_irrelevant)

interpretation verifier_machine: machine step wf
  by unfold_locales (simp add: step_def wf_update)

lemma wf_run: "wf v \<Longrightarrow> wf (run es v)"
  unfolding run_def by (rule verifier_machine.run_inv)

section \<open>The incident life cycle\<close>

inductive lifecycle :: "hazard_state \<Rightarrow> hazard_state \<Rightarrow> bool" where
  stay: "lifecycle s s"
| detect: "lifecycle CLEAR SUSPECTED"
| persist: "lifecycle SUSPECTED VERIFYING"
| confirm: "lifecycle VERIFYING CONFIRMED"
| lose: "lifecycle CONFIRMED VISUAL_SIGNATURE_LOST"
| regain: "lifecycle VISUAL_SIGNATURE_LOST CONFIRMED"
| close: "s \<noteq> CLEAR \<Longrightarrow> lifecycle s CLEAR"

code_pred lifecycle .

inductive_simps lifecycle_simps [simp]:
  "lifecycle CLEAR s" "lifecycle SUSPECTED s" "lifecycle VERIFYING s" "lifecycle CONFIRMED s"
  "lifecycle VISUAL_SIGNATURE_LOST s"

lemma lifecycle_update:
  assumes wf: "wf v" and r: "4 \<le> required v"
  shows "lifecycle (hazard_state (state v)) (hazard_state (state (update t d v)))"
proof (cases "relevant v d")
  case True
  have hc: "hit_count (deque_append (maxlen v) True (window v)) \<le> hit_count (window v) + 1"
    using hit_count_deque [of "maxlen v" True "window v"] by simp
  have r': "verifying_hits v < required v" using r by (simp add: verifying_hits_def)
  show ?thesis
  proof (cases "incident_id (state v)")
    case None
    with wf have "hit_count (window v) = 0" "hazard_state (state v) = CLEAR"
      by (simp_all add: wf_def)
    with None hc r show ?thesis
      by (auto simp: update_relevant [OF True] confirms_def verifying_hits_def)
  next
    case (Some i)
    have "hit_count (window v) < verifying_hits v" if "hazard_state (state v) = SUSPECTED"
      using that wf by (simp add: wf_def hits_count)
    moreover from Some wf
    have "hazard_state (state v) \<in> {SUSPECTED, VERIFYING, CONFIRMED, VISUAL_SIGNATURE_LOST}"
      and "confirmed (state v) \<longleftrightarrow> hazard_state (state v) \<in> {CONFIRMED, VISUAL_SIGNATURE_LOST}"
      by (simp_all add: wf_def)
    ultimately show ?thesis using Some hc r'
      by (auto simp: update_relevant [OF True] confirms_def)
  qed
next
  case False
  with wf show ?thesis
    by (auto simp: wf_def update_irrelevant [OF False] closes_def loses_def split: option.splits
             intro: lifecycle.intros)
qed

section \<open>Runs and their history\<close>

lemma run_snoc [simp]: "run (es @ [e]) v = step e (run es v)"
  by (simp add: run_def)

abbreviation last_n :: "nat \<Rightarrow> 'a list \<Rightarrow> 'a list" where
  "last_n n xs \<equiv> drop (length xs - n) xs"

definition flags :: "verifier \<Rightarrow> frame list \<Rightarrow> bool list" where
  "flags v es = map (\<lambda>e. relevant v (snd e)) es"

lemma suffix_deque_append: "suffix w hs \<Longrightarrow> suffix (deque_append n x w) (hs @ [x])"
  unfolding deque_append_def Let_def
  by (meson suffix_drop suffix_order.trans suffix_snoc suffix_def append_assoc)

lemma window_suffix:
  "window v = [] \<Longrightarrow> suffix (window (run es v)) (flags v es)"
proof (induction es rule: rev_induct)
  case (snoc e es)
  then have ih: "suffix (window (run es v)) (flags v es)" by simp
  show ?case
  proof (cases "relevant v (snd e)")
    case True
    then have "relevant (run es v) (snd e)" by (simp add: frame_simps)
    from update_relevant(1) [OF this] suffix_deque_append [OF ih] True
    show ?thesis by (simp add: flags_def step_def)
  next
    case False
    then have "\<not> relevant (run es v) (snd e)" by (simp add: frame_simps)
    from update_irrelevant(1) [OF this] suffix_deque_append [OF ih] False
    show ?thesis by (simp add: flags_def step_def)
  qed
qed (simp add: flags_def)

lemma hit_count_suffix:
  assumes "suffix w hs" and "length w \<le> n"
  shows "hit_count w \<le> hit_count (last_n n hs)"
proof -
  from assms(1) obtain zs where hs: "hs = zs @ w" by (auto simp: suffix_def)
  have "last_n n hs = drop (length hs - n) zs @ w"
    using assms(2) by (simp add: hs)
  then show ?thesis by (simp add: hit_count_append)
qed

text \<open>
  The incident open after a run: the frame \<open>f\<close> that opened it, from no open incident, and the
  frames \<open>b\<close> since, after each of which it was open.
\<close>

definition opened_by :: "verifier \<Rightarrow> string \<Rightarrow> frame list \<Rightarrow> frame \<Rightarrow> frame list \<Rightarrow> bool" where
  "opened_by v i a f b \<longleftrightarrow> relevant v (snd f) \<and> incident_id (state (run a v)) = None
     \<and> (\<forall>c. prefix c b \<longrightarrow> incident_id (state (run (a @ f # c) v)) = Some i)"

lemma opened_by_snoc:
  "opened_by v i a f b \<Longrightarrow> incident_id (state (run (a @ f # b @ [e]) v)) = Some i \<Longrightarrow> opened_by v i a f (b @ [e])"
  by (auto simp: opened_by_def)

lemma incident_opened:
  "incident_id (state v) = None \<Longrightarrow> incident_id (state (run es v)) = Some i \<Longrightarrow>
   \<exists>a f b. es = a @ f # b \<and> opened_by v i a f b \<and> first_detection_ns (state (run es v)) = fst f"
proof (induction es arbitrary: i rule: rev_induct)
  case (snoc e es)
  let ?u = "run es v" and ?w = "run (es @ [e]) v"
  have same: "\<exists>a f b. es @ [e] = a @ f # b \<and> opened_by v i a f b \<and> first_detection_ns (state ?w) = fst f"
    if "incident_id (state ?u) = Some i" "first_detection_ns (state ?w) = first_detection_ns (state ?u)"
  proof -
    from snoc.IH [OF snoc.prems(1) that(1)] obtain a f b where ih: "es = a @ f # b" "opened_by v i a f b"
      "first_detection_ns (state ?u) = fst f" by blast
    then have "opened_by v i a f (b @ [e])" using snoc.prems(2) by (intro opened_by_snoc) simp_all
    with ih that(2) show ?thesis by (intro exI [of _ a] exI [of _ f] exI [of _ "b @ [e]"]) simp
  qed
  show ?case
  proof (cases "relevant ?u (snd e)")
    case True
    note fields = update_relevant [OF this]
    show ?thesis
    proof (cases "incident_id (state ?u) = None")
      case new: True
      from True have "relevant v (snd e)" by (simp add: frame_simps)
      with new snoc.prems(2) have "opened_by v i es e []" by (simp add: opened_by_def)
      with new show ?thesis
        by (intro exI [of _ es] exI [of _ e] exI [of _ "[]"]) (simp add: step_def fields first_ns_def)
    next
      case False
      with snoc.prems(2) have "incident_id (state ?u) = Some i" by (simp add: step_def fields)
      with False show ?thesis by (intro same) (simp_all add: step_def fields first_ns_def)
    qed
  next
    case False
    with snoc.prems(2) show ?thesis
      by (intro same) (auto simp: step_def update_irrelevant split: if_splits)
  qed
qed simp

text \<open>
  How an incident was confirmed: at the last of the frames \<open>f # b\<close>, at which it is still the incident
  that \<open>f\<close> opened, with enough hits in the window and long enough after \<open>f\<close>.
\<close>

lemma confirmed_incident:
  assumes "wf v" and "incident_id (state v) = None" and "window v = []"
    and "confirmed (state (run es v))"
  shows "\<exists>i a f b suf. es = a @ (f # b) @ suf \<and> opened_by v i a f b \<and> relevant v (snd (last (f # b)))
     \<and> required v \<le> hit_count (last_n (maxlen v) (flags v (a @ f # b)))
     \<and> confirm_ns v \<le> fst (last (f # b)) - fst f"
  using assms(4)
proof (induction es rule: rev_induct)
  case Nil
  with assms(1,2) show ?case by (simp add: wf_def)
next
  case (snoc e es)
  show ?case
  proof (cases "confirmed (state (run es v))")
    case True
    from snoc.IH [OF this] show ?thesis by (metis append.assoc)
  next
    case False
    let ?u = "run es v"
    have rel: "relevant v (snd e)"
    proof (rule ccontr)
      assume "\<not> relevant v (snd e)"
      then have "\<not> relevant ?u (snd e)" by (simp add: frame_simps)
      from update_irrelevant(6) [OF this] snoc.prems False show False by (simp add: step_def)
    qed
    then have rel': "relevant ?u (snd e)" by (simp add: frame_simps)
    note fields = update_relevant [OF rel']
    from snoc.prems False have conf: "confirms (fst e) ?u" by (simp add: step_def fields)
    have "wf (run (es @ [e]) v)" by (rule wf_run) (rule assms(1))
    then have "length (window (run (es @ [e]) v)) \<le> maxlen v" by (simp add: wf_def step_def frame_simps)
    from conf have "required v \<le> hit_count (window (run (es @ [e]) v))"
      by (simp add: confirms_def step_def fields frame_simps)
    also have "\<dots> \<le> hit_count (last_n (maxlen v) (flags v (es @ [e])))"
      by (rule hit_count_suffix [OF window_suffix]) fact+
    finally have hits: "required v \<le> hit_count (last_n (maxlen v) (flags v (es @ [e])))" .
    have "incident_id (state (run (es @ [e]) v)) \<noteq> None" by (simp add: step_def fields)
    then obtain i where "incident_id (state (run (es @ [e]) v)) = Some i" by blast
    from incident_opened [OF assms(2) this] obtain a f b where o: "es @ [e] = a @ f # b" "opened_by v i a f b"
      "first_detection_ns (state (run (es @ [e]) v)) = fst f" by blast
    have "last (f # b) = e" by (metis o(1) last_appendR last_snoc list.distinct(1))
    moreover have "confirm_ns v \<le> fst e - fst f"
      using conf o(3) by (simp add: step_def fields confirms_def frame_simps)
    ultimately show ?thesis using o(1,2) rel hits
      by (intro exI [of _ i] exI [of _ a] exI [of _ f] exI [of _ b] exI [of _ "[]"]) simp
  qed
qed

lemma confirmed_in_history:
  assumes "wf v" and "incident_id (state v) = None" and "window v = []"
    and "confirmed (state (run es v))"
  shows "\<exists>pre e suf. es = pre @ e # suf \<and> relevant v (snd e)
     \<and> required v \<le> hit_count (last_n (maxlen v) (flags v (pre @ [e])))
     \<and> (\<exists>f \<in> set (pre @ [e]). relevant v (snd f) \<and> confirm_ns v \<le> fst e - fst f)"
proof -
  from confirmed_incident [OF assms] obtain i a f b suf where c: "es = a @ (f # b) @ suf"
    "opened_by v i a f b" "relevant v (snd (last (f # b)))"
    "required v \<le> hit_count (last_n (maxlen v) (flags v (a @ f # b)))"
    "confirm_ns v \<le> fst (last (f # b)) - fst f" by blast
  have fb: "f # b = butlast (f # b) @ [last (f # b)]" by simp
  let ?pre = "a @ butlast (f # b)" and ?e = "last (f # b)"
  have all: "?pre @ [?e] = a @ f # b" by (simp del: butlast.simps last.simps)
  have "f \<in> set (?pre @ [?e])" unfolding all by simp
  moreover have "relevant v (snd f)" using c(2) by (simp add: opened_by_def)
  moreover have "es = ?pre @ ?e # suf" using c(1) fb by (metis append.assoc append_Cons append_Nil)
  ultimately show ?thesis using c(3-5) unfolding all [symmetric] by blast
qed

text \<open>A run of relevant frames fills the window.\<close>

lemma all_relevant_window:
  assumes "length (window v) \<le> maxlen v" and "\<forall>e \<in> set es. relevant v (snd e)"
  shows "window (run es v) = last_n (maxlen v) (window v @ replicate (length es) True)"
  using assms(2)
proof (induction es rule: rev_induct)
  case (snoc e es)
  then have "relevant (run es v) (snd e)" by (simp add: frame_simps)
  with snoc show ?case
    using deque_append_last_n [of "maxlen v" True "window v @ replicate (length es) True"]
    by (simp add: step_def update_relevant frame_simps flip: replicate_append_same)
qed (use assms(1) in simp)

lemma hit_count_replicate: "min (int n) (int m) \<le> hit_count (last_n n (w @ replicate m True))"
  by (simp add: hit_count_append) (simp add: hit_count_def)

lemma all_relevant_first:
  "es \<noteq> [] \<Longrightarrow> incident_id (state v) = None \<Longrightarrow> \<forall>e \<in> set es. relevant v (snd e) \<Longrightarrow>
   incident_id (state (run es v)) \<noteq> None \<and> first_detection_ns (state (run es v)) = fst (hd es)"
proof (induction es rule: rev_induct)
  case (snoc e es)
  then have "relevant (run es v) (snd e)" by (simp add: frame_simps)
  with snoc show ?case by (cases es) (auto simp: step_def update_relevant first_ns_def)
qed simp

lemma counter_step_mono: "counter v \<le> counter (step e v)"
  by (cases "relevant v (snd e)") (simp_all add: step_def update_relevant update_irrelevant)

lemma counter_run_mono: "counter v \<le> counter (run es v)"
proof (induction es rule: rev_induct)
  case (snoc e es)
  then show ?case using counter_step_mono [of "run es v" e] by simp
qed simp

lemma counter_opens:
  "incident_id (state v) = None \<Longrightarrow> incident_id (state (run es v)) \<noteq> None \<Longrightarrow>
   counter v < counter (run es v)"
proof (induction es rule: rev_induct)
  case (snoc e es)
  show ?case
  proof (cases "relevant (run es v) (snd e)")
    case True
    with snoc counter_run_mono [of v es] show ?thesis
      by (auto simp: step_def update_relevant)
  next
    case False
    with snoc show ?thesis by (auto simp: step_def update_irrelevant split: if_splits)
  qed
qed simp

section \<open>Properties\<close>

text \<open>
  C7. \<^verbatim>\<open>FireVerifier\<close> confirms only on evidence: if the incident is confirmed after a run from a
  fresh verifier, then at some frame of the run, itself relevant, at least \<open>required\<close> of the
  last \<open>maxlen\<close> frames were relevant, and \<open>confirm_ns\<close> had passed since some relevant frame
  of the run. One model output never confirms.
\<close>

theorem confirmed_has_evidence:
  assumes "v = fire_verifier dev boot win req fthr sthr cs ls rs"
    and "confirmed (state (run es v))"
  shows "\<exists>pre e suf. es = pre @ e # suf \<and> relevant v (snd e)
     \<and> required v \<le> hit_count (last_n (maxlen v) (flags v (pre @ [e])))
     \<and> (\<exists>f \<in> set (pre @ [e]). relevant v (snd f) \<and> confirm_ns v \<le> fst e - fst f)"
  using assms wf_init by (intro confirmed_in_history) (auto simp: fire_verifier_def fire_state0_def)

definition fire_frame :: "int \<Rightarrow> frame" where
  "fire_frame t = (t, [\<lparr>class_name = ''fire'', class_id = 0, confidence = 9/10,
                        bbox = (1/10, 2/10, 5/10, 7/10)\<rparr>])"

definition six_fires :: "frame list" where
  "six_fires = map (\<lambda>i. fire_frame (i * 300000000)) [0, 1, 2, 3, 4, 5]"

lemma six_fires_state:
  "let v = run six_fires (default_verifier ''pi'' ''b'') in
     confirmed (state v) \<and> last_relevant_ns (state v) = 1500000000
     \<and> clear_ns v = 5000000000 \<and> reset_ns v = 10000000000
     \<and> \<not> relevant v []"
  by code_simp

lemma wf_default: "wf (default_verifier dev boot)"
  unfolding default_verifier_def by (rule wf_init)

lemma wf_six_fires: "wf (run six_fires (default_verifier ''pi'' ''b''))"
  by (rule wf_run) (rule wf_default)

theorem confirmed_has_evidence_witness:
  "let v = default_verifier ''pi'' ''b'' in
   \<exists>pre e suf. six_fires = pre @ e # suf \<and> relevant v (snd e)
     \<and> required v \<le> hit_count (last_n (maxlen v) (flags v (pre @ [e])))
     \<and> (\<exists>f \<in> set (pre @ [e]). relevant v (snd f) \<and> confirm_ns v \<le> fst e - fst f)"
  using confirmed_has_evidence [OF default_verifier_def] six_fires_state unfolding Let_def by blast

text \<open>
  C22. The verifier refines the incident life cycle: from a well-formed state (every reachable
  one is) with \<open>required\<close> at least 4, a frame stays, detects, persists, confirms, loses,
  regains or closes; \<open>CONFIRMED\<close> is only entered from \<open>VERIFYING\<close> or a lost signature, and
  the new state is well-formed again.
\<close>

theorem update_refines_lifecycle:
  assumes "wf v" and "4 \<le> required v"
  shows "lifecycle (hazard_state (state v)) (hazard_state (state (update t d v)))
       \<and> wf (update t d v)"
  using assms lifecycle_update wf_update by blast

theorem update_refines_lifecycle_witness:
  "lifecycle CLEAR (hazard_state (state (update 7 [] (default_verifier ''pi'' ''b''))))"
proof -
  have "4 \<le> required (default_verifier ''pi'' ''b'')"
    "hazard_state (state (default_verifier ''pi'' ''b'')) = CLEAR"
    by (simp_all add: default_verifier_def fire_verifier_def fire_state0_def)
  with update_refines_lifecycle [OF wf_default [of "''pi''" "''b''"], of 7 "[]"] show ?thesis by simp
qed

text \<open>A sustained fire: the last of its frames confirms.\<close>

lemma sustained_last_confirms:
  assumes "wf v" and "incident_id (state v) = None"
    and "\<forall>x \<in> set (fs @ [e]). relevant v (snd x)"
    and "required v \<le> int (length (fs @ [e]))" and "required v \<le> int (maxlen v)"
    and "confirm_ns v \<le> fst e - fst (hd (fs @ [e]))"
  shows "relevant (run fs v) (snd e) \<and> confirms (fst e) (run fs v)"
proof -
  have rel: "relevant (run fs v) (snd e)" using assms(3) by (simp add: frame_simps)
  have len: "length (window v) \<le> maxlen v" using assms(1) by (simp add: wf_def)
  have "window (run (fs @ [e]) v) = last_n (maxlen v) (window v @ replicate (length (fs @ [e])) True)"
    by (rule all_relevant_window [OF len assms(3)])
  with hit_count_replicate [of "maxlen v" "length (fs @ [e])" "window v"] assms(4,5)
  have hits: "required v \<le> hit_count (window (run (fs @ [e]) v))" by (simp add: min_def split: if_splits)
  have "first_ns (fst e) (run fs v) = fst (hd (fs @ [e]))"
  proof (cases "fs = []")
    case False
    with all_relevant_first [of fs v] assms(2,3) show ?thesis by (auto simp: first_ns_def)
  qed (use assms(2) in \<open>simp add: first_ns_def\<close>)
  with hits assms(6) rel show ?thesis
    by (simp add: confirms_def step_def update_relevant [OF rel] frame_simps)
qed

lemma sustained_confirmed:
  assumes "wf v" and "incident_id (state v) = None" and "\<forall>e \<in> set es. relevant v (snd e)" and "es \<noteq> []"
    and "required v \<le> int (length es)" and "required v \<le> int (maxlen v)"
    and "confirm_ns v \<le> fst (last es) - fst (hd es)"
  shows "confirmed (state (run es v))"
proof -
  obtain fs e where es: "es = fs @ [e]" using assms(4) by (cases es rule: rev_cases) auto
  with sustained_last_confirms [of v fs e] assms show ?thesis by (simp add: step_def update_relevant)
qed

text \<open>
  C23. Sustained fire is confirmed: from a state with no open incident, at least \<open>required\<close>
  frames in a row with a relevant detection that span \<open>confirm_ns\<close> end in \<open>CONFIRMED\<close>,
  provided the window can hold \<open>required\<close> frames.
\<close>

theorem sustained_fire_confirms:
  assumes "wf v" and "incident_id (state v) = None"
    and "\<forall>e \<in> set es. relevant v (snd e)" and "es \<noteq> []"
    and "required v \<le> int (length es)" and "required v \<le> int (maxlen v)"
    and "confirm_ns v \<le> fst (last es) - fst (hd es)"
  shows "confirmed (state (run es v)) \<and> hazard_state (state (run es v)) = CONFIRMED"
proof -
  obtain fs e where es: "es = fs @ [e]" using assms(4) by (cases es rule: rev_cases) auto
  with sustained_last_confirms [of v fs e] assms show ?thesis by (simp add: step_def update_relevant)
qed

lemma six_fires_relevant: "\<forall>e \<in> set six_fires. relevant (default_verifier dev boot) (snd e)"
proof -
  have "fl (55/100) \<le> 9/10" by code_simp
  then show ?thesis
    by (simp add: six_fires_def fire_frame_def relevant_def class_max_def max_default_def
                  default_verifier_def fire_verifier_def)
qed

lemma default_confirm_ns: "confirm_ns (default_verifier dev boot) = 1500000000"
proof -
  have "py_int (fmul (fl (15/10)) 1000000000) = 1500000000" by code_simp
  then show ?thesis by (simp add: default_verifier_def fire_verifier_def)
qed

theorem sustained_fire_confirms_witness:
  "hazard_state (state (run six_fires (default_verifier ''pi'' ''b''))) = CONFIRMED"
proof -
  let ?v = "default_verifier ''pi'' ''b''"
  have "confirmed (state (run six_fires ?v)) \<and> hazard_state (state (run six_fires ?v)) = CONFIRMED"
  proof (rule sustained_fire_confirms [OF wf_default _ six_fires_relevant])
    show "incident_id (state ?v) = None" "six_fires \<noteq> []" "required ?v \<le> int (length six_fires)"
      "required ?v \<le> int (maxlen ?v)"
      by (simp_all add: default_verifier_def fire_verifier_def fire_state0_def six_fires_def)
    show "confirm_ns ?v \<le> fst (last six_fires) - fst (hd six_fires)"
      by (simp add: default_confirm_ns six_fires_def fire_frame_def)
  qed
  then show ?thesis by simp
qed

lemma default_reset_ns: "reset_ns (default_verifier dev boot) = 10000000000"
proof -
  have "py_int (fmul 10 1000000000) = 10000000000" by code_simp
  then show ?thesis by (simp add: default_verifier_def fire_verifier_def)
qed

text \<open>
  C24. Confirmation is latched: through a frame with a relevant detection, or one that comes less than
  \<open>reset_ns\<close> after the last such frame, a confirmed incident stays confirmed under the same id and with
  the same first detection; any other frame closes it, and the verifier is then as at its start,
  with an empty window. The constructor's \<open>reset_ns\<close> is ten seconds, so this holds of the code as it
  is; \<^verbatim>\<open>docs/POC_HANDOFF.md\<close> and \<^verbatim>\<open>poc/tests/test_core.py\<close> expect the reset at five.
\<close>

theorem confirmed_latched:
  assumes "wf v" and "confirmed (state v)"
  shows "(if relevant v d \<or> t - last_relevant_ns (state v) < reset_ns v
      then confirmed (state (update t d v)) \<and> incident_id (state (update t d v)) = incident_id (state v)
         \<and> first_detection_ns (state (update t d v)) = first_detection_ns (state v)
         \<and> hazard_state (state (update t d v)) \<in> {CONFIRMED, VISUAL_SIGNATURE_LOST}
      else state (update t d v) = fire_state0 \<and> window (update t d v) = [])
    \<and> reset_ns (default_verifier dev boot) = 10000000000"
proof -
  from assms have i: "incident_id (state v) \<noteq> None" "incident_id (state v) \<noteq> Some []"
    and h: "hazard_state (state v) \<in> {CONFIRMED, VISUAL_SIGNATURE_LOST}"
    by (auto simp: wf_def split: option.splits)
  have "state (update t d v) = fire_state0 \<and> window (update t d v) = []"
    if "\<not> relevant v d" "\<not> t - last_relevant_ns (state v) < reset_ns v"
    using that i assms(2) by (simp add: update_def observe_def missing_def Let_def)
  with assms(2) i h show ?thesis
    by (cases "relevant v d")
      (auto simp: update_relevant update_irrelevant closes_def first_ns_def default_reset_ns)
qed

theorem confirmed_latched_witness:
  "confirmed (state (update 6600000000 [] (run six_fires (default_verifier ''pi'' ''b''))))
   \<and> state (update 11500000000 [] (run six_fires (default_verifier ''pi'' ''b''))) = fire_state0"
proof -
  let ?v = "run six_fires (default_verifier ''pi'' ''b'')"
  have v: "confirmed (state ?v)" "last_relevant_ns (state ?v) = 1500000000" "reset_ns ?v = 10000000000"
    "\<not> relevant ?v []"
    using six_fires_state unfolding Let_def by blast+
  from confirmed_latched [OF wf_six_fires v(1), of "[]" 6600000000]
    confirmed_latched [OF wf_six_fires v(1), of "[]" 11500000000] v show ?thesis by simp
qed

text \<open>
  Closing an incident forgets everything: the verifier then has an empty window and the
  initial incident state, so old frames never count towards a later incident; a confirmed
  incident closes on the first frame without a relevant detection that comes \<open>reset_ns\<close>
  after the last one.
\<close>

theorem reset_forgets:
  assumes "wf v" and "confirmed (state v)" and "\<not> relevant v d"
    and "reset_ns v \<le> t - last_relevant_ns (state v)"
  shows "window (update t d v) = [] \<and> state (update t d v) = fire_state0"
proof -
  from assms(1,2) have "incident_id (state v) \<noteq> None" "incident_id (state v) \<noteq> Some []"
    by (auto simp: wf_def split: option.splits)
  with assms(2-4) show ?thesis by (simp add: update_def observe_def missing_def Let_def)
qed

theorem reset_forgets_witness:
  "window (update 11500000000 [] (run six_fires (default_verifier ''pi'' ''b''))) = []"
  using six_fires_state reset_forgets [OF wf_six_fires, of "[]" 11500000000]
  unfolding Let_def by simp

text \<open>
  With the constructor's defaults, a confirmed incident whose detections stop is still
  confirmed, and reported as a lost signature, from 5 seconds until 10 seconds after the
  last relevant detection (\<^verbatim>\<open>docs/POC_HANDOFF.md\<close> and \<^verbatim>\<open>poc/tests/test_core.py\<close> expect the
  reset at five seconds).
\<close>

theorem default_not_reset_at_five_seconds:
  assumes "confirmed (state (run es (default_verifier dev boot)))"
    and "\<not> relevant (default_verifier dev boot) d"
    and "5000000000 \<le> t - last_relevant_ns (state (run es (default_verifier dev boot)))"
    and "t - last_relevant_ns (state (run es (default_verifier dev boot))) < 10000000000"
  shows "confirmed (state (update t d (run es (default_verifier dev boot))))
    \<and> hazard_state (state (update t d (run es (default_verifier dev boot)))) = VISUAL_SIGNATURE_LOST"
proof -
  let ?v = "run es (default_verifier dev boot)"
  have wf: "wf ?v" by (rule wf_run) (rule wf_default)
  have "clear_ns ?v = 5000000000 \<and> reset_ns ?v = 10000000000"
  proof -
    have "py_int (fmul 5 1000000000) = 5000000000" "py_int (fmul 10 1000000000) = 10000000000"
      by code_simp+
    then show ?thesis by (simp add: frame_simps) (simp add: default_verifier_def fire_verifier_def)
  qed
  moreover from wf assms(1) have "incident_id (state ?v) \<noteq> None" "incident_id (state ?v) \<noteq> Some []"
    by (auto simp: wf_def split: option.splits)
  moreover have "\<not> relevant ?v d" using assms(2) by (simp add: frame_simps)
  ultimately show ?thesis
    using assms by (simp add: update_irrelevant loses_def closes_def)
qed

theorem default_not_reset_at_five_seconds_witness:
  "confirmed (state (update 6600000000 [] (run six_fires (default_verifier ''pi'' ''b''))))"
proof -
  have "\<not> relevant (default_verifier ''pi'' ''b'') []"
    using six_fires_state by (simp add: Let_def frame_simps)
  with default_not_reset_at_five_seconds [of six_fires "''pi''" "''b''" "[]" 6600000000]
    six_fires_state show ?thesis unfolding Let_def by simp
qed

text \<open>
  Incident ids are never reused: when a run has an incident open, later has none, and
  later has one again, the two ids differ.
\<close>

theorem incident_ids_fresh:
  assumes "wf v" and "incident_id (state (run es v)) = Some i"
    and "incident_id (state (run (es @ fs) v)) = None"
    and "incident_id (state (run (es @ fs @ gs) v)) = Some j"
  shows "i \<noteq> j"
proof -
  let ?u = "run es v" and ?w = "run (es @ fs) v" and ?x = "run (es @ fs @ gs) v"
  have wfs: "wf ?u" "wf ?x" by (rule wf_run, fact)+
  have "counter ?u \<le> counter ?w" using counter_run_mono [of "run es v" fs] by simp
  also have "counter ?w < counter ?x" using counter_opens [of ?w gs] assms(3,4) by simp
  finally have "counter ?u < counter ?x" .
  moreover from wfs assms(2,4) have "i = mk_incident_id (device_id ?u) (boot_id ?u) (counter ?u)"
    "j = mk_incident_id (device_id ?x) (boot_id ?x) (counter ?x)"
    by (simp_all add: wf_def)
  ultimately show ?thesis by (simp add: frame_simps mk_incident_id_inj)
qed

definition two_blips :: "frame list \<times> frame list \<times> frame list" where
  "two_blips = ([fire_frame 0], [(6000000000, [])], [fire_frame 7000000000])"

theorem incident_ids_fresh_witness:
  "case two_blips of (a, b, c) \<Rightarrow>
     incident_id (state (run a (default_verifier ''pi'' ''b'')))
       \<noteq> incident_id (state (run (a @ b @ c) (default_verifier ''pi'' ''b'')))"
proof -
  let ?v = "default_verifier ''pi'' ''b''"
  have ids: "incident_id (state (run [fire_frame 0] ?v)) = Some ''pi-b-1''"
    "incident_id (state (run ([fire_frame 0] @ [(6000000000, [])]) ?v)) = None"
    "incident_id (state (run ([fire_frame 0] @ [(6000000000, [])] @ [fire_frame 7000000000]) ?v))
       = Some ''pi-b-2''"
    by code_simp+
  from incident_ids_fresh [OF wf_default ids] ids show ?thesis by (simp add: two_blips_def)
qed

end
