(* ===== verification/Wire.thy ===== *)
theory Wire
  imports Prelude "HOL-Library.Word"
begin

text \<open>
  The standard-library pieces under the wire protocol: big-endian unsigned fields as
  \<open>struct.pack\<close> with \<open>!\<close> writes them (out-of-range values raise \<open>struct.error\<close>), and
  \<open>zlib.crc32\<close>.
\<close>

unbundle bit_operations_syntax

type_synonym byte = "8 word"
type_synonym bytes = "byte list"

section \<open>Big-endian fields\<close>

fun be_bytes :: "nat \<Rightarrow> int \<Rightarrow> bytes" where
  "be_bytes 0 x = []"
| "be_bytes (Suc n) x = be_bytes n (x div 256) @ [word_of_int x]"

definition be_val :: "bytes \<Rightarrow> int" where
  "be_val bs = foldl (\<lambda>acc b. 256 * acc + uint b) 0 bs"

definition fits :: "nat \<Rightarrow> int \<Rightarrow> bool" where
  "fits n x \<longleftrightarrow> 0 \<le> x \<and> x < 256 ^ n"

lemma length_be_bytes [simp]: "length (be_bytes n x) = n"
  by (induction n arbitrary: x) auto

lemma be_val_Nil [simp]: "be_val [] = 0"
  by (simp add: be_val_def)

lemma be_val_snoc [simp]: "be_val (bs @ [b]) = 256 * be_val bs + uint b"
  by (simp add: be_val_def)

lemma byte_uint [simp]: "0 \<le> uint (b::byte)" "uint (b::byte) < 256"
  using uint_lt2p [of b] by simp_all

lemma be_val_bytes [simp]: "fits n x \<Longrightarrow> be_val (be_bytes n x) = x"
proof (induction n arbitrary: x)
  case (Suc n)
  then have "fits n (x div 256)" by (auto simp: fits_def)
  with Suc.IH have "be_val (be_bytes n (x div 256)) = x div 256" by simp
  then show ?case by (simp add: uint_word_of_int)
qed (simp add: fits_def)

lemma fits_be_val: "fits (length bs) (be_val bs)"
proof (induction bs rule: rev_induct)
  case (snoc b bs)
  then have "0 \<le> be_val bs" "be_val bs + 1 \<le> 256 ^ length bs" by (simp_all add: fits_def)
  moreover have "256 * (be_val bs + 1) \<le> 256 * 256 ^ length bs" using calculation(2) by simp
  ultimately have "256 * be_val bs + uint b < 256 * 256 ^ length bs"
    using byte_uint(2) [of b] by linarith
  then show ?case using \<open>0 \<le> be_val bs\<close> by (simp add: fits_def)
qed (simp add: fits_def)

lemma be_bytes_val [simp]: "be_bytes (length bs) (be_val bs) = bs"
proof (induction bs rule: rev_induct)
  case (snoc b bs)
  have "(256 * be_val bs + uint b) div 256 = be_val bs" using byte_uint [of b] by simp
  moreover have "word_of_int (256 * be_val bs + uint b) = b"
  proof -
    have "(word_of_int 256 :: byte) = 0" by simp
    then show ?thesis by (simp only: wi_hom_syms word_of_int_uint) simp
  qed
  ultimately show ?case using snoc by simp
qed simp

section \<open>CRC-32\<close>

text \<open>
  \<open>zlib.crc32\<close>: the reflected polynomial 0xEDB88320, register preset to all ones, final
  complement; the source masks the result with 0xFFFFFFFF, which is the identity on 32 bits.
\<close>

definition crc_bit :: "32 word \<Rightarrow> 32 word" where
  "crc_bit c = (if bit c 0 then drop_bit 1 c XOR 0xEDB88320 else drop_bit 1 c)"

definition crc_byte :: "32 word \<Rightarrow> byte \<Rightarrow> 32 word" where
  "crc_byte c b = (crc_bit ^^ 8) (c XOR ucast b)"

definition crc32 :: "bytes \<Rightarrow> 32 word" where
  "crc32 bs = foldl crc_byte 0xFFFFFFFF bs XOR 0xFFFFFFFF"

definition crc_int :: "bytes \<Rightarrow> int" where
  "crc_int bs = uint (crc32 bs)"

lemma fits_crc [simp]: "fits 4 (crc_int bs)"
  using uint_lt2p [of "crc32 bs"] by (simp add: fits_def crc_int_def)

lemma crc_byte_unfold:
  "crc_byte c b = crc_bit (crc_bit (crc_bit (crc_bit (crc_bit (crc_bit (crc_bit (crc_bit
     (c XOR ucast b))))))))"
proof -
  have "(8::nat) = Suc (Suc (Suc (Suc (Suc (Suc (Suc (Suc 0)))))))" by simp
  then show ?thesis unfolding crc_byte_def by (simp only: funpow.simps o_apply id_apply)
qed

text \<open>The check value of the CRC catalogue, on the ASCII bytes of the digits 1 to 9.\<close>

lemma crc32_check: "crc_int [0x31, 0x32, 0x33, 0x34, 0x35, 0x36, 0x37, 0x38, 0x39] = 0xCBF43926"
  by (simp add: crc_int_def crc32_def crc_byte_unfold crc_bit_def)

lemma bit_crc_bit_31: "bit (crc_bit c) 31 = bit c 0"
proof -
  have "\<not> bit c 32" using bit_imp_le_length [of c 32] by auto
  moreover have "bit (0xEDB88320 :: 32 word) 31" by simp
  ultimately show ?thesis by (simp add: crc_bit_def bit_xor_iff bit_drop_bit_eq)
qed

lemma xor_cancel_left: "c XOR a = c XOR b \<Longrightarrow> a = (b :: 32 word)"
proof -
  assume "c XOR a = c XOR b"
  then have "c XOR (c XOR a) = c XOR (c XOR b)" by simp
  then show "a = b" by (simp flip: xor.assoc)
qed

lemma crc_bit_inj: "crc_bit c = crc_bit d \<Longrightarrow> c = d"
proof -
  assume eq: "crc_bit c = crc_bit d"
  then have b0: "bit c 0 = bit d 0" using bit_crc_bit_31 by metis
  have "x XOR (0xEDB88320 :: 32 word) = y XOR 0xEDB88320 \<Longrightarrow> x = y" for x y
    by (metis xor.commute xor_cancel_left)
  with eq b0 have "drop_bit 1 c = drop_bit 1 d"
    unfolding crc_bit_def by (cases "bit c 0") (simp_all only: if_True if_False)
  then have "bit c (Suc n) = bit d (Suc n)" for n
    by (metis bit_drop_bit_eq comp_apply plus_1_eq_Suc)
  with b0 have "bit c n = bit d n" for n by (cases n) auto
  then show "c = d" by (intro bit_eqI) simp
qed

lemma crc_bit_pow_inj: "(crc_bit ^^ n) c = (crc_bit ^^ n) d \<Longrightarrow> c = d"
  by (induction n) (auto dest: crc_bit_inj)

lemma crc_byte_inj_state: "crc_byte c b = crc_byte d b \<Longrightarrow> c = d"
  unfolding crc_byte_def by (metis crc_bit_pow_inj xor.commute xor_cancel_left)

lemma crc_byte_inj_byte: "crc_byte c a = crc_byte c b \<Longrightarrow> a = b"
proof -
  assume "crc_byte c a = crc_byte c b"
  then have "(ucast a :: 32 word) = ucast b"
    unfolding crc_byte_def by (metis crc_bit_pow_inj xor_cancel_left)
  then have "uint (ucast a :: 32 word) = uint (ucast b :: 32 word)" by simp
  then have "uint a = uint b" by (simp add: uint_up_ucast is_up)
  then show "a = b" by (rule word_uint_eqI)
qed

lemma foldl_crc_inj: "foldl crc_byte c bs = foldl crc_byte d bs \<Longrightarrow> c = d"
  by (induction bs arbitrary: c d) (auto dest: crc_byte_inj_state)

text \<open>Changing one byte always changes the checksum.\<close>

lemma crc32_one_byte: "a \<noteq> b \<Longrightarrow> crc_int (xs @ a # ys) \<noteq> crc_int (xs @ b # ys)"
proof
  assume ab: "a \<noteq> b" and "crc_int (xs @ a # ys) = crc_int (xs @ b # ys)"
  then have "crc32 (xs @ a # ys) = crc32 (xs @ b # ys)" by (simp only: crc_int_def word_uint_eq_iff)
  then have "foldl crc_byte 0xFFFFFFFF (xs @ a # ys) = foldl crc_byte 0xFFFFFFFF (xs @ b # ys)"
    unfolding crc32_def by (metis xor.commute xor_cancel_left)
  then have "crc_byte (foldl crc_byte 0xFFFFFFFF xs) a = crc_byte (foldl crc_byte 0xFFFFFFFF xs) b"
    by (auto dest: foldl_crc_inj)
  with ab show False by (auto dest: crc_byte_inj_byte)
qed

section \<open>Base 64\<close>

text \<open>\<open>base64.b64encode\<close>: three bytes become four characters; a short end is padded.\<close>

definition b64_alphabet :: string where
  "b64_alphabet = ''ABCDEFGHIJKLMNOPQRSTUVWXYZabcdefghijklmnopqrstuvwxyz0123456789+/''"

definition b64_char :: "int \<Rightarrow> char" where
  "b64_char n = b64_alphabet ! nat (n mod 64)"

fun base64 :: "bytes \<Rightarrow> string" where
  "base64 [] = []"
| "base64 [a] = (let n = be_val [a, 0, 0] in
     [b64_char (n div 262144), b64_char (n div 4096), CHR ''='', CHR ''=''])"
| "base64 [a, b] = (let n = be_val [a, b, 0] in
     [b64_char (n div 262144), b64_char (n div 4096), b64_char (n div 64), CHR ''=''])"
| "base64 (a # b # c # rest) = (let n = be_val [a, b, c] in
     b64_char (n div 262144) # b64_char (n div 4096) # b64_char (n div 64) # b64_char n # base64 rest)"

end
