(* ===== verification/Protocol.thy ===== *)
theory Protocol
  imports Wire
begin

text \<open>
  The framed protocol: the backend's encoder and incremental parser
  (\<^verbatim>\<open>src/backend/app/protocol.py\<close>) and the two device-side encoders
  (\<^verbatim>\<open>src/poc/pi/ignis_poc/protocol.py\<close>, \<^verbatim>\<open>src/simulator/ignis_simulator/protocol.py\<close>).
  Payloads are bytes here; JSON payloads are in the theory \<open>Json\<close>. The locale
  \<open>packet_codec\<close> is the contract between an encoder and the parser, interpreted on the three
  encoders.
\<close>

section \<open>Packets\<close>

datatype packet_type =
  HELLO | HELLO_ACK | FRAME | DETECTIONS | INCIDENT_UPDATE | INCIDENT_TIMELINE_EVENT
| HEALTH_UPDATE | EVIDENCE_MANIFEST | LOG_EVENT | CONFIG_ACK | CONFIG_UPDATE
| OCCUPANT_CONFIRM | OCCUPANT_CANCEL | MANUAL_RESET | CALL_STATUS_UPDATE | PING | PONG

fun type_code :: "packet_type \<Rightarrow> int" where
  "type_code HELLO = 1"
| "type_code HELLO_ACK = 2"
| "type_code FRAME = 10"
| "type_code DETECTIONS = 11"
| "type_code INCIDENT_UPDATE = 12"
| "type_code INCIDENT_TIMELINE_EVENT = 13"
| "type_code HEALTH_UPDATE = 14"
| "type_code EVIDENCE_MANIFEST = 15"
| "type_code LOG_EVENT = 16"
| "type_code CONFIG_ACK = 20"
| "type_code CONFIG_UPDATE = 100"
| "type_code OCCUPANT_CONFIRM = 101"
| "type_code OCCUPANT_CANCEL = 102"
| "type_code MANUAL_RESET = 103"
| "type_code CALL_STATUS_UPDATE = 104"
| "type_code PING = 105"
| "type_code PONG = 106"

definition all_packet_types :: "packet_type list" where
  "all_packet_types =
     [HELLO, HELLO_ACK, FRAME, DETECTIONS, INCIDENT_UPDATE, INCIDENT_TIMELINE_EVENT,
      HEALTH_UPDATE, EVIDENCE_MANIFEST, LOG_EVENT, CONFIG_ACK, CONFIG_UPDATE,
      OCCUPANT_CONFIRM, OCCUPANT_CANCEL, MANUAL_RESET, CALL_STATUS_UPDATE, PING, PONG]"

text \<open>\<open>PacketType(raw_type)\<close>: \<open>None\<close> is the \<open>ValueError\<close> of an unknown code.\<close>

definition type_of_code :: "int \<Rightarrow> packet_type option" where
  "type_of_code c = find (\<lambda>t. type_code t = c) all_packet_types"

record packet =
  packet_type :: packet_type
  flags :: int
  sequence :: int
  monotonic_ns :: int
  payload :: bytes

datatype protocol_error =
  BufferExceeded | InvalidMagic | UnsupportedVersion | UnknownPacketType | PayloadTooLarge
| CrcMismatch | InvalidJson | NotAnObject
| TruncatedMetadataLength | InvalidMetadataLength | InvalidMetadataJson | MetadataNotObject
| InvalidJpeg | StructError

definition MAGIC :: bytes where "MAGIC = [0x49, 0x47, 0x4E, 0x53]"
definition VERSION :: int where "VERSION = 1"
definition HEADER_SIZE :: nat where "HEADER_SIZE = 32"

text \<open>\<open>struct.Struct("!4sBBHIQQI")\<close>; a value outside its field raises \<open>struct.error\<close>.\<close>

definition pack_header ::
  "int \<Rightarrow> int \<Rightarrow> int \<Rightarrow> int \<Rightarrow> int \<Rightarrow> int \<Rightarrow> int \<Rightarrow> (protocol_error, bytes) result" where
  "pack_header ver ty fl len sq ns crc =
     (if fits 1 ver \<and> fits 1 ty \<and> fits 2 fl \<and> fits 4 len \<and> fits 8 sq \<and> fits 8 ns \<and> fits 4 crc
      then Ok (MAGIC @ be_bytes 1 ver @ be_bytes 1 ty @ be_bytes 2 fl @ be_bytes 4 len
               @ be_bytes 8 sq @ be_bytes 8 ns @ be_bytes 4 crc)
      else Err StructError)"

definition encode_packet ::
  "packet_type \<Rightarrow> bytes \<Rightarrow> int \<Rightarrow> int \<Rightarrow> int \<Rightarrow> (protocol_error, bytes) result" where
  "encode_packet ty pl sq ns fl =
     (case pack_header VERSION (type_code ty) fl (int (length pl)) sq ns (crc_int pl) of
        Inl e \<Rightarrow> Err e | Inr h \<Rightarrow> Ok (h @ pl))"

section \<open>The incremental parser\<close>

type_synonym header = "packet_type \<times> int \<times> int \<times> int \<times> int \<times> int"

record parser =
  max_payload_bytes :: int
  buffer :: bytes
  expected :: "header option"

definition new_parser :: "int \<Rightarrow> parser" where
  "new_parser m = \<lparr>max_payload_bytes = m, buffer = [], expected = None\<rparr>"

definition push :: "bytes \<Rightarrow> parser \<Rightarrow> parser" where
  "push c p = p\<lparr>buffer := buffer p @ c\<rparr>"

definition buffered_bytes :: "parser \<Rightarrow> int" where
  "buffered_bytes p = int (length (buffer p))"

definition field :: "nat \<Rightarrow> nat \<Rightarrow> bytes \<Rightarrow> int" where
  "field off n raw = be_val (take n (drop off raw))"

text \<open>One half of the loop body: wait for more bytes, raise, or go on with a value.\<close>

datatype 'a stage = Wait | Fail protocol_error parser | Go 'a

definition header_stage :: "parser \<Rightarrow> parser stage" where
  "header_stage p =
     (case expected p of
        Some _ \<Rightarrow> Go p
      | None \<Rightarrow>
          if length (buffer p) < HEADER_SIZE then Wait
          else
            let raw = take HEADER_SIZE (buffer p);
                p = p\<lparr>buffer := drop HEADER_SIZE (buffer p)\<rparr>;
                fl = field 6 2 raw; len = field 8 4 raw; sq = field 12 8 raw;
                ns = field 20 8 raw; crc = field 28 4 raw
            in if take 4 raw \<noteq> MAGIC then Fail InvalidMagic p
               else if field 4 1 raw \<noteq> VERSION then Fail UnsupportedVersion p
               else (case type_of_code (field 5 1 raw) of
                       None \<Rightarrow> Fail UnknownPacketType p
                     | Some ty \<Rightarrow>
                         if len > max_payload_bytes p then Fail PayloadTooLarge p
                         else Go (p\<lparr>expected := Some (ty, fl, len, sq, ns, crc)\<rparr>)))"

definition payload_stage :: "parser \<Rightarrow> (packet \<times> parser) stage" where
  "payload_stage p =
     (case expected p of
        None \<Rightarrow> Wait
      | Some (ty, fl, len, sq, ns, crc) \<Rightarrow>
          if int (length (buffer p)) < len then Wait
          else
            let pl = take (nat len) (buffer p);
                p = p\<lparr>buffer := drop (nat len) (buffer p), expected := None\<rparr>
            in if crc_int pl \<noteq> crc then Fail CrcMismatch p
               else Go (\<lparr>packet_type = ty, flags = fl, sequence = sq, monotonic_ns = ns,
                         payload = pl\<rparr>, p))"

lemma header_stage_Go_measure:
  "header_stage p = Go p1 \<Longrightarrow>
   2 * length (buffer p1) + (if expected p1 = None then 0 else 1)
     \<le> 2 * length (buffer p) + (if expected p = None then 0 else 1) \<and> expected p1 \<noteq> None"
  by (auto simp: header_stage_def Let_def HEADER_SIZE_def split: option.splits if_splits)

lemma payload_stage_Go_measure:
  "payload_stage p = Go (k, p2) \<Longrightarrow> expected p \<noteq> None \<Longrightarrow>
   2 * length (buffer p2) + (if expected p2 = None then 0 else 1)
     < 2 * length (buffer p) + (if expected p = None then 0 else 1)"
  by (auto simp: payload_stage_def Let_def split: option.splits if_splits)

text \<open>The \<open>while True\<close> of \<^verbatim>\<open>feed\<close>; an exception drops the packets of this call.\<close>

function drain :: "parser \<Rightarrow> packet list \<Rightarrow> (protocol_error, packet list) result \<times> parser" where
  "drain p acc =
     (case header_stage p of
        Wait \<Rightarrow> (Ok acc, p)
      | Fail e p1 \<Rightarrow> (Err e, p1)
      | Go p1 \<Rightarrow>
          (case payload_stage p1 of
             Wait \<Rightarrow> (Ok acc, p1)
           | Fail e p2 \<Rightarrow> (Err e, p2)
           | Go (k, p2) \<Rightarrow> drain p2 (acc @ [k])))"
  by pat_completeness auto
termination
  by (relation "measure (\<lambda>(p, acc). 2 * length (buffer p) + (if expected p = None then 0 else 1))")
    (auto dest!: header_stage_Go_measure payload_stage_Go_measure
          simp del: payload_stage_def split: if_splits)

declare drain.simps [simp del]

definition feed ::
  "bytes \<Rightarrow> parser \<Rightarrow> (protocol_error, packet list) result \<times> parser" where
  "feed chunk p =
     (if int (length (buffer p)) + int (length chunk) > max_payload_bytes p + int HEADER_SIZE
      then (Err BufferExceeded, p)
      else drain (push chunk p) [])"

text \<open>Feeding chunks one after the other until one raises.\<close>

fun feed_all ::
  "bytes list \<Rightarrow> parser \<Rightarrow> (protocol_error, packet list) result \<times> parser" where
  "feed_all [] p = (Ok [], p)"
| "feed_all (c # cs) p =
     (case feed c p of
        (Inl e, p1) \<Rightarrow> (Err e, p1)
      | (Inr ks, p1) \<Rightarrow>
          (case feed_all cs p1 of
             (Inl e, p2) \<Rightarrow> (Err e, p2)
           | (Inr ks', p2) \<Rightarrow> (Ok (ks @ ks'), p2)))"

section \<open>The device-side encoders\<close>

datatype edge_packet_type =
  E_HELLO | E_HELLO_ACK | E_FRAME | E_DETECTIONS | E_INCIDENT_UPDATE
| E_INCIDENT_TIMELINE_EVENT | E_HEALTH_UPDATE

fun edge_code :: "edge_packet_type \<Rightarrow> int" where
  "edge_code E_HELLO = 1"
| "edge_code E_HELLO_ACK = 2"
| "edge_code E_FRAME = 10"
| "edge_code E_DETECTIONS = 11"
| "edge_code E_INCIDENT_UPDATE = 12"
| "edge_code E_INCIDENT_TIMELINE_EVENT = 13"
| "edge_code E_HEALTH_UPDATE = 14"

definition edge_encode_packet ::
  "edge_packet_type \<Rightarrow> bytes \<Rightarrow> int \<Rightarrow> int \<Rightarrow> (protocol_error, bytes) result" where
  "edge_encode_packet ty pl sq ns =
     (case pack_header 1 (edge_code ty) 0 (int (length pl)) sq ns (crc_int pl) of
        Inl e \<Rightarrow> Err e | Inr h \<Rightarrow> Ok (h @ pl))"

text \<open>The simulator's \<open>PacketType\<close> has the backend's members and numbers.\<close>

definition sim_packet ::
  "packet_type \<Rightarrow> bytes \<Rightarrow> int \<Rightarrow> int \<Rightarrow> (protocol_error, bytes) result" where
  "sim_packet ty pl sq ns =
     (case pack_header VERSION (type_code ty) 0 (int (length pl)) sq ns (crc_int pl) of
        Inl e \<Rightarrow> Err e | Inr h \<Rightarrow> Ok (h @ pl))"

section \<open>Headers\<close>

lemma type_of_code_inverse [simp]: "type_of_code (type_code t) = Some t"
  by (cases t) (simp_all add: type_of_code_def all_packet_types_def)

lemma type_of_code_Some: "type_of_code c = Some t \<Longrightarrow> type_code t = c"
  by (auto simp: type_of_code_def find_Some_iff)

lemma fits_type_code [simp]: "fits (Suc 0) (type_code t)"
  by (cases t) (simp_all add: fits_def)

lemma fits_edge_code [simp]: "fits (Suc 0) (edge_code t)"
  by (cases t) (simp_all add: fits_def)

lemma fits_small [simp]: "fits (Suc 0) VERSION" "fits (Suc 0) 1" "fits n 0"
  by (simp_all add: fits_def VERSION_def)

lemma length_MAGIC [simp]: "length MAGIC = 4"
  by (simp add: MAGIC_def)

lemma be_val_single [simp]: "fits (Suc 0) x \<Longrightarrow> be_val [word_of_int x] = x"
  using be_val_bytes [of "Suc 0" x] by simp

text \<open>The layout of the 32 bytes: where each field of the header sits.\<close>

lemma pack_header_layout:
  assumes "pack_header ver ty fl len sq ns crc = Ok h"
  shows "length h = HEADER_SIZE" "take 4 h = MAGIC"
    "field 4 1 h = ver" "field 5 1 h = ty" "field 6 2 h = fl" "field 8 4 h = len"
    "field 12 8 h = sq" "field 20 8 h = ns" "field 28 4 h = crc"
  using assms
  by (auto simp: pack_header_def HEADER_SIZE_def field_def split: if_splits)

definition frame_of :: "packet_type \<Rightarrow> int \<Rightarrow> bytes \<Rightarrow> int \<Rightarrow> int \<Rightarrow> packet" where
  "frame_of ty fl pl sq ns =
     \<lparr>packet_type = ty, flags = fl, sequence = sq, monotonic_ns = ns, payload = pl\<rparr>"

text \<open>Reading a packed header of a payload that fits.\<close>

lemma header_stage_packed:
  assumes "pack_header VERSION (type_code ty) fl len sq ns crc = Ok h"
    and "expected p = None" and "buffer p = h @ rest" and "len \<le> max_payload_bytes p"
  shows "header_stage p = Go (p\<lparr>buffer := rest, expected := Some (ty, fl, len, sq, ns, crc)\<rparr>)"
  using assms(2-) pack_header_layout [OF assms(1)]
  by (simp add: header_stage_def Let_def)

lemma payload_stage_packed:
  assumes "expected p = Some (ty, fl, int (length pl), sq, ns, crc_int pl)"
    and "buffer p = pl @ rest"
  shows "payload_stage p = Go (frame_of ty fl pl sq ns, p\<lparr>buffer := rest, expected := None\<rparr>)"
  using assms by (simp add: payload_stage_def frame_of_def Let_def)

lemma drain_packed:
  assumes "pack_header VERSION (type_code ty) fl (int (length pl)) sq ns (crc_int pl) = Ok h"
    and "expected p = None" and "buffer p = h @ pl @ rest"
    and "int (length pl) \<le> max_payload_bytes p"
  shows "drain p acc = drain (p\<lparr>buffer := rest\<rparr>) (acc @ [frame_of ty fl pl sq ns])"
proof -
  let ?p1 = "p\<lparr>buffer := pl @ rest, expected := Some (ty, fl, int (length pl), sq, ns, crc_int pl)\<rparr>"
  have "header_stage p = Go ?p1" by (rule header_stage_packed) (use assms in simp_all)
  moreover have "payload_stage ?p1 = Go (frame_of ty fl pl sq ns, ?p1\<lparr>buffer := rest, expected := None\<rparr>)"
    by (rule payload_stage_packed) simp_all
  moreover have "?p1\<lparr>buffer := rest, expected := None\<rparr> = p\<lparr>buffer := rest\<rparr>"
    using assms(2) by (cases p) simp
  ultimately show ?thesis by (subst drain.simps) simp
qed

text \<open>A strict prefix of a packet leaves less than the larger of header and payload.\<close>

lemma drain_packed_prefix:
  assumes "pack_header VERSION (type_code ty) fl (int (length pl)) sq ns (crc_int pl) = Ok h"
    and "expected p = None" and "strict_prefix (buffer p) (h @ pl)"
    and "int (length pl) \<le> max_payload_bytes p"
  shows "\<exists>p1. drain p acc = (Ok acc, p1) \<and> length (buffer p1) < max HEADER_SIZE (length pl)"
proof (cases "length (buffer p) < HEADER_SIZE")
  case True
  then have "header_stage p = Wait" using assms(2) by (simp add: header_stage_def)
  with True show ?thesis by (subst drain.simps) simp
next
  case False
  have h: "length h = HEADER_SIZE" by (rule pack_header_layout(1)) (rule assms(1))
  from assms(3) obtain zs where zs: "h @ pl = buffer p @ zs" "zs \<noteq> []"
    by (auto simp: strict_prefix_def prefix_def)
  define q where "q = drop HEADER_SIZE (buffer p)"
  from arg_cong [OF zs(1), of "take HEADER_SIZE"] arg_cong [OF zs(1), of "drop HEADER_SIZE"] False h
  have "h = take HEADER_SIZE (buffer p)" and q: "pl = q @ zs" by (simp_all add: q_def)
  then have q: "buffer p = h @ q" "pl = q @ zs" by (simp_all add: q_def)
  let ?p1 = "p\<lparr>buffer := q, expected := Some (ty, fl, int (length pl), sq, ns, crc_int pl)\<rparr>"
  have "header_stage p = Go ?p1" by (rule header_stage_packed) (use assms q in simp_all)
  moreover have "payload_stage ?p1 = Wait" using q zs by (simp add: payload_stage_def)
  ultimately show ?thesis using q zs by (subst drain.simps) (simp add: less_max_iff_disj)
qed

section \<open>Fragmentation\<close>

lemma push_simps [simp]:
  "buffer (push c p) = buffer p @ c" "expected (push c p) = expected p"
  "max_payload_bytes (push c p) = max_payload_bytes p"
  "push d (push c p) = push (c @ d) p" "push [] p = p"
  by (simp_all add: push_def)

lemma header_stage_push:
  "header_stage p = Go p1 \<Longrightarrow> header_stage (push c p) = Go (push c p1)"
  "header_stage p = Fail e p1 \<Longrightarrow> header_stage (push c p) = Fail e (push c p1)"
  by (auto simp: header_stage_def push_def Let_def split: option.splits if_splits)

lemma payload_stage_push:
  "payload_stage p = Go (k, p1) \<Longrightarrow> payload_stage (push c p) = Go (k, push c p1)"
  "payload_stage p = Fail e p1 \<Longrightarrow> payload_stage (push c p) = Fail e (push c p1)"
  by (auto simp: payload_stage_def push_def Let_def split: option.splits if_splits)

lemma header_stage_expected: "expected p \<noteq> None \<Longrightarrow> header_stage p = Go p"
  by (auto simp: header_stage_def)

lemma drain_push_Ok:
  "drain p acc = (Ok ks, p1) \<Longrightarrow> drain (push c p) acc = drain (push c p1) ks"
proof (induction p acc rule: drain.induct)
  case (1 p acc)
  show ?case
  proof (cases "header_stage p")
    case Wait
    with "1.prems" show ?thesis by (simp add: drain.simps [of p])
  next
    case (Fail e q)
    with "1.prems" show ?thesis by (simp add: drain.simps [of p])
  next
    case (Go q)
    then have q: "header_stage q = Go q"
      using header_stage_Go_measure by (intro header_stage_expected) blast
    show ?thesis
    proof (cases "payload_stage q")
      case Wait
      with Go "1.prems" have "p1 = q" "ks = acc" by (simp_all add: drain.simps [of p])
      with q Go show ?thesis
        by (simp add: drain.simps [of "push c p"] drain.simps [of "push c q"] header_stage_push)
    next
      case (Fail e r)
      with Go "1.prems" show ?thesis by (simp add: drain.simps [of p])
    next
      fix x assume x: "payload_stage q = stage.Go x"
      obtain k r where kr: "x = (k, r)" by (cases x)
      with x Go "1.prems" have "drain r (acc @ [k]) = (Ok ks, p1)" by (simp add: drain.simps [of p])
      from "1.IH" [OF Go x kr [symmetric] this] Go x kr show ?thesis
        by (simp add: drain.simps [of "push c p"] header_stage_push payload_stage_push)
    qed
  qed
qed

lemma drain_push_Err:
  "drain p acc = (Err e, p1) \<Longrightarrow> fst (drain (push c p) acc) = Err e"
proof (induction p acc rule: drain.induct)
  case (1 p acc)
  show ?case
  proof (cases "header_stage p")
    case Wait
    with "1.prems" show ?thesis by (simp add: drain.simps [of p])
  next
    case (Fail e q)
    with "1.prems" show ?thesis
      by (simp add: drain.simps [of p] drain.simps [of "push c p"] header_stage_push)
  next
    case (Go q)
    show ?thesis
    proof (cases "payload_stage q")
      case Wait
      with Go "1.prems" show ?thesis by (simp add: drain.simps [of p])
    next
      case (Fail e r)
      with Go "1.prems" show ?thesis
        by (simp add: drain.simps [of p] drain.simps [of "push c p"] header_stage_push payload_stage_push)
    next
      fix x assume x: "payload_stage q = stage.Go x"
      obtain k r where kr: "x = (k, r)" by (cases x)
      with x Go "1.prems" have "drain r (acc @ [k]) = (Err e, p1)" by (simp add: drain.simps [of p])
      from "1.IH" [OF Go x kr [symmetric] this] Go x kr show ?thesis
        by (simp add: drain.simps [of "push c p"] header_stage_push payload_stage_push)
    qed
  qed
qed

text \<open>
  Feeding a stream in pieces against draining it at once: unless the buffer limit is hit,
  the same packets and the same remaining parser, or the same error.
\<close>

lemma feed_drain: "feed c p = (r, p1) \<Longrightarrow> r \<noteq> Err BufferExceeded \<Longrightarrow> drain (push c p) [] = (r, p1)"
  by (auto simp: feed_def split: if_splits)

lemma drain_acc:
  "drain p (a @ b) = (case drain p b of (Inl e, q) \<Rightarrow> (Err e, q) | (Inr ks, q) \<Rightarrow> (Ok (a @ ks), q))"
proof (induction p b rule: drain.induct)
  case (1 p b)
  then show ?case
    by (simp add: drain.simps [of p "a @ b"] drain.simps [of p b] split: stage.splits prod.splits)
qed

lemma feed_all_Ok:
  "feed_all cs p = (Ok ks, p1) \<Longrightarrow> cs \<noteq> [] \<Longrightarrow> drain (push (concat cs) p) [] = (Ok ks, p1)"
proof (induction cs arbitrary: p ks)
  case (Cons c cs)
  from Cons.prems(1) obtain ks1 q where f: "feed c p = (Ok ks1, q)" by (auto split: prod.splits sum.splits)
  from feed_drain [OF this] have d: "drain (push c p) [] = (Ok ks1, q)" by simp
  show ?case
  proof (cases "cs = []")
    case True
    with Cons.prems(1) f d show ?thesis by simp
  next
    case False
    from Cons.prems(1) f obtain ks2 where ks: "feed_all cs q = (Ok ks2, p1)" "ks = ks1 @ ks2"
      by (auto split: prod.splits sum.splits)
    from Cons.IH [OF ks(1) False] drain_push_Ok [OF d, of "concat cs"] ks(2)
      drain_acc [of _ ks1 "[]"] show ?thesis by simp
  qed
qed simp

lemma feed_all_Err:
  "feed_all cs p = (Err e, p1) \<Longrightarrow> e \<noteq> BufferExceeded \<Longrightarrow>
   fst (drain (push (concat cs) p) []) = Err e"
proof (induction cs arbitrary: p)
  case (Cons c cs)
  show ?case
  proof (cases "feed c p")
    case (Pair r q)
    show ?thesis
    proof (cases r)
      case (Inl e')
      with Cons.prems Pair have "feed c p = (Err e, q)" by simp
      from drain_push_Err [OF feed_drain [OF this], of "concat cs"] Cons.prems(2) show ?thesis by simp
    next
      case (Inr ks1)
      with Cons.prems(1) Pair have "feed_all cs q = (Err e, p1)" by (auto split: prod.splits sum.splits)
      from Cons.IH [OF this Cons.prems(2)] obtain q' where
        "drain (push (concat cs) q) [] = (Err e, q')" by (metis prod.collapse)
      moreover from feed_drain Pair Inr have "drain (push c p) [] = (Ok ks1, q)" by simp
      ultimately show ?thesis
        using drain_push_Ok [of "push c p" "[]" ks1 q "concat cs"] drain_acc [of _ ks1 "[]"] by simp
    qed
  qed
qed simp

section \<open>The contract between an encoder and the parser\<close>

type_synonym 't message = "'t \<times> bytes \<times> int \<times> int"

text \<open>\<open>encodes enc ms bss\<close>: the encoder turns the messages into the byte strings, none raises.\<close>

definition encodes ::
  "('t \<Rightarrow> bytes \<Rightarrow> int \<Rightarrow> int \<Rightarrow> (protocol_error, bytes) result) \<Rightarrow> 't message list \<Rightarrow> bytes list \<Rightarrow> bool"
  where "encodes enc ms bss \<longleftrightarrow> map (\<lambda>(t, pl, sq, ns). enc t pl sq ns) ms = map Ok bss"

definition delivered :: "('t \<Rightarrow> packet_type) \<Rightarrow> 't message list \<Rightarrow> packet list" where
  "delivered ptype ms = map (\<lambda>(t, pl, sq, ns). frame_of (ptype t) 0 pl sq ns) ms"

definition payloads_within :: "nat \<Rightarrow> int \<Rightarrow> 't message list \<Rightarrow> bool" where
  "payloads_within L m ms \<longleftrightarrow> (\<forall>(t, pl, sq, ns) \<in> set ms. int (length pl) \<le> m \<and> length pl \<le> L)"

definition chunks_within :: "nat \<Rightarrow> int \<Rightarrow> bytes list \<Rightarrow> bool" where
  "chunks_within L m cs \<longleftrightarrow>
     (\<forall>c \<in> set cs. int (length c) + int (max HEADER_SIZE L) \<le> m + int HEADER_SIZE + 1)"

lemma encodes_simps [simp]:
  "encodes enc [] bss \<longleftrightarrow> bss = []"
  "encodes enc ((t, pl, sq, ns) # ms) bss \<longleftrightarrow>
     (\<exists>b bs. bss = b # bs \<and> enc t pl sq ns = Ok b \<and> encodes enc ms bs)"
  by (auto simp: encodes_def Cons_eq_map_conv)

lemma delivered_simps [simp]:
  "delivered ptype [] = []"
  "delivered ptype ((t, pl, sq, ns) # ms) = frame_of (ptype t) 0 pl sq ns # delivered ptype ms"
  by (simp_all add: delivered_def)

lemma payloads_within_simps [simp]:
  "payloads_within L m []"
  "payloads_within L m ((t, pl, sq, ns) # ms) \<longleftrightarrow>
     int (length pl) \<le> m \<and> length pl \<le> L \<and> payloads_within L m ms"
  by (auto simp: payloads_within_def)

lemma header_stage_max:
  "header_stage p = Go p1 \<Longrightarrow> max_payload_bytes p1 = max_payload_bytes p"
  "header_stage p = Fail e p1 \<Longrightarrow> max_payload_bytes p1 = max_payload_bytes p"
  by (auto simp: header_stage_def Let_def split: option.splits if_splits)

lemma payload_stage_max:
  "payload_stage p = Go (k, p1) \<Longrightarrow> max_payload_bytes p1 = max_payload_bytes p"
  "payload_stage p = Fail e p1 \<Longrightarrow> max_payload_bytes p1 = max_payload_bytes p"
  by (auto simp: payload_stage_def Let_def split: option.splits if_splits)

lemma drain_max: "drain p acc = (r, q) \<Longrightarrow> max_payload_bytes q = max_payload_bytes p"
proof (induction p acc rule: drain.induct)
  case (1 p acc)
  show ?case
  proof (cases "header_stage p")
    case Wait
    with "1.prems" show ?thesis by (simp add: drain.simps [of p])
  next
    case (Fail e p1)
    with "1.prems" show ?thesis by (simp add: drain.simps [of p] header_stage_max)
  next
    case (Go p1)
    note p1 = header_stage_max(1) [OF Go]
    show ?thesis
    proof (cases "payload_stage p1")
      case Wait
      with Go p1 "1.prems" show ?thesis by (simp add: drain.simps [of p])
    next
      case (Fail e p2)
      with Go p1 "1.prems" show ?thesis by (simp add: drain.simps [of p] payload_stage_max)
    next
      fix x assume x: "payload_stage p1 = stage.Go x"
      obtain k p2 where kr: "x = (k, p2)" by (cases x)
      with x Go "1.prems" have "drain p2 (acc @ [k]) = (r, q)" by (simp add: drain.simps [of p])
      from "1.IH" [OF Go x kr [symmetric] this] payload_stage_max(1) p1 x kr show ?thesis by simp
    qed
  qed
qed

text \<open>
  An encoder is given by the bytes it produces for a packet type, a payload, a sequence
  number and a time; the laws say that the parser takes one packet off the front of its
  buffer, and that a strict prefix of a packet is held back with less than a packet in the
  buffer.
\<close>

locale packet_codec =
  fixes enc :: "'t \<Rightarrow> bytes \<Rightarrow> int \<Rightarrow> int \<Rightarrow> (protocol_error, bytes) result"
    and ptype :: "'t \<Rightarrow> packet_type"
  assumes takes_one: "enc t pl sq ns = Ok bs \<Longrightarrow> expected p = None \<Longrightarrow> buffer p = bs @ rest \<Longrightarrow>
      int (length pl) \<le> max_payload_bytes p \<Longrightarrow>
      drain p acc = drain (p\<lparr>buffer := rest\<rparr>) (acc @ [frame_of (ptype t) 0 pl sq ns])"
    and holds_back: "enc t pl sq ns = Ok bs \<Longrightarrow> expected p = None \<Longrightarrow> strict_prefix (buffer p) bs \<Longrightarrow>
      int (length pl) \<le> max_payload_bytes p \<Longrightarrow>
      \<exists>p1. drain p acc = (Ok acc, p1) \<and> length (buffer p1) < max HEADER_SIZE (length pl)"
begin

lemma drain_stream:
  "encodes enc ms bss \<Longrightarrow> payloads_within L (max_payload_bytes p) ms \<Longrightarrow>
   expected p = None \<Longrightarrow> buffer p = concat bss \<Longrightarrow>
   drain p acc = (Ok (acc @ delivered ptype ms), p\<lparr>buffer := []\<rparr>)"
proof (induction ms arbitrary: bss p acc)
  case Nil
  then have "header_stage p = Wait" by (simp add: header_stage_def HEADER_SIZE_def)
  with Nil show ?case by (cases p) (simp add: drain.simps)
next
  case (Cons m ms)
  obtain t pl sq ns where m: "m = (t, pl, sq, ns)" by (cases m)
  from Cons.prems(1) obtain b bs where b: "bss = b # bs" "enc t pl sq ns = Ok b" "encodes enc ms bs"
    by (auto simp: m)
  have "drain p acc = drain (p\<lparr>buffer := concat bs\<rparr>) (acc @ [frame_of (ptype t) 0 pl sq ns])"
    by (rule takes_one [OF b(2)]) (use Cons.prems b m in auto)
  also have "\<dots> = (Ok ((acc @ [frame_of (ptype t) 0 pl sq ns]) @ delivered ptype ms),
                   (p\<lparr>buffer := concat bs\<rparr>)\<lparr>buffer := []\<rparr>)"
    by (rule Cons.IH [OF b(3)]) (use Cons.prems m in auto)
  finally show ?case by (simp add: m)
qed

lemma drain_prefix:
  "encodes enc ms bss \<Longrightarrow> payloads_within L (max_payload_bytes p) ms \<Longrightarrow>
   expected p = None \<Longrightarrow> prefix (buffer p) (concat bss) \<Longrightarrow>
   \<exists>ks p1. drain p acc = (Ok ks, p1) \<and> length (buffer p1) < max HEADER_SIZE L"
proof (induction ms arbitrary: bss p acc)
  case Nil
  then have "header_stage p = Wait" by (simp add: header_stage_def HEADER_SIZE_def)
  with Nil show ?case by (simp add: drain.simps HEADER_SIZE_def)
next
  case (Cons m ms)
  obtain t pl sq ns where m: "m = (t, pl, sq, ns)" by (cases m)
  from Cons.prems(1) obtain b bs where b: "bss = b # bs" "enc t pl sq ns = Ok b" "encodes enc ms bs"
    by (auto simp: m)
  from Cons.prems(4) b(1) have "prefix (buffer p) (b @ concat bs)" by simp
  then have "(\<exists>rest. buffer p = b @ rest \<and> prefix rest (concat bs)) \<or> strict_prefix (buffer p) b"
    by (cases "buffer p = b") (auto simp: prefix_append strict_prefix_def)
  then consider (whole) rest where "buffer p = b @ rest" "prefix rest (concat bs)"
    | (part) "strict_prefix (buffer p) b"
    by blast
  then show ?case
  proof cases
    case whole
    have "drain p acc = drain (p\<lparr>buffer := rest\<rparr>) (acc @ [frame_of (ptype t) 0 pl sq ns])"
      by (rule takes_one [OF b(2)]) (use Cons.prems m whole in auto)
    then show ?thesis
      using Cons.IH [OF b(3), of "p\<lparr>buffer := rest\<rparr>"] Cons.prems whole m by auto
  next
    case part
    from holds_back [OF b(2) Cons.prems(3) part, of acc] Cons.prems(2) m
    obtain p1 where "drain p acc = (Ok acc, p1)" "length (buffer p1) < max HEADER_SIZE (length pl)"
      "length pl \<le> L" by auto
    then show ?thesis by (intro exI [of _ acc] exI [of _ p1]) auto
  qed
qed

text \<open>Chunks that cannot overrun the buffer are never refused.\<close>

lemma feed_all_accepts:
  assumes enc: "encodes enc ms bss" and sizes: "payloads_within L m ms"
    and start: "drain (push bs (new_parser m)) [] = (Ok ks0, p)"
    and pre: "prefix (bs @ concat ds) (concat bss)" and chunks: "chunks_within L m ds"
  shows "\<exists>ks q. feed_all ds p = (Ok ks, q)"
  using start pre chunks
proof (induction ds arbitrary: bs p ks0)
  case (Cons d ds)
  have within: "payloads_within L (max_payload_bytes (push cs (new_parser m))) ms" for cs
    using sizes by (simp add: new_parser_def)
  have mp: "max_payload_bytes p = m"
    using drain_max [OF Cons.prems(1)] by (simp add: new_parser_def)
  have pre': "prefix (bs @ d) (concat bss)"
    using Cons.prems(2) by (metis append.assoc append_prefixD concat.simps(2))
  have small: "length (buffer p) < max HEADER_SIZE L"
    using drain_prefix [OF enc within, of bs "[]"] Cons.prems(1) append_prefixD [OF pre']
    by (auto simp: new_parser_def)
  have "int (length d) + int (max HEADER_SIZE L) \<le> m + int HEADER_SIZE + 1"
    using Cons.prems(3) by (simp add: chunks_within_def)
  with small have f: "feed d p = drain (push d p) []" by (simp add: feed_def mp)
  obtain ks1 q where q: "drain (push (bs @ d) (new_parser m)) [] = (Ok ks1, q)"
    using drain_prefix [OF enc within, of "bs @ d" "[]"] pre' by (auto simp: new_parser_def)
  then have "drain (push d p) ks0 = (Ok ks1, q)"
    using drain_push_Ok [OF Cons.prems(1), of d] by simp
  with f drain_acc [of "push d p" ks0 "[]"] obtain ks2 where f: "feed d p = (Ok ks2, q)"
    by (auto split: prod.splits sum.splits)
  have "chunks_within L m ds" using Cons.prems(3) by (simp add: chunks_within_def)
  with Cons.IH [OF q] Cons.prems(2) obtain ks3 r where "feed_all ds q = (Ok ks3, r)" by auto
  with f show ?case by simp
qed simp

text \<open>Any such chunking of a stream is delivered exactly.\<close>

lemma feed_stream:
  assumes "encodes enc ms bss" and "payloads_within L m ms" and "chunks_within L m cs"
    and all: "concat cs = concat bss" and ne: "cs \<noteq> []"
  shows "feed_all cs (new_parser m) = (Ok (delivered ptype ms), new_parser m)"
proof -
  have "drain (push [] (new_parser m)) [] = (Ok [], new_parser m)"
    by (simp add: drain.simps header_stage_def new_parser_def HEADER_SIZE_def)
  from feed_all_accepts [OF assms(1,2) this _ assms(3)] all obtain ks q
    where f: "feed_all cs (new_parser m) = (Ok ks, q)" by auto
  from feed_all_Ok [OF f ne] all
  have "drain (push (concat bss) (new_parser m)) [] = (Ok ks, q)" by simp
  with drain_stream [OF assms(1), of L "push (concat bss) (new_parser m)" "[]"] assms(2) f
  show ?thesis by (simp add: new_parser_def push_def)
qed

text \<open>Packet by packet, every packet the parser may accept is accepted.\<close>

lemma feed_each:
  "encodes enc ms bss \<Longrightarrow> payloads_within L m ms \<Longrightarrow> (\<And>t pl sq ns bs. enc t pl sq ns = Ok bs \<Longrightarrow>
     length bs = HEADER_SIZE + length pl) \<Longrightarrow>
   feed_all bss (new_parser m) = (Ok (delivered ptype ms), new_parser m)"
proof (induction ms arbitrary: bss)
  case (Cons x ms)
  obtain t pl sq ns where x: "x = (t, pl, sq, ns)" by (cases x)
  from Cons.prems(1) obtain b bs where b: "bss = b # bs" "enc t pl sq ns = Ok b" "encodes enc ms bs"
    by (auto simp: x)
  have len: "length b = HEADER_SIZE + length pl" by (rule Cons.prems(3)) (rule b)
  have sz: "payloads_within L m [x]" using Cons.prems(2) x by simp
  have enc1: "encodes enc [x] [b]" using b x by simp
  have "feed b (new_parser m) = drain (push b (new_parser m)) []"
    using len sz x by (simp add: feed_def new_parser_def)
  also have "\<dots> = (Ok (delivered ptype [x]), new_parser m)"
    using drain_stream [OF enc1, of L "push b (new_parser m)" "[]"] sz
    by (simp add: new_parser_def push_def)
  finally have "feed b (new_parser m) = (Ok (delivered ptype [x]), new_parser m)" .
  with Cons.IH [OF b(3)] Cons.prems b x show ?case by simp
qed simp

end

text \<open>The three providers.\<close>

lemma packet_codec_pack_header:
  assumes "\<And>t pl sq ns. enc t pl sq ns =
     (case pack_header VERSION (type_code (ptype t)) 0 (int (length pl)) sq ns (crc_int pl) of
        Inl e \<Rightarrow> Err e | Inr h \<Rightarrow> Ok (h @ pl))"
  shows "packet_codec enc ptype"
proof
  fix t pl sq ns bs rest acc and p :: parser
  assume "enc t pl sq ns = Ok bs" and p: "expected p = None" "buffer p = bs @ rest"
    "int (length pl) \<le> max_payload_bytes p"
  then obtain h where "pack_header VERSION (type_code (ptype t)) 0 (int (length pl)) sq ns (crc_int pl) = Ok h"
    "bs = h @ pl" by (auto simp: assms split: sum.splits)
  with p show "drain p acc = drain (p\<lparr>buffer := rest\<rparr>) (acc @ [frame_of (ptype t) 0 pl sq ns])"
    by (intro drain_packed) auto
next
  fix t pl sq ns bs acc and p :: parser
  assume "enc t pl sq ns = Ok bs" and p: "expected p = None" "strict_prefix (buffer p) bs"
    "int (length pl) \<le> max_payload_bytes p"
  then obtain h where "pack_header VERSION (type_code (ptype t)) 0 (int (length pl)) sq ns (crc_int pl) = Ok h"
    "bs = h @ pl" by (auto simp: assms split: sum.splits)
  with p show "\<exists>p1. drain p acc = (Ok acc, p1) \<and> length (buffer p1) < max HEADER_SIZE (length pl)"
    by (intro drain_packed_prefix) auto
qed

fun edge_type :: "edge_packet_type \<Rightarrow> packet_type" where
  "edge_type E_HELLO = HELLO"
| "edge_type E_HELLO_ACK = HELLO_ACK"
| "edge_type E_FRAME = FRAME"
| "edge_type E_DETECTIONS = DETECTIONS"
| "edge_type E_INCIDENT_UPDATE = INCIDENT_UPDATE"
| "edge_type E_INCIDENT_TIMELINE_EVENT = INCIDENT_TIMELINE_EVENT"
| "edge_type E_HEALTH_UPDATE = HEALTH_UPDATE"

lemma type_code_edge_type [simp]: "type_code (edge_type t) = edge_code t"
  by (cases t) simp_all

interpretation backend_codec: packet_codec "\<lambda>t pl sq ns. encode_packet t pl sq ns 0" "\<lambda>t. t"
  by (rule packet_codec_pack_header) (simp add: encode_packet_def)

interpretation edge_codec: packet_codec edge_encode_packet edge_type
  by (rule packet_codec_pack_header) (simp add: edge_encode_packet_def VERSION_def)

interpretation simulator_codec: packet_codec sim_packet "\<lambda>t. t"
  by (rule packet_codec_pack_header) (simp add: sim_packet_def)

section \<open>Bounds on the buffer\<close>

definition parser_inv :: "parser \<Rightarrow> bool" where
  "parser_inv p \<longleftrightarrow> buffered_bytes p \<le> max_payload_bytes p + int HEADER_SIZE
     \<and> (case expected p of None \<Rightarrow> True | Some (ty, fl, len, sq, ns, crc) \<Rightarrow> len \<le> max_payload_bytes p)"

lemma header_stage_inv:
  "header_stage p = Go q \<Longrightarrow> parser_inv p \<Longrightarrow> parser_inv q"
  "header_stage p = Fail e q \<Longrightarrow> parser_inv p \<Longrightarrow> parser_inv q"
  by (auto simp: header_stage_def parser_inv_def buffered_bytes_def Let_def
           split: option.splits if_splits)

lemma payload_stage_inv:
  "payload_stage p = Go (k, q) \<Longrightarrow> parser_inv p \<Longrightarrow> parser_inv q"
  "payload_stage p = Fail e q \<Longrightarrow> parser_inv p \<Longrightarrow> parser_inv q"
  by (auto simp: payload_stage_def parser_inv_def buffered_bytes_def Let_def
           split: option.splits if_splits)

lemma header_wait: "header_stage p = Wait \<Longrightarrow> length (buffer p) < HEADER_SIZE"
  by (auto simp: header_stage_def Let_def split: option.splits if_splits)

lemma payload_wait:
  "payload_stage p = Wait \<Longrightarrow> expected p \<noteq> None \<Longrightarrow> parser_inv p \<Longrightarrow>
   buffered_bytes p < max_payload_bytes p"
  by (auto simp: payload_stage_def parser_inv_def buffered_bytes_def Let_def
           split: option.splits if_splits)

lemma drain_inv:
  "drain p acc = (r, q) \<Longrightarrow> parser_inv p \<Longrightarrow>
   parser_inv q \<and> (is_ok r \<longrightarrow> buffered_bytes q < max (int HEADER_SIZE) (max_payload_bytes q))"
proof (induction p acc rule: drain.induct)
  case (1 p acc)
  show ?case
  proof (cases "header_stage p")
    case Wait
    with "1.prems" header_wait [OF Wait] show ?thesis
      by (auto simp: drain.simps [of p] buffered_bytes_def)
  next
    case (Fail e p1)
    with "1.prems" show ?thesis by (auto simp: drain.simps [of p] dest: header_stage_inv)
  next
    case (Go p1)
    with "1.prems"(2) have inv: "parser_inv p1" by (auto dest: header_stage_inv)
    have e: "expected p1 \<noteq> None" using header_stage_Go_measure [OF Go] by simp
    show ?thesis
    proof (cases "payload_stage p1")
      case Wait
      from payload_wait [OF Wait e inv] Wait Go "1.prems" inv show ?thesis
        by (auto simp: drain.simps [of p])
    next
      case (Fail e p2)
      with Go inv "1.prems" show ?thesis by (auto simp: drain.simps [of p] dest: payload_stage_inv)
    next
      fix x assume x: "payload_stage p1 = stage.Go x"
      obtain k p2 where kr: "x = (k, p2)" by (cases x)
      with x Go "1.prems" have "drain p2 (acc @ [k]) = (r, q)" by (simp add: drain.simps [of p])
      from "1.IH" [OF Go x kr [symmetric] this] payload_stage_inv(1) inv x kr show ?thesis by simp
    qed
  qed
qed

lemma feed_inv:
  "feed c p = (r, q) \<Longrightarrow> parser_inv p \<Longrightarrow>
   parser_inv q \<and> (is_ok r \<longrightarrow> buffered_bytes q < max (int HEADER_SIZE) (max_payload_bytes q))"
proof -
  assume f: "feed c p = (r, q)" and inv: "parser_inv p"
  show ?thesis
  proof (cases "int (length (buffer p)) + int (length c) > max_payload_bytes p + int HEADER_SIZE")
    case True
    with f inv show ?thesis by (auto simp: feed_def)
  next
    case False
    with inv have "parser_inv (push c p)"
      by (auto simp: parser_inv_def buffered_bytes_def split: option.splits)
    with drain_inv [of "push c p" "[]" r q] f False show ?thesis by (simp add: feed_def)
  qed
qed

interpretation parser_machine: machine "\<lambda>c p. snd (feed c p)" parser_inv
proof
  fix c p assume "parser_inv p"
  then show "parser_inv (snd (feed c p))" using feed_inv [of c p] by (metis prod.collapse)
qed

lemma feed_max: "feed c p = (r, q) \<Longrightarrow> max_payload_bytes q = max_payload_bytes p"
  by (auto simp: feed_def dest: drain_max split: if_splits)

lemma feeds_max:
  "max_payload_bytes (fold (\<lambda>c p. snd (feed c p)) cs p) = max_payload_bytes p"
  by (induction cs arbitrary: p) (auto simp: feed_max [OF surjective_pairing])

section \<open>Properties\<close>

text \<open>
  C11. A stream produced by the Pi's encoder is delivered exactly: however the bytes are cut
  into chunks on the way, as long as no chunk can overrun the parser's buffer, the backend's
  parser returns the packets that were sent, in order, and is empty afterwards.
\<close>

theorem edge_stream_delivered:
  assumes "encodes edge_encode_packet ms bss" and "payloads_within L m ms"
    and "concat cs = concat bss" and "cs \<noteq> []" and "chunks_within L m cs"
  shows "feed_all cs (new_parser m) = (Ok (delivered edge_type ms), new_parser m)"
  using assms by (intro edge_codec.feed_stream)

definition two_messages :: "edge_packet_type message list" where
  "two_messages = [(E_HELLO, [], 1, 10), (E_HEALTH_UPDATE, [], 2, 11)]"

lemma crc_Nil [simp]: "crc_int [] = 0"
  by (simp add: crc_int_def crc32_def)

lemma two_messages_encode:
  "\<exists>b1 b2. encodes edge_encode_packet two_messages [b1, b2] \<and> length b1 = 32 \<and> length b2 = 32"
  by (simp add: two_messages_def edge_encode_packet_def pack_header_def fits_def)

theorem edge_stream_delivered_witness:
  "\<exists>b1 b2. feed_all (map (\<lambda>b. [b]) (b1 @ b2)) (new_parser 100)
       = (Ok (delivered edge_type two_messages), new_parser 100)"
proof -
  obtain b1 b2 where b: "encodes edge_encode_packet two_messages [b1, b2]" "length b1 = 32"
    using two_messages_encode by blast
  have c: "concat (map (\<lambda>b. [b]) xs) = xs" for xs :: bytes by (induction xs) auto
  have "feed_all (map (\<lambda>b. [b]) (b1 @ b2)) (new_parser 100)
       = (Ok (delivered edge_type two_messages), new_parser 100)"
    by (rule edge_stream_delivered [OF b(1), where L = 0])
      (use b(2) c in \<open>auto simp: two_messages_def chunks_within_def HEADER_SIZE_def\<close>)
  then show ?thesis by blast
qed

text \<open>
  For arbitrary bytes, cut anywhere: unless a chunk is refused for overrunning the
  buffer, feeding the chunks gives the packets, or the error, that parsing all the bytes at
  once gives.
\<close>

theorem chunking_irrelevant:
  assumes "cs \<noteq> []" and "fst (feed_all cs p) \<noteq> Err BufferExceeded"
  shows "fst (feed_all cs p) = fst (drain (push (concat cs) p) [])"
proof (cases "feed_all cs p")
  case (Pair r q)
  with assms feed_all_Ok [of cs p _ q] feed_all_Err [of cs p _ q] show ?thesis
    by (cases r) auto
qed

theorem chunking_irrelevant_witness:
  "fst (feed_all [[0x49], [0x47]] (new_parser 0)) = fst (drain (push [0x49, 0x47] (new_parser 0)) [])"
proof -
  have "fst (feed_all [[0x49], [0x47]] (new_parser 0)) = Ok []"
    by (simp add: feed_def new_parser_def drain.simps header_stage_def HEADER_SIZE_def)
  with chunking_irrelevant [of "[[0x49], [0x47]]" "new_parser 0"] show ?thesis by simp
qed

text \<open>
  C39. A corrupted payload byte never gets through: change any one byte of the payload of an
  encoded packet and the parser raises the CRC error.
\<close>

theorem corrupt_byte_rejected:
  assumes "encode_packet ty pl sq ns fl = Ok bs" and "int (length pl) \<le> m"
    and "HEADER_SIZE \<le> k" and "k < length bs" and "b \<noteq> bs ! k"
  shows "fst (feed (bs[k := b]) (new_parser m)) = Err CrcMismatch"
proof -
  from assms(1) obtain h where h: "pack_header VERSION (type_code ty) fl (int (length pl)) sq ns (crc_int pl) = Ok h"
    "bs = h @ pl" by (auto simp: encode_packet_def split: sum.splits)
  note hl = pack_header_layout(1) [OF h(1)]
  define j where "j = k - HEADER_SIZE"
  let ?pl = "pl[j := b]"
  have j: "j < length pl" "pl ! j \<noteq> b" using assms(3-5) h(2) hl by (auto simp: j_def nth_append)
  have bs: "bs[k := b] = h @ ?pl" using assms(3) h(2) hl by (simp add: list_update_append j_def)
  have crc: "crc_int ?pl \<noteq> crc_int pl"
    using crc32_one_byte [of b "pl ! j" "take j pl" "drop (Suc j) pl"] j
    by (metis id_take_nth_drop upd_conv_take_nth_drop)
  let ?p = "push (bs[k := b]) (new_parser m)"
  let ?p1 = "?p\<lparr>buffer := ?pl, expected := Some (ty, fl, int (length pl), sq, ns, crc_int pl)\<rparr>"
  have "header_stage ?p = Go ?p1"
    by (rule header_stage_packed [OF h(1)]) (use assms(2) bs in \<open>simp_all add: new_parser_def\<close>)
  moreover have "payload_stage ?p1 = Fail CrcMismatch (?p1\<lparr>buffer := [], expected := None\<rparr>)"
    using crc by (simp add: payload_stage_def Let_def)
  moreover have "feed (bs[k := b]) (new_parser m) = drain ?p []"
    using assms(2) h(2) hl by (simp add: feed_def new_parser_def)
  ultimately show ?thesis by (simp add: drain.simps)
qed

theorem corrupt_byte_rejected_witness:
  "\<exists>bs. encode_packet PING [0x68, 0x69] 1 1 0 = Ok bs
      \<and> fst (feed (bs[33 := bs ! 33 + 1]) (new_parser 2)) = Err CrcMismatch"
proof -
  have "\<exists>bs. encode_packet PING [0x68, 0x69] 1 1 0 = Ok bs \<and> length bs = 34"
    using fits_crc [of "[0x68, 0x69]"]
    by (simp add: encode_packet_def pack_header_def fits_def VERSION_def)
  then obtain bs where bs: "encode_packet PING [0x68, 0x69] 1 1 0 = Ok bs" "length bs = 34" by blast
  have "fst (feed (bs[33 := bs ! 33 + 1]) (new_parser 2)) = Err CrcMismatch"
    by (rule corrupt_byte_rejected [OF bs(1)]) (use bs(2) in \<open>simp_all add: HEADER_SIZE_def\<close>)
  with bs(1) show ?thesis by blast
qed

text \<open>
  The connection's memory is bounded: after any sequence of \<^verbatim>\<open>feed\<close> calls, failing ones
  included, the parser buffers at most one header and one maximal payload; after a
  successful call it buffers less than the larger of the two.
\<close>

theorem buffer_bounded:
  assumes "0 \<le> m" and "p = fold (\<lambda>c p. snd (feed c p)) cs (new_parser m)"
  shows "buffered_bytes p \<le> m + int HEADER_SIZE
     \<and> (is_ok (fst (feed c p)) \<longrightarrow> buffered_bytes (snd (feed c p)) < max (int HEADER_SIZE) m)"
proof -
  have "parser_inv (new_parser m)" using assms(1) by (simp add: parser_inv_def new_parser_def buffered_bytes_def)
  then have inv: "parser_inv p" unfolding assms(2) by (rule parser_machine.run_inv)
  have mp: "max_payload_bytes p = m" by (simp add: assms(2) feeds_max) (simp add: new_parser_def)
  obtain r q where f: "feed c p = (r, q)" by force
  with feed_inv [OF f inv] feed_max [OF f] inv mp show ?thesis by (auto simp: parser_inv_def)
qed

theorem buffer_bounded_witness:
  "buffered_bytes (fold (\<lambda>c p. snd (feed c p)) [[1, 2], [3]] (new_parser 5)) \<le> 5 + int HEADER_SIZE"
  using buffer_bounded [of 5 _ "[[1, 2], [3]]"] by simp

text \<open>
  The size check of \<^verbatim>\<open>feed\<close> looks at the whole chunk: a chunk that carries several
  packets, each within the configured maximum and each accepted when it arrives alone, is
  refused as soon as their total size exceeds one maximal packet.
\<close>

theorem coalesced_packets_refused:
  assumes "encodes (\<lambda>t pl sq ns. encode_packet t pl sq ns 0) ms bss" and "payloads_within L m ms"
    and "m + int HEADER_SIZE < int (length (concat bss))"
  shows "fst (feed (concat bss) (new_parser m)) = Err BufferExceeded
     \<and> feed_all bss (new_parser m) = (Ok (delivered (\<lambda>t. t) ms), new_parser m)"
proof
  show "fst (feed (concat bss) (new_parser m)) = Err BufferExceeded"
    using assms(3) by (simp add: feed_def new_parser_def)
  show "feed_all bss (new_parser m) = (Ok (delivered (\<lambda>t. t) ms), new_parser m)"
    by (rule backend_codec.feed_each [OF assms(1,2)])
      (auto simp: encode_packet_def dest!: pack_header_layout(1) split: sum.splits)
qed

theorem coalesced_packets_refused_witness:
  "\<exists>b1 b2. encodes (\<lambda>t pl sq ns. encode_packet t pl sq ns 0) [(PING, [], 1, 1), (PING, [], 2, 2)] [b1, b2]
     \<and> fst (feed (b1 @ b2) (new_parser 8)) = Err BufferExceeded"
proof -
  have "\<exists>b1 b2. encodes (\<lambda>t pl sq ns. encode_packet t pl sq ns 0) [(PING, [], 1, 1), (PING, [], 2, 2)] [b1, b2]
      \<and> length b1 = 32 \<and> length b2 = 32"
    by (simp add: encode_packet_def pack_header_def fits_def VERSION_def)
  then obtain b1 b2 where b:
    "encodes (\<lambda>t pl sq ns. encode_packet t pl sq ns 0) [(PING, [], 1, 1), (PING, [], 2, 2)] [b1, b2]"
    "length b1 = 32" "length b2 = 32" by blast
  from coalesced_packets_refused [OF b(1), of 0 8] b show ?thesis by (auto simp: HEADER_SIZE_def)
qed

end
