(* ===== verification/RateLimit.thy ===== *)
theory RateLimit
  imports Binary64
begin

text \<open>
  The action rate limiter of \<^verbatim>\<open>src/backend/app/rate_limit.py\<close>: a deque of admission times
  per client, trimmed from the left. The specification it is compared with looks at the
  whole history of admissions.
\<close>

record limiter =
  limit :: int
  window_seconds :: rat
  requests :: "string \<Rightarrow> rat list"

definition rate_limiter :: "int \<Rightarrow> rat \<Rightarrow> limiter" where
  "rate_limiter n w = \<lparr>limit = n, window_seconds = w, requests = (\<lambda>_. [])\<rparr>"

text \<open>\<^verbatim>\<open>allow\<close> at the clock value \<open>now\<close>: the answer and the new state.\<close>

definition allow :: "string \<Rightarrow> rat \<Rightarrow> limiter \<Rightarrow> bool \<times> limiter" where
  "allow key now l =
     (let q = dropWhile (\<lambda>t. t \<le> fsub now (window_seconds l)) (requests l key) in
      if limit l \<le> int (length q) then (False, l\<lparr>requests := (requests l)(key := q)\<rparr>)
      else (True, l\<lparr>requests := (requests l)(key := q @ [now])\<rparr>))"

text \<open>A run over the calls \<open>(key, now)\<close>, with the history of admitted calls.\<close>

fun admit :: "(string \<times> rat) list \<Rightarrow> limiter \<Rightarrow> (string \<times> rat) list" where
  "admit [] l = []"
| "admit ((k, t) # cs) l =
     (case allow k t l of (ok, l') \<Rightarrow> (if ok then [(k, t)] else []) @ admit cs l')"

text \<open>
  The specification: admit a call when fewer than \<open>limit\<close> calls of the same client were
  admitted after the start of the window that ends now.
\<close>

definition in_window :: "rat \<Rightarrow> string \<Rightarrow> rat \<Rightarrow> (string \<times> rat) list \<Rightarrow> rat list" where
  "in_window w k now H = [s. (k', s) \<leftarrow> H, k' = k \<and> fsub now w < s]"

fun spec_admit :: "int \<Rightarrow> rat \<Rightarrow> (string \<times> rat) list \<Rightarrow> (string \<times> rat) list \<Rightarrow> (string \<times> rat) list" where
  "spec_admit n w H [] = []"
| "spec_admit n w H ((k, t) # cs) =
     (if int (length (in_window w k t H)) < n
      then (k, t) # spec_admit n w (H @ [(k, t)]) cs else spec_admit n w H cs)"

definition nondecreasing :: "(string \<times> rat) list \<Rightarrow> bool" where
  "nondecreasing cs \<longleftrightarrow> sorted (map snd cs)"

section \<open>The queue against the history\<close>

definition times_of :: "string \<Rightarrow> (string \<times> rat) list \<Rightarrow> rat list" where
  "times_of k H = [s. (k', s) \<leftarrow> H, k' = k]"

definition above :: "rat \<Rightarrow> rat list \<Rightarrow> rat list" where
  "above c xs = filter (\<lambda>s. c < s) xs"

lemma in_window_above: "in_window w k now H = above (fsub now w) (times_of k H)"
  by (induction H) (auto simp: in_window_def times_of_def above_def)

lemma times_of_append [simp]: "times_of k (H @ H') = times_of k H @ times_of k H'"
  by (induction H) (auto simp: times_of_def)

lemma times_of_single [simp]: "times_of k [(k', t)] = (if k' = k then [t] else [])"
  by (simp add: times_of_def)

lemma above_append [simp]: "above c (xs @ ys) = above c xs @ above c ys" "above c [] = []"
  by (simp_all add: above_def)

lemma above_above: "c \<le> c' \<Longrightarrow> above c' (above c xs) = above c' xs"
  by (auto simp: above_def intro: filter_cong)

lemma dropWhile_above: "sorted xs \<Longrightarrow> dropWhile (\<lambda>t. t \<le> c) xs = above c xs"
proof (induction xs)
  case (Cons x xs)
  show ?case
  proof (cases "x \<le> c")
    case False
    with Cons.prems have "filter (\<lambda>s. c < s) xs = xs" by (intro filter_True) auto
    with False show ?thesis by (simp add: above_def)
  qed (use Cons in \<open>simp add: above_def\<close>)
qed (simp add: above_def)

definition represents :: "rat \<Rightarrow> (string \<times> rat) list \<Rightarrow> limiter \<Rightarrow> bool" where
  "represents T H l \<longleftrightarrow> (\<forall>k. sorted (requests l k) \<and> (\<forall>s \<in> set (requests l k). s \<le> T)
     \<and> (\<forall>c. fsub T (window_seconds l) \<le> c \<longrightarrow> above c (requests l k) = above c (times_of k H)))"

lemma fsub_mono: "s \<le> t \<Longrightarrow> fsub s w \<le> fsub t w"
  by (simp add: fsub_def fl_mono)

lemma allow_refines:
  assumes rep: "represents T H l" and t: "T \<le> t" and l': "allow k t l = (ok, l')"
  shows "ok \<longleftrightarrow> int (length (in_window (window_seconds l) k t H)) < limit l"
    and "represents t (if ok then H @ [(k, t)] else H) l'"
    and "limit l' = limit l" "window_seconds l' = window_seconds l"
proof -
  let ?w = "window_seconds l" and ?c = "fsub t (window_seconds l)"
  have mono: "fsub T ?w \<le> ?c" using t by (rule fsub_mono)
  have q: "dropWhile (\<lambda>s. s \<le> ?c) (requests l k) = above ?c (times_of k H)"
    using rep mono by (simp add: represents_def dropWhile_above)
  show "ok \<longleftrightarrow> int (length (in_window ?w k t H)) < limit l"
    using l' by (auto simp: allow_def Let_def q in_window_above split: if_splits)
  show "limit l' = limit l" and w': "window_seconds l' = ?w"
    using l' by (auto simp: allow_def Let_def split: if_splits)
  have srt: "sorted (above ?c (times_of k H))"
    using rep unfolding q [symmetric] by (simp add: represents_def sorted_dropWhile)
  have le: "\<forall>s \<in> set (above ?c (times_of k H)). s \<le> t"
  proof
    fix s assume "s \<in> set (above ?c (times_of k H))"
    then have "s \<in> set (requests l k)" unfolding q [symmetric] by (rule set_dropWhileD)
    with rep t show "s \<le> t" by (auto simp: represents_def intro: order_trans)
  qed
  have old: "sorted (requests l j) \<and> (\<forall>s \<in> set (requests l j). s \<le> t)
      \<and> (\<forall>c. ?c \<le> c \<longrightarrow> above c (requests l j) = above c (times_of j H))" for j
    using rep t mono unfolding represents_def by (meson order_trans)
  show "represents t (if ok then H @ [(k, t)] else H) l'"
    unfolding represents_def w'
  proof (intro allI)
    fix j
    let ?H = "if ok then H @ [(k, t)] else H"
    show "sorted (requests l' j) \<and> (\<forall>s \<in> set (requests l' j). s \<le> t)
      \<and> (\<forall>c. ?c \<le> c \<longrightarrow> above c (requests l' j) = above c (times_of j ?H))"
    proof (cases "j = k")
      case False
      with l' have "requests l' j = requests l j" by (auto simp: allow_def Let_def split: if_splits)
      moreover have "times_of j ?H = times_of j H" using False by simp
      ultimately show ?thesis using old by simp
    next
      case True
      with l' have "requests l' j = above ?c (times_of k H) @ (if ok then [t] else [])"
        by (auto simp: allow_def Let_def q split: if_splits)
      with srt le True show ?thesis by (simp add: sorted_append above_above)
    qed
  qed
qed

lemma admit_refines:
  "represents T H l \<Longrightarrow> sorted (T # map snd cs) \<Longrightarrow>
   admit cs l = spec_admit (limit l) (window_seconds l) H cs"
proof (induction cs arbitrary: T H l)
  case (Cons c cs)
  obtain k t where c: "c = (k, t)" by (cases c)
  obtain ok l' where l': "allow k t l = (ok, l')" by (cases "allow k t l")
  have t: "T \<le> t" and s: "sorted (t # map snd cs)" using Cons.prems(2) c by auto
  note r = allow_refines [OF Cons.prems(1) t l']
  from Cons.IH [OF r(2) s] r show ?case by (auto simp: c l')
qed simp

lemma admit_spec:
  assumes "nondecreasing cs"
  shows "admit cs (rate_limiter n w) = spec_admit n w [] cs"
proof (cases cs)
  case (Cons c cs')
  have "represents (snd c) [] (rate_limiter n w)"
    by (simp add: represents_def rate_limiter_def times_of_def)
  from admit_refines [OF this, of cs] assms Cons show ?thesis
    by (simp add: nondecreasing_def rate_limiter_def)
qed simp

section \<open>Properties\<close>

text \<open>
  C25. The trimmed queues are exact: on a clock that never goes back, the limiter admits
  the same calls as the specification that counts all earlier admissions of the client
  inside the window; in particular clients do not affect each other.
\<close>

theorem limiter_refines_spec:
  assumes "nondecreasing cs"
  shows "admit cs (rate_limiter n w) = spec_admit n w [] cs"
  using assms by (rule admit_spec)

definition burst :: "(string \<times> rat) list" where
  "burst = [(''a'', 1), (''a'', 2), (''b'', 2), (''a'', 3), (''a'', 70)]"

lemma burst_nondecreasing: "nondecreasing burst"
  by (simp add: nondecreasing_def burst_def)

theorem limiter_refines_spec_witness:
  "admit burst (rate_limiter 2 60) = spec_admit 2 60 [] burst"
  by (rule limiter_refines_spec [OF burst_nondecreasing])

lemma spec_admit_bound:
  "spec_admit n w H cs = pre @ (k, t) # suf \<Longrightarrow> int (length (in_window w k t (H @ pre))) < n"
proof (induction cs arbitrary: H pre)
  case (Cons c cs)
  obtain k' t' where c: "c = (k', t')" by (cases c)
  show ?case
  proof (cases "int (length (in_window w k' t' H)) < n")
    case True
    with Cons.prems c have eq: "(k', t') # spec_admit n w (H @ [(k', t')]) cs = pre @ (k, t) # suf" by simp
    show ?thesis
    proof (cases pre)
      case Nil
      with eq True show ?thesis by simp
    next
      case (Cons x pre')
      with eq have "spec_admit n w (H @ [(k', t')]) cs = pre' @ (k, t) # suf" and "x = (k', t')" by auto
      with Cons.IH [of "H @ [(k', t')]" pre'] Cons show ?thesis by simp
    qed
  next
    case False
    with Cons.prems Cons.IH c show ?thesis by simp
  qed
qed simp

text \<open>
  The bound a client sees: whenever a call is admitted, fewer than \<open>limit\<close> earlier
  admissions of the same client lie inside the window that ends at it, so at most \<open>limit\<close>
  calls are ever admitted in one window.
\<close>

theorem admitted_within_limit:
  assumes "nondecreasing cs" and "admit cs (rate_limiter n w) = pre @ (k, t) # suf"
  shows "int (length (in_window w k t pre)) < n"
proof -
  from assms(1) have "admit cs (rate_limiter n w) = spec_admit n w [] cs" by (rule admit_spec)
  with assms(2) spec_admit_bound [of n w "[]" cs pre k t suf] show ?thesis by simp
qed

lemma burst_admitted:
  "admit burst (rate_limiter 2 60) = [(''a'', 1), (''a'', 2), (''b'', 2)] @ (''a'', 70) # []"
  by code_simp

theorem admitted_within_limit_witness:
  "int (length (in_window 60 ''a'' 70 [(''a'', 1), (''a'', 2), (''b'', 2)])) < 2"
  by (rule admitted_within_limit [OF burst_nondecreasing burst_admitted])

end
