(* ===== verification/Text.thy ===== *)
theory Text
  imports Prelude
begin

text \<open>
  The operations of Python's \<open>str\<close> the source uses, on characters with code points below
  256: \<open>lower\<close>, \<open>upper\<close>, \<open>strip\<close>, \<open>rstrip\<close> of one character, \<open>split\<close> on a character,
  \<open>startswith\<close>, the constructor \<open>int\<close>, and the character class of the regular expression
  that keeps the safe characters of a zone name.
\<close>

abbreviation ord :: "char \<Rightarrow> nat" where "ord \<equiv> of_char"

definition between :: "nat \<Rightarrow> nat \<Rightarrow> char \<Rightarrow> bool" where
  "between a b c \<longleftrightarrow> a \<le> ord c \<and> ord c \<le> b"

definition is_digit :: "char \<Rightarrow> bool" where "is_digit c \<longleftrightarrow> between 48 57 c"

definition is_space :: "char \<Rightarrow> bool" where
  "is_space c \<longleftrightarrow> between 9 13 c \<or> between 28 32 c \<or> ord c = 133 \<or> ord c = 160"

definition lower_char :: "char \<Rightarrow> char" where
  "lower_char c = (if between 65 90 c \<or> between 192 222 c \<and> ord c \<noteq> 215 then char_of (ord c + 32) else c)"

definition lower :: "string \<Rightarrow> string" where
  "lower s = map lower_char s"

text \<open>
  \<open>upper\<close>, as code points: the sharp s becomes two letters, and two letters leave the range
  below 256.
\<close>

definition upper_codes :: "char \<Rightarrow> nat list" where
  "upper_codes c = (let n = of_char c in
     if between 97 122 c \<or> between 224 254 c \<and> n \<noteq> 247 then [n - 32]
     else if n = 223 then [83, 83]
     else if n = 255 then [376]
     else if n = 181 then [924]
     else [n])"

definition upper :: "string \<Rightarrow> nat list" where
  "upper s = concat (map upper_codes s)"

definition strip :: "string \<Rightarrow> string" where
  "strip s = rev (dropWhile is_space (rev (dropWhile is_space s)))"

definition rstrip_char :: "char \<Rightarrow> string \<Rightarrow> string" where
  "rstrip_char x s = rev (dropWhile (\<lambda>c. c = x) (rev s))"

fun split_on :: "char \<Rightarrow> string \<Rightarrow> string list" where
  "split_on x [] = [[]]"
| "split_on x (c # cs) = (if c = x then [] # split_on x cs
     else (case split_on x cs of [] \<Rightarrow> [[c]] | w # ws \<Rightarrow> (c # w) # ws))"

definition starts_with :: "string \<Rightarrow> string \<Rightarrow> bool" where
  "starts_with p s \<longleftrightarrow> take (length p) s = p"

text \<open>The characters of the class \<^verbatim>\<open>[A-Za-z0-9 .,'()&-]\<close>.\<close>

definition safe_char :: "char \<Rightarrow> bool" where
  "safe_char c \<longleftrightarrow> between 65 90 c \<or> between 97 122 c \<or> is_digit c \<or> c \<in> set '' .,()&-'' \<or> ord c = 39"

text \<open>
  \<open>int(text)\<close>: surrounding space, a sign, digits with single underscores between them. The
  Boolean tells whether the character before is a digit.
\<close>

fun read_digits :: "bool \<Rightarrow> nat \<Rightarrow> string \<Rightarrow> nat option" where
  "read_digits d acc [] = (if d then Some acc else None)"
| "read_digits d acc (c # cs) =
     (if is_digit c then read_digits True (10 * acc + (ord c - 48)) cs
      else if c = CHR ''_'' \<and> d then read_digits False acc cs
      else None)"

definition int_of_text :: "string \<Rightarrow> int option" where
  "int_of_text s = (case strip s of
       [] \<Rightarrow> None
     | c # cs \<Rightarrow>
         if c = CHR ''-'' then map_option (\<lambda>n. - int n) (read_digits False 0 cs)
         else if c = CHR ''+'' then map_option int (read_digits False 0 cs)
         else map_option int (read_digits False 0 (c # cs)))"

section \<open>Facts\<close>

lemma set_strip: "set (strip s) \<subseteq> set s"
  by (auto simp: strip_def dest!: set_dropWhileD)

lemma length_dropWhile_bound: "length (dropWhile P xs) \<le> length xs"
  by (induction xs) auto

lemma length_strip: "length (strip s) \<le> length s"
  unfolding strip_def using length_dropWhile_bound [of is_space] by (metis length_rev order_trans)

lemma strip_no_space:
  assumes "\<And>c. c \<in> set s \<Longrightarrow> \<not> is_space c"
  shows "strip s = s"
proof -
  have "dropWhile is_space xs = xs" if "set xs \<subseteq> set s" for xs
    using that assms by (cases xs) auto
  from this [of s] this [of "rev s"] show ?thesis by (simp add: strip_def)
qed

lemma digit_not_space: "is_digit c \<Longrightarrow> \<not> is_space c"
  by (auto simp: is_digit_def is_space_def between_def)

lemma is_digit_digit_char: "d < 10 \<Longrightarrow> is_digit (digit_char d)"
  by (simp add: is_digit_def between_def of_char_digit_char)

lemma read_digits_map:
  "list_all (\<lambda>d. d < 10) ds \<Longrightarrow> b \<or> ds \<noteq> [] \<Longrightarrow>
   read_digits b acc (map digit_char ds) = Some (undigits acc ds)"
  by (induction ds arbitrary: acc b) (auto simp: is_digit_digit_char of_char_digit_char)

lemma read_digits_str_nat: "read_digits False 0 (str_nat n) = Some n"
  unfolding str_nat_def by (subst read_digits_map) (auto simp: list_all_iff digits_less_10)

lemma str_nat_digits: "c \<in> set (str_nat n) \<Longrightarrow> is_digit c"
  by (auto simp: str_nat_def intro!: is_digit_digit_char digits_less_10)

lemma dash_not_space: "\<not> is_space (CHR ''-'')"
  by (simp add: is_space_def between_def)

lemma int_of_text_str_int: "int_of_text (str_int i) = Some i"
proof -
  have "strip (str_int i) = str_int i"
    by (rule strip_no_space) (auto simp: str_int_def dash_not_space dest!: str_nat_digits digit_not_space
        split: if_splits)
  moreover obtain c cs where s: "str_nat (nat i) = c # cs" by (cases "str_nat (nat i)") auto
  with str_nat_digits [of c "nat i"] have "c \<noteq> CHR ''-''" "c \<noteq> CHR ''+''"
    by (auto simp: is_digit_def between_def)
  ultimately show ?thesis
    using read_digits_str_nat [of "nat i"] read_digits_str_nat [of "nat (- i)"] s
    by (auto simp: int_of_text_def str_int_def)
qed

lemma length_lower [simp]: "length (lower s) = length s"
  by (simp add: lower_def)

end
