(* ===== verification/Detector.thy ===== *)
theory Detector
  imports Verifier Text
begin

text \<open>
  Post-processing of the detector's output tensors, \<^verbatim>\<open>src/poc/pi/ignis_poc/model.py\<close>: the
  output indices a decoder needs, the YOLOv8 and SSD decoders, intersection over union and the
  class-aware non-maximum suppression, on the float operations of \<open>Binary64\<close>. The
  interpreter, the image operations and NumPy are not under \<^verbatim>\<open>src/\<close>: their results (tensor
  shapes, dtypes, rows of numbers) are arguments. Scores are numbers: a NaN, which passes the
  comparison with the threshold in the code, is outside the model.
\<close>

section \<open>Decoders and errors\<close>

datatype decoder = SSD | YOLO_V8 | OtherDecoder string

text \<open>
  What stops the detector. \<open>BadManifest\<close> stands for the KeyError, TypeError, ValueError or
  AttributeError of reading a manifest that is not shaped as expected.
\<close>

datatype model_error =
  HashMismatch | BadManifest | LabelsMissing | UndeclaredLabels | ShapeMismatch | DtypeMismatch
| UnsupportedDecoder string | IndexOutside string int | BadRank | ColumnMismatch
| BadNormalization | UnsupportedDtype | NoQuantization | BadTensor

text \<open>The output indices the decoder needs, in the order they are checked.\<close>

fun decoder_keys :: "decoder \<Rightarrow> string list" where
  "decoder_keys YOLO_V8 = [''predictions_index'']"
| "decoder_keys _ = [''boxes_index'', ''classes_index'', ''scores_index'', ''count_index'']"

fun check_indices :: "(string \<rightharpoonup> int) \<Rightarrow> int \<Rightarrow> string list \<Rightarrow> (model_error, unit) result" where
  "check_indices outs n [] = Ok ()"
| "check_indices outs n (k # ks) =
     (case outs k of
        None \<Rightarrow> Err BadManifest
      | Some i \<Rightarrow> if i < 0 \<or> n \<le> i then Err (IndexOutside k i) else check_indices outs n ks)"

section \<open>Boxes\<close>

type_synonym box = "rat \<times> rat \<times> rat \<times> rat"

definition iou :: "box \<Rightarrow> box \<Rightarrow> rat" where
  "iou l r = (case (l, r) of ((lx1, ly1, lx2, ly2), (rx1, ry1, rx2, ry2)) \<Rightarrow>
     let width = max 0 (fsub (min lx2 rx2) (max lx1 rx1));
         height = max 0 (fsub (min ly2 ry2) (max ly1 ry1));
         intersection = fmul width height;
         left_area = fmul (fsub lx2 lx1) (fsub ly2 ly1);
         right_area = fmul (fsub rx2 rx1) (fsub ry2 ry1);
         union = fsub (fadd left_area right_area) intersection
     in if 0 < union then fdiv intersection union else 0)"

definition good_box :: "box \<Rightarrow> bool" where
  "good_box b \<longleftrightarrow> (case b of (x1, y1, x2, y2) \<Rightarrow>
     0 \<le> x1 \<and> x1 < x2 \<and> x2 \<le> 1 \<and> 0 \<le> y1 \<and> y1 < y2 \<and> y2 \<le> 1)"

section \<open>Suppression\<close>

text \<open>\<open>sorted(candidates, key=confidence, reverse=True)\<close> is stable, so ties keep their order.\<close>

definition by_confidence :: "detection list \<Rightarrow> detection list" where
  "by_confidence ds = sort_key (\<lambda>d. - confidence d) ds"

definition compatible :: "rat \<Rightarrow> detection \<Rightarrow> detection \<Rightarrow> bool" where
  "compatible thr c k \<longleftrightarrow> class_id c \<noteq> class_id k \<or> iou (bbox c) (bbox k) \<le> thr"

fun nms_loop :: "rat \<Rightarrow> detection list \<Rightarrow> detection list \<Rightarrow> detection list" where
  "nms_loop thr selected [] = selected"
| "nms_loop thr selected (c # cs) =
     nms_loop thr (if list_all (compatible thr c) selected then selected @ [c] else selected) cs"

definition class_aware_nms :: "detection list \<Rightarrow> rat \<Rightarrow> detection list" where
  "class_aware_nms candidates thr = nms_loop thr [] (by_confidence candidates)"

section \<open>Decoders\<close>

definition hazard_class :: "string \<Rightarrow> bool" where
  "hazard_class n \<longleftrightarrow> n = ''fire'' \<or> n = ''smoke''"

text \<open>\<open>{int(key): value}\<close> of the manifest's labels, as an association list with distinct keys.\<close>

type_synonym labels = "(int \<times> string) list"

definition label_of :: "labels \<Rightarrow> int \<Rightarrow> string" where
  "label_of labels i = (case map_of labels i of None \<Rightarrow> ''class_'' @ str_int i | Some n \<Rightarrow> n)"

text \<open>\<open>numpy.argmax\<close>: the first index of the largest value.\<close>

fun argmax_from :: "nat \<Rightarrow> nat \<Rightarrow> rat \<Rightarrow> rat list \<Rightarrow> nat" where
  "argmax_from i best b [] = best"
| "argmax_from i best b (x # xs) =
     (if b < x then argmax_from (Suc i) i x xs else argmax_from (Suc i) best b xs)"

fun argmax :: "rat list \<Rightarrow> nat" where
  "argmax [] = 0"
| "argmax (x # xs) = argmax_from 1 0 x xs"

text \<open>
  One row of the transposed prediction matrix: centre, size and class scores, the scores
  list not empty. \<open>None\<close> is \<open>continue\<close>.
\<close>

definition decode_row ::
  "rat \<Rightarrow> labels \<Rightarrow> bool \<Rightarrow> int \<Rightarrow> int \<Rightarrow> rat \<times> rat \<times> rat \<times> rat \<Rightarrow> rat list \<Rightarrow> detection option"
  where
  "decode_row threshold labels pixels iw ih centre class_scores =
     (let class_index = argmax class_scores; conf = class_scores ! class_index;
          name = label_of labels (int class_index)
      in if conf < threshold \<or> \<not> hazard_class name then None
         else (case centre of (cx0, cy0, bw0, bh0) \<Rightarrow>
           let cx = (if pixels then fdiv cx0 (of_int iw) else cx0);
               bw = (if pixels then fdiv bw0 (of_int iw) else bw0);
               cy = (if pixels then fdiv cy0 (of_int ih) else cy0);
               bh = (if pixels then fdiv bh0 (of_int ih) else bh0);
               x1 = max 0 (fsub cx (fdiv bw 2)); y1 = max 0 (fsub cy (fdiv bh 2));
               x2 = min 1 (fadd cx (fdiv bw 2)); y2 = min 1 (fadd cy (fdiv bh 2))
           in if x1 \<ge> x2 \<or> y1 \<ge> y2 then None
              else Some \<lparr>class_name = name, class_id = int class_index, confidence = conf,
                         bbox = (x1, y1, x2, y2)\<rparr>))"

definition decode_yolo_rows ::
  "rat \<Rightarrow> labels \<Rightarrow> bool \<Rightarrow> int \<Rightarrow> int \<Rightarrow> ((rat \<times> rat \<times> rat \<times> rat) \<times> rat list) list \<Rightarrow> detection list"
  where
  "decode_yolo_rows threshold labels pixels iw ih rows =
     class_aware_nms (List.map_filter (\<lambda>(c, s). decode_row threshold labels pixels iw ih c s) rows)
       (fl (45/100))"

text \<open>
  \<^verbatim>\<open>_decode_yolo_v8\<close> on the squeezed output: its number of axes and its matrix, given by the
  two shape values and the rows. The matrix is transposed when its first axis has
  4 + classes entries.
\<close>

definition split_row :: "rat list \<Rightarrow> (rat \<times> rat \<times> rat \<times> rat) \<times> rat list" where
  "split_row r = ((r ! 0, r ! 1, r ! 2, r ! 3), drop 4 r)"

definition decode_yolo_v8 ::
  "rat \<Rightarrow> labels \<Rightarrow> bool \<Rightarrow> int \<Rightarrow> int \<Rightarrow> nat \<Rightarrow> nat \<Rightarrow> nat \<Rightarrow> rat list list
   \<Rightarrow> (model_error, detection list) result" where
  "decode_yolo_v8 threshold labels pixels iw ih rank shape0 shape1 m =
     (let columns = 4 + length labels in
      if rank \<noteq> 2 then Err BadRank
      else if shape0 \<noteq> columns \<and> shape1 \<noteq> columns then Err ColumnMismatch
      else let predictions = (if shape0 = columns then transpose m else m)
           in Ok (decode_yolo_rows threshold labels pixels iw ih (map split_row predictions)))"

text \<open>
  The loop of the SSD branch of \<^verbatim>\<open>detect\<close> over the rows of the boxes, \<open>(y_min, x_min, y_max, x_max)\<close>.
  A row is unpacked only when its score and class pass; one that is not four numbers stops the loop.
\<close>

definition ssd_row ::
  "rat \<Rightarrow> labels \<Rightarrow> bool \<Rightarrow> rat \<Rightarrow> rat \<Rightarrow> rat list \<Rightarrow> (model_error, detection option) result" where
  "ssd_row threshold labels zero_based score cls box =
     (let raw_class_id = rne cls;
          cid = (if zero_based then raw_class_id else raw_class_id - 1);
          name = label_of labels cid
      in if score < threshold \<or> \<not> hazard_class name then Ok None
         else (case box of [y_min, x_min, y_max, x_max] \<Rightarrow>
           let clip = (\<lambda>v. max 0 (min 1 v)); x1 = clip x_min; y1 = clip y_min; x2 = clip x_max;
               y2 = clip y_max
           in if x1 \<ge> x2 \<or> y1 \<ge> y2 then Ok None
              else Ok (Some \<lparr>class_name = name, class_id = cid, confidence = score,
                         bbox = (x1, y1, x2, y2)\<rparr>)
         | _ \<Rightarrow> Err BadTensor))"

fun collect :: "('e, 'a option) result list \<Rightarrow> ('e, 'a list) result" where
  "collect [] = Ok []"
| "collect (Inl e # rs) = Err e"
| "collect (Inr x # rs) = rbind (collect rs) (\<lambda>xs. Ok (case x of None \<Rightarrow> xs | Some y \<Rightarrow> y # xs))"

definition decode_ssd ::
  "rat \<Rightarrow> labels \<Rightarrow> bool \<Rightarrow> int \<Rightarrow> rat list \<Rightarrow> rat list \<Rightarrow> rat list list
   \<Rightarrow> (model_error, detection list) result" where
  "decode_ssd threshold labels zero_based count scores classes boxes =
     collect (map (\<lambda>i. ssd_row threshold labels zero_based (scores ! i) (classes ! i) (boxes ! i))
       [0..<min (nat count) (min (length scores) (min (length classes) (length boxes)))])"

section \<open>Intersection over union\<close>

lemma axis_le:
  assumes "a1 \<le> a2"
  shows "max 0 (fsub (min a2 b2) (max a1 b1)) \<le> fsub a2 a1"
proof -
  have "fsub (min a2 b2) (max a1 b1) \<le> fsub a2 a1"
    unfolding fsub_def by (rule fl_mono) (auto simp: min_def max_def)
  moreover have "0 \<le> fsub a2 a1" using assms by (simp add: fsub_def binary64.nonneg)
  ultimately show ?thesis by simp
qed

lemma fmul_mono: "0 \<le> a \<Longrightarrow> a \<le> c \<Longrightarrow> 0 \<le> b \<Longrightarrow> b \<le> d \<Longrightarrow> fmul a b \<le> fmul c d"
  unfolding fmul_def by (intro fl_mono mult_mono) auto

definition weak_box :: "box \<Rightarrow> bool" where
  "weak_box b \<longleftrightarrow> (case b of (x1, y1, x2, y2) \<Rightarrow> x1 \<le> x2 \<and> y1 \<le> y2)"

lemma iou_bounds:
  assumes "weak_box l" and "weak_box r"
  shows "0 \<le> iou l r \<and> iou l r \<le> 1"
proof -
  obtain lx1 ly1 lx2 ly2 where l: "l = (lx1, ly1, lx2, ly2)" by (cases l)
  obtain rx1 ry1 rx2 ry2 where r: "r = (rx1, ry1, rx2, ry2)" by (cases r)
  define w h where "w = max 0 (fsub (min lx2 rx2) (max lx1 rx1))"
    and "h = max 0 (fsub (min ly2 ry2) (max ly1 ry1))"
  define i where "i = fmul w h"
  define a b where "a = fmul (fsub lx2 lx1) (fsub ly2 ly1)" and "b = fmul (fsub rx2 rx1) (fsub ry2 ry1)"
  have pos: "0 \<le> w" "0 \<le> h" by (simp_all add: w_def h_def)
  have "w \<le> fsub lx2 lx1" "h \<le> fsub ly2 ly1"
    using assms(1) l axis_le [of lx1 lx2 rx2 rx1] axis_le [of ly1 ly2 ry2 ry1]
    by (auto simp: w_def h_def weak_box_def)
  then have ia: "i \<le> a" unfolding i_def a_def using pos by (intro fmul_mono)
  have "w \<le> fsub rx2 rx1" "h \<le> fsub ry2 ry1"
    using assms(2) r axis_le [of rx1 rx2 lx2 lx1] axis_le [of ry1 ry2 ly2 ly1]
    by (auto simp: w_def h_def weak_box_def min.commute max.commute)
  then have ib: "i \<le> b" unfolding i_def b_def using pos by (intro fmul_mono)
  have i0: "0 \<le> i" using pos by (simp add: i_def fmul_def binary64.nonneg)
  have fi: "fl i = i" by (simp add: i_def fmul_def binary64.rnd_idem)
  have iu: "i \<le> fsub (fadd a b) i"
    unfolding fsub_def fadd_def by (rule binary64.union_ge_intersection [OF fi ia ib])
  have "iou l r = (if 0 < fsub (fadd a b) i then fdiv i (fsub (fadd a b) i) else 0)"
    by (simp add: iou_def l r i_def a_def b_def w_def h_def Let_def)
  then show ?thesis
    using binary64.ratio_unit [OF i0 iu] by (simp add: fdiv_def)
qed

lemma iou_commute: "iou l r = iou r l"
  by (auto simp: iou_def Let_def min.commute max.commute fadd_def add.commute split: prod.splits)

lemma iou_self:
  assumes "b = (x1, y1, x2, y2)" and "x1 \<le> x2" and "y1 \<le> y2"
    and "0 < fmul (fsub x2 x1) (fsub y2 y1)"
  shows "iou b b = 1"
proof -
  let ?a = "fmul (fsub x2 x1) (fsub y2 y1)"
  have pos: "0 \<le> fsub x2 x1" "0 \<le> fsub y2 y1" using assms by (simp_all add: fsub_def binary64.nonneg)
  have fa: "fl ?a = ?a" by (simp add: fmul_def binary64.rnd_idem)
  have "fadd ?a ?a = 2 * ?a" using binary64.rnd_double [of ?a] fa by (simp add: fadd_def)
  then have "fsub (fadd ?a ?a) ?a = ?a" using fa by (simp add: fsub_def)
  with assms pos show ?thesis by (simp add: iou_def Let_def fdiv_def)
qed

section \<open>What suppression keeps\<close>

lemma nms_loop_split: "\<exists>zs. nms_loop thr sel cs = sel @ zs \<and> subseq zs cs"
proof (induction cs arbitrary: sel)
  case (Cons c cs)
  show ?case
  proof (cases "list_all (compatible thr c) sel")
    case True
    from Cons [of "sel @ [c]"] obtain zs where "nms_loop thr (sel @ [c]) cs = sel @ c # zs" "subseq zs cs"
      by auto
    with True show ?thesis by (intro exI [of _ "c # zs"]) simp
  next
    case False
    from Cons [of sel] obtain zs where "nms_loop thr sel cs = sel @ zs" "subseq zs cs" by auto
    with False show ?thesis by (intro exI [of _ zs]) (simp add: list_emb_Cons)
  qed
qed simp

lemma nms_loop_keeps: "k \<in> set sel \<Longrightarrow> k \<in> set (nms_loop thr sel cs)"
  using nms_loop_split [of thr sel cs] by auto

definition pairwise_compatible :: "rat \<Rightarrow> detection list \<Rightarrow> bool" where
  "pairwise_compatible thr ds \<longleftrightarrow> (\<forall>j < length ds. \<forall>i < j. compatible thr (ds ! j) (ds ! i))"

lemma pairwise_compatible_snoc:
  "pairwise_compatible thr ds \<Longrightarrow> list_all (compatible thr c) ds \<Longrightarrow> pairwise_compatible thr (ds @ [c])"
  by (auto simp: pairwise_compatible_def nth_append list_all_length less_Suc_eq)

lemma nms_loop_compatible:
  "pairwise_compatible thr sel \<Longrightarrow> pairwise_compatible thr (nms_loop thr sel cs)"
  by (induction cs arbitrary: sel) (auto simp: pairwise_compatible_snoc)

lemma nms_loop_maximal:
  assumes "c \<in> set cs" and "c \<notin> set (nms_loop thr sel cs)"
    and "sorted (map (\<lambda>d. - confidence d) cs)" and "\<forall>k \<in> set sel. \<forall>d \<in> set cs. confidence d \<le> confidence k"
  shows "\<exists>k \<in> set (nms_loop thr sel cs). \<not> compatible thr c k \<and> confidence c \<le> confidence k"
  using assms
proof (induction cs arbitrary: sel)
  case (Cons d cs)
  let ?sel = "if list_all (compatible thr d) sel then sel @ [d] else sel"
  have ord: "\<forall>k \<in> set ?sel. \<forall>e \<in> set cs. confidence e \<le> confidence k"
    using Cons.prems(3,4) by auto
  show ?case
  proof (cases "c \<in> set cs")
    case True
    with Cons.IH [of ?sel] Cons.prems(2,3) ord show ?thesis by simp
  next
    case False
    with Cons.prems(1) have cd: "c = d" by simp
    have "\<not> list_all (compatible thr d) sel"
      using Cons.prems(2) cd nms_loop_keeps [of d "sel @ [d]" thr cs] by auto
    then obtain k where "k \<in> set sel" "\<not> compatible thr d k" by (auto simp: list_all_iff)
    with Cons.prems(4) cd nms_loop_keeps [of k sel thr "d # cs"] show ?thesis by auto
  qed
qed simp

lemma set_by_confidence [simp]: "set (by_confidence ds) = set ds"
  by (simp add: by_confidence_def)

lemma sorted_by_confidence: "sorted (map (\<lambda>d. - confidence d) (by_confidence ds))"
  by (simp add: by_confidence_def)

lemma sorted_subseq: "subseq xs ys \<Longrightarrow> sorted (map f ys) \<Longrightarrow> sorted (map f xs)"
  by (induction rule: list_emb.induct) (auto dest: list_emb_set)

section \<open>Decoded detections\<close>

lemma in_map_filter: "x \<in> set (List.map_filter f xs) \<longleftrightarrow> (\<exists>y \<in> set xs. f y = Some x)"
  by (force simp: map_filter_def)

definition sound_detection :: "rat \<Rightarrow> detection \<Rightarrow> bool" where
  "sound_detection threshold d \<longleftrightarrow>
     hazard_class (class_name d) \<and> threshold \<le> confidence d \<and> good_box (bbox d)"

lemma decode_row_sound:
  "decode_row threshold labels pixels iw ih c s = Some d \<Longrightarrow> sound_detection threshold d"
  by (auto simp: decode_row_def sound_detection_def good_box_def Let_def not_less not_le
           split: if_splits prod.splits)

lemma ssd_row_sound:
  "ssd_row threshold labels zb score cls box = Inr (Some d) \<Longrightarrow> sound_detection threshold d"
  by (auto simp: ssd_row_def sound_detection_def good_box_def Let_def not_less not_le
           split: if_splits list.splits)

lemma collect_Ok: "collect rs = Inr xs \<Longrightarrow> x \<in> set xs \<Longrightarrow> Inr (Some x) \<in> set rs"
  by (induction rs arbitrary: xs rule: collect.induct) (auto simp: rbind_Ok split: option.splits)

lemma class_aware_nms_subset: "set (class_aware_nms cands thr) \<subseteq> set cands"
proof -
  have "subseq (class_aware_nms cands thr) (by_confidence cands)"
    using nms_loop_split [of thr "[]" "by_confidence cands"] by (auto simp: class_aware_nms_def)
  from list_emb_set [OF this] have "set (class_aware_nms cands thr) \<subseteq> set (by_confidence cands)"
    by blast
  then show ?thesis by simp
qed

lemma decode_yolo_rows_sound:
  assumes "d \<in> set (decode_yolo_rows threshold labels pixels iw ih rows)"
  shows "sound_detection threshold d"
proof -
  from assms have "d \<in> set (List.map_filter
      (\<lambda>(c, s). decode_row threshold labels pixels iw ih c s) rows)"
    unfolding decode_yolo_rows_def by (rule subsetD [OF class_aware_nms_subset])
  then show ?thesis by (auto simp: in_map_filter dest: decode_row_sound)
qed

lemma decode_yolo_v8_sound:
  "decode_yolo_v8 threshold labels pixels iw ih rank s0 s1 m = Ok ds \<Longrightarrow> d \<in> set ds
   \<Longrightarrow> sound_detection threshold d"
  by (auto simp: decode_yolo_v8_def Let_def split: if_splits intro: decode_yolo_rows_sound)

lemma decode_ssd_sound:
  "decode_ssd threshold labels zero_based count scores classes boxes = Inr ds \<Longrightarrow> d \<in> set ds
   \<Longrightarrow> sound_detection threshold d"
  unfolding decode_ssd_def by (drule (1) collect_Ok) (auto intro: ssd_row_sound [OF sym])

section \<open>Properties\<close>

text \<open>
  Intersection over union is a ratio: on boxes whose corners are ordered it lies in
  [0, 1] in the rounded arithmetic the code runs on, it does not depend on the order of the
  boxes, and a box whose area does not underflow has overlap exactly 1 with itself.
\<close>

theorem iou_ratio:
  assumes "weak_box l" and "weak_box r"
  shows "0 \<le> iou l r \<and> iou l r \<le> 1 \<and> iou l r = iou r l
     \<and> (case l of (x1, y1, x2, y2) \<Rightarrow> fmul (fsub x2 x1) (fsub y2 y1) = 0 \<or> iou l l = 1)"
proof -
  obtain x1 y1 x2 y2 where l: "l = (x1, y1, x2, y2)" by (cases l)
  with assms(1) have o: "x1 \<le> x2" "y1 \<le> y2" by (simp_all add: weak_box_def)
  then have "0 \<le> fmul (fsub x2 x1) (fsub y2 y1)" by (simp add: fmul_def fsub_def binary64.nonneg)
  then have "fmul (fsub x2 x1) (fsub y2 y1) = 0 \<or> iou l l = 1"
    using iou_self [OF l o] by linarith
  with l iou_bounds [OF assms] iou_commute show ?thesis by simp
qed

theorem iou_ratio_witness:
  "0 \<le> iou (1/10, 1/10, 5/10, 5/10) (2/10, 2/10, 6/10, 6/10)
   \<and> iou (1/10, 1/10, 5/10, 5/10) (2/10, 2/10, 6/10, 6/10) \<le> 1"
  using iou_ratio [of "(1/10, 1/10, 5/10, 5/10)" "(2/10, 2/10, 6/10, 6/10)"]
  by (simp add: weak_box_def)

text \<open>
  C26. Non-maximum suppression: the result is a subsequence of the candidates in order of
  decreasing confidence, any two of its members have different classes or overlap at most
  the threshold, and every candidate left out has the class of a kept one of at least its
  confidence that it overlaps more than that.
\<close>

theorem nms_correct:
  "subseq (class_aware_nms cands thr) (by_confidence cands)
   \<and> sorted (map (\<lambda>d. - confidence d) (class_aware_nms cands thr))
   \<and> pairwise_compatible thr (class_aware_nms cands thr)
   \<and> (\<forall>c \<in> set cands. c \<in> set (class_aware_nms cands thr)
        \<or> (\<exists>k \<in> set (class_aware_nms cands thr).
              class_id c = class_id k \<and> thr < iou (bbox c) (bbox k) \<and> confidence c \<le> confidence k))"
proof -
  have sub: "subseq (class_aware_nms cands thr) (by_confidence cands)"
    using nms_loop_split [of thr "[]" "by_confidence cands"] by (auto simp: class_aware_nms_def)
  have "pairwise_compatible thr (class_aware_nms cands thr)"
    unfolding class_aware_nms_def by (rule nms_loop_compatible) (simp add: pairwise_compatible_def)
  moreover have "c \<in> set (class_aware_nms cands thr)
      \<or> (\<exists>k \<in> set (class_aware_nms cands thr). \<not> compatible thr c k \<and> confidence c \<le> confidence k)"
    if "c \<in> set cands" for c
    using nms_loop_maximal [of c "by_confidence cands" thr "[]"] that sorted_by_confidence
    by (auto simp: class_aware_nms_def)
  ultimately show ?thesis
    using sub sorted_subseq [OF sub sorted_by_confidence] unfolding compatible_def not_le de_Morgan_disj not_not
    by blast
qed

definition overlapping :: "detection list" where
  "overlapping =
    [\<lparr>class_name = ''fire'', class_id = 0, confidence = 8/10, bbox = (1/8, 1/8, 5/8, 5/8)\<rparr>,
     \<lparr>class_name = ''fire'', class_id = 0, confidence = 9/10, bbox = (1/8, 1/8, 5/8, 6/8)\<rparr>,
     \<lparr>class_name = ''smoke'', class_id = 1, confidence = 7/10, bbox = (1/8, 1/8, 5/8, 5/8)\<rparr>]"

theorem nms_correct_witness:
  "pairwise_compatible (1/2) (class_aware_nms overlapping (1/2))
   \<and> (hd overlapping \<in> set (class_aware_nms overlapping (1/2))
      \<or> (\<exists>k \<in> set (class_aware_nms overlapping (1/2)).
            class_id k = 0 \<and> 1/2 < iou (1/8, 1/8, 5/8, 5/8) (bbox k) \<and> 8/10 \<le> confidence k))"
proof -
  have "hd overlapping \<in> set overlapping" by (simp add: overlapping_def)
  with nms_correct [of overlapping "1/2"] show ?thesis by (fastforce simp: overlapping_def)
qed

text \<open>
  What the decoders hand to the verifier: every detection, from either decoder, is of
  class fire or smoke, reaches the threshold, and has a proper box inside the unit square.
\<close>

theorem decoded_detections_sound:
  assumes "decode_yolo_v8 threshold labels pixels iw ih rank s0 s1 m = Ok ds \<and> d \<in> set ds
         \<or> decode_ssd threshold labels zero_based count scores classes boxes = Ok ds \<and> d \<in> set ds"
  shows "hazard_class (class_name d) \<and> threshold \<le> confidence d \<and> good_box (bbox d)"
proof -
  from assms have "sound_detection threshold d"
    by (auto dest: decode_yolo_v8_sound decode_ssd_sound)
  then show ?thesis by (simp add: sound_detection_def)
qed

definition one_box :: detection where
  "one_box = \<lparr>class_name = ''smoke'', class_id = 1, confidence = 3/4, bbox = (0, 0, 1, 1/2)\<rparr>"

lemma one_box_decoded:
  "decode_ssd (1/2) [(0, ''fire''), (1, ''smoke'')] True 1 [3/4] [1] [[0, 0, 1/2, 2]] = Ok [one_box]"
  by (simp add: decode_ssd_def ssd_row_def Let_def label_of_def hazard_class_def one_box_def upt_rec)

theorem decoded_detections_sound_witness:
  "hazard_class (class_name one_box) \<and> 1/2 \<le> confidence one_box \<and> good_box (bbox one_box)"
  using decoded_detections_sound [OF disjI2, OF conjI [OF one_box_decoded]] by simp

end
