(* ===== verification/Json.thy ===== *)
theory Json
  imports Binary64 "HOL-Library.AList"
begin

text \<open>
  The values \<open>json.loads\<close> returns and \<open>json.dumps\<close> takes, and the operations of
  Python's dictionaries the backend applies to them. A dictionary is the association list of
  its items in insertion order with distinct keys; an assignment to a key that is there
  keeps its place. Floats are rationals (theory Binary64), so NaN and the infinities are
  outside the model.
\<close>

datatype json =
  JNull | JBool bool | JInt int | JNum rat | JStr string | JArr "json list"
| JObj "(string \<times> json) list"

type_synonym dict = "(string \<times> json) list"

text \<open>\<open>d.get(k)\<close>, \<open>d.get(k, default)\<close>, \<open>k in d\<close>, \<open>d.pop(k, None)\<close> and \<open>{**d, k: v}\<close>.\<close>

definition get :: "dict \<Rightarrow> string \<Rightarrow> json option" where
  "get d k = map_of d k"

definition get_default :: "dict \<Rightarrow> string \<Rightarrow> json \<Rightarrow> json" where
  "get_default d k v = (case map_of d k of None \<Rightarrow> v | Some x \<Rightarrow> x)"

definition has_key :: "dict \<Rightarrow> string \<Rightarrow> bool" where
  "has_key d k \<longleftrightarrow> map_of d k \<noteq> None"

definition pop :: "string \<Rightarrow> dict \<Rightarrow> dict" where
  "pop k d = filter (\<lambda>p. fst p \<noteq> k) d"

definition set_key :: "string \<Rightarrow> json \<Rightarrow> dict \<Rightarrow> dict" where
  "set_key k v d = AList.update k v d"

text \<open>\<open>bool(v)\<close>.\<close>

fun truthy :: "json \<Rightarrow> bool" where
  "truthy JNull = False"
| "truthy (JBool b) = b"
| "truthy (JInt i) = (i \<noteq> 0)"
| "truthy (JNum x) = (x \<noteq> 0)"
| "truthy (JStr s) = (s \<noteq> [])"
| "truthy (JArr xs) = (xs \<noteq> [])"
| "truthy (JObj d) = (d \<noteq> [])"

text \<open>
  \<open>str(v)\<close>. The text of a float, list or dictionary is left to the argument \<open>repr\<close>: no
  claim depends on it.
\<close>

fun py_str :: "(json \<Rightarrow> string) \<Rightarrow> json \<Rightarrow> string" where
  "py_str repr (JStr s) = s"
| "py_str repr (JInt i) = str_int i"
| "py_str repr (JBool b) = (if b then ''True'' else ''False'')"
| "py_str repr JNull = ''None''"
| "py_str repr v = repr v"

lemma get_set_key [simp]: "get (set_key k v d) k' = (if k' = k then Some v else get d k')"
  by (simp add: get_def set_key_def update_conv')

lemma get_pop [simp]: "get (pop k d) k' = (if k' = k then None else get d k')"
  by (induction d) (auto simp: get_def pop_def)

lemma get_Cons [simp]: "get ((k, v) # d) k' = (if k' = k then Some v else get d k')"
  by (simp add: get_def)

lemma get_Nil [simp]: "get [] k = None"
  by (simp add: get_def)

lemma has_key_get: "has_key d k \<longleftrightarrow> (\<exists>v. get d k = Some v)"
  by (auto simp: has_key_def get_def)

end
