(* ===== verification/Tables.thy ===== *)
theory Tables
  imports Prelude
begin

text \<open>
  Tables of the SQLite database as lists of rows in rowid order. The three statements the
  backend uses on a table with a primary key are generic here: \<open>SELECT \<dots> WHERE key = k\<close>,
  \<open>UPDATE \<dots> WHERE\<close>, and \<open>INSERT \<dots> ON CONFLICT(key) DO UPDATE\<close>, whose merge of the
  stored row with the excluded one is an argument. The locale \<open>keyed_table\<close> states what a
  merge owes the table, and its lemmas are used through one interpretation per table.
\<close>

definition find_row :: "('r \<Rightarrow> 'k) \<Rightarrow> 'k \<Rightarrow> 'r list \<Rightarrow> 'r option" where
  "find_row key k rows = List.find (\<lambda>r. key r = k) rows"

definition update_where :: "('r \<Rightarrow> bool) \<Rightarrow> ('r \<Rightarrow> 'r) \<Rightarrow> 'r list \<Rightarrow> 'r list" where
  "update_where P f rows = map (\<lambda>r. if P r then f r else r) rows"

definition upsert :: "('r \<Rightarrow> 'k) \<Rightarrow> ('r \<Rightarrow> 'r \<Rightarrow> 'r) \<Rightarrow> 'r \<Rightarrow> 'r list \<Rightarrow> 'r list" where
  "upsert key merge new rows =
     (if find_row key (key new) rows = None then rows @ [new]
      else update_where (\<lambda>r. key r = key new) (\<lambda>r. merge r new) rows)"

lemma find_row_Nil [simp]: "find_row key k [] = None"
  by (simp add: find_row_def)

lemma find_row_Cons [simp]:
  "find_row key k (r # rows) = (if key r = k then Some r else find_row key k rows)"
  by (simp add: find_row_def)

lemma find_row_append:
  "find_row key k (xs @ ys) = (case find_row key k xs of None \<Rightarrow> find_row key k ys | Some r \<Rightarrow> Some r)"
  by (induction xs) auto

lemma find_row_Some: "find_row key k rows = Some r \<Longrightarrow> r \<in> set rows \<and> key r = k"
  by (induction rows) (auto split: if_splits)

lemma find_row_None: "find_row key k rows = None \<longleftrightarrow> k \<notin> key ` set rows"
  by (induction rows) auto

lemma find_row_mem: "distinct (map key rows) \<Longrightarrow> r \<in> set rows \<Longrightarrow> find_row key (key r) rows = Some r"
  by (induction rows) (auto simp: image_iff)

lemma update_where_Nil [simp]: "update_where P f [] = []"
  by (simp add: update_where_def)

lemma update_where_Cons [simp]:
  "update_where P f (r # rows) = (if P r then f r else r) # update_where P f rows"
  by (simp add: update_where_def)

lemma length_update_where [simp]: "length (update_where P f rows) = length rows"
  by (simp add: update_where_def)

lemma set_update_where: "set (update_where P f rows) = (\<lambda>r. if P r then f r else r) ` set rows"
  by (simp add: update_where_def)

lemma map_update_where:
  "(\<And>r. P r \<Longrightarrow> g (f r) = g r) \<Longrightarrow> map g (update_where P f rows) = map g rows"
  by (simp add: update_where_def)

lemma find_row_update_where:
  assumes "\<And>r. key (f r) = key r"
  shows "find_row key k (update_where (\<lambda>r. key r = k') f rows)
       = (if k = k' then map_option f (find_row key k rows) else find_row key k rows)"
  by (induction rows) (auto simp: assms)

lemma update_where_id: "(\<And>r. r \<in> set rows \<Longrightarrow> \<not> P r) \<Longrightarrow> update_where P f rows = rows"
  by (simp add: update_where_def map_idI)

locale keyed_table =
  fixes key :: "'r \<Rightarrow> 'k" and merge :: "'r \<Rightarrow> 'r \<Rightarrow> 'r"
  assumes merge_key: "key (merge old new) = key old"
begin

lemma keys_upsert:
  "map key (upsert key merge new rows)
   = (if key new \<in> key ` set rows then map key rows else map key rows @ [key new])"
  by (auto simp: upsert_def find_row_None merge_key intro!: map_update_where)

lemma distinct_upsert:
  "distinct (map key rows) \<Longrightarrow> distinct (map key (upsert key merge new rows))"
  by (simp add: keys_upsert image_iff)

lemma find_upsert:
  "find_row key k (upsert key merge new rows)
   = (if k = key new
      then Some (case find_row key k rows of None \<Rightarrow> new | Some old \<Rightarrow> merge old new)
      else find_row key k rows)"
  by (auto simp: upsert_def find_row_append find_row_update_where merge_key split: option.splits)

lemma length_upsert:
  "length rows \<le> length (upsert key merge new rows)"
  by (simp add: upsert_def)

lemma keys_mono: "key ` set rows \<subseteq> key ` set (upsert key merge new rows)"
proof -
  have "set (map key rows) \<subseteq> set (map key (upsert key merge new rows))"
    by (auto simp: keys_upsert)
  then show ?thesis by simp
qed

end

text \<open>Rows numbered by \<open>AUTOINCREMENT\<close>: ids grow in rowid order and never repeat.\<close>

definition numbered :: "('r \<Rightarrow> int) \<Rightarrow> int \<Rightarrow> 'r list \<Rightarrow> bool" where
  "numbered rid n rows \<longleftrightarrow> sorted_wrt (<) (map rid rows) \<and> (\<forall>r \<in> set rows. 0 < rid r \<and> rid r \<le> n)"

lemma numbered_Nil [simp]: "numbered rid n []"
  by (simp add: numbered_def)

lemma numbered_snoc:
  "numbered rid n rows \<Longrightarrow> 0 \<le> n \<Longrightarrow> rid r = n + 1 \<Longrightarrow> numbered rid (n + 1) (rows @ [r])"
  by (fastforce simp: numbered_def sorted_wrt_append)

lemma numbered_update_where:
  "numbered rid n rows \<Longrightarrow> (\<And>r. rid (f r) = rid r) \<Longrightarrow> numbered rid n (update_where P f rows)"
  by (auto simp: numbered_def map_update_where set_update_where)

lemma numbered_distinct: "numbered rid n rows \<Longrightarrow> distinct (map rid rows)"
  by (simp add: numbered_def strict_sorted_iff)

end
