(* ===== verification/Database.thy ===== *)
theory Database
  imports Json Tables
begin

text \<open>
  The store of the backend, \<^verbatim>\<open>Database\<close> of \<^verbatim>\<open>src/backend/app/database.py\<close>: five tables
  and one function per method. Every write runs in \<open>tx\<close>, the method \<^verbatim>\<open>_tx\<close>, which
  restores the tables when its body raises. Clock readings (\<open>utc_now()\<close>) are arguments, in
  microseconds: the ISO texts the code stores order and compare as the times they show. The
  model starts after \<^verbatim>\<open>initialize\<close>.
\<close>

section \<open>Tables\<close>

type_synonym time = int

record device_row =
  device_id :: string
  boot_id :: json
  software_version :: json
  connected :: bool
  connected_at :: "time option"
  disconnected_at :: "time option"
  last_seen_at :: time
  capabilities :: json
  health :: json

datatype call_status = REQUESTED | INITIATED | UNKNOWN | CONNECTED | COMPLETED | FAILED

record incident =
  incident_id :: string
  inc_device_id :: string
  inc_boot_id :: json
  hazard_state :: hazard_state
  response_state :: response_state
  first_detection_monotonic_ns :: "int option"
  updated_monotonic_ns :: "int option"
  first_detected_at :: "time option"
  confirmed_at :: "time option"
  resolved_at :: "time option"
  first_zone :: "string option"
  current_zone :: "string option"
  peak_fire_confidence :: rat
  peak_smoke_confidence :: rat
  max_growth_percent :: "rat option"
  smoke_first :: "bool option"
  smoke_to_fire_delay_seconds :: "rat option"
  seconds_persistent :: rat
  occupant_visible :: "bool option"
  occupant_response :: "string option"
  call_status :: "call_status option"
  call_conversation_id :: "string option"
  call_sid :: "string option"
  primary_fire_bbox :: "rat list option"
  primary_smoke_bbox :: "rat list option"
  evidence_path :: "string option"
  camera_health :: string
  inference_health :: string
  created_at :: time
  updated_at :: time

record event =
  event_id :: int
  event_incident :: string
  event_type :: string
  source :: string
  device_monotonic_ns :: "int option"
  occurred_at :: json
  received_at :: time
  payload :: json

record attempt =
  attempt_id :: int
  attempt_incident :: string
  destination_hash :: string
  status :: call_status
  provider_conversation_id :: "string option"
  provider_call_sid :: "string option"
  requested_at :: time
  attempt_updated_at :: time
  error_code :: "string option"
  error_message_safe :: "string option"

record configuration =
  config_key :: string
  version :: int
  config_value :: json
  config_updated_at :: time

record database =
  devices :: "device_row list"
  incidents :: "incident list"
  events :: "event list"
  event_seq :: int
  attempts :: "attempt list"
  attempt_seq :: int
  configurations :: "configuration list"

definition empty_db :: database where
  "empty_db = \<lparr>devices = [], incidents = [], events = [], event_seq = 0, attempts = [],
     attempt_seq = 0, configurations = []\<rparr>"

section \<open>Transactions\<close>

datatype policy =
  PolicyIncidentNotFound | NotVisuallyConfirmed | IncidentCancelled | MaxCallsReached
| GlobalCallCooldown

datatype db_error =
  IncidentNotFound | CallPolicy policy | AttemptNotFound | VersionMustIncrease
| ForeignKeyViolation | NotNullViolation | BindingError | UnmappedStatus

type_synonym 'a action = "database \<Rightarrow> (db_error, 'a) result \<times> database"

text \<open>\<^verbatim>\<open>_tx\<close>: commit when the body returns, rollback and re-raise when it raises.\<close>

definition tx :: "'a action \<Rightarrow> 'a action" where
  "tx body db = (case body db of (Inr x, db') \<Rightarrow> (Ok x, db') | (Inl e, db') \<Rightarrow> (Err e, db))"

text \<open>
  What can be bound to a parameter of a statement: texts, floats, NULL and integers of 64 bits;
  \<open>sqlite3\<close> refuses lists, dictionaries and longer integers.
\<close>

definition sqlite_int :: "int \<Rightarrow> bool" where
  "sqlite_int i \<longleftrightarrow> - (2 ^ 63) \<le> i \<and> i < 2 ^ 63"

fun bindable :: "json \<Rightarrow> bool" where
  "bindable (JInt i) = sqlite_int i"
| "bindable (JArr xs) = False"
| "bindable (JObj d) = False"
| "bindable _ = True"

section \<open>Devices\<close>

text \<open>
  The fields of HELLO the store keeps. \<open>device_id\<close> has been compared with the expected
  name; the others are whatever JSON the device sent.
\<close>

record hello =
  hello_device_id :: string
  hello_boot_id :: json
  hello_software_version :: json
  hello_capabilities :: json

definition merge_device :: "device_row \<Rightarrow> device_row \<Rightarrow> device_row" where
  "merge_device old excluded = old\<lparr>boot_id := boot_id excluded,
     software_version := software_version excluded, connected := connected excluded,
     connected_at := connected_at excluded, disconnected_at := None,
     last_seen_at := last_seen_at excluded, capabilities := capabilities excluded\<rparr>"

definition new_device :: "time \<Rightarrow> hello \<Rightarrow> bool \<Rightarrow> device_row" where
  "new_device now hello conn =
     \<lparr>device_id = hello_device_id hello, boot_id = hello_boot_id hello,
      software_version = hello_software_version hello, connected = conn,
      connected_at = Some now, disconnected_at = None, last_seen_at = now,
      capabilities = hello_capabilities hello, health = JObj []\<rparr>"

definition upsert_device :: "time \<Rightarrow> hello \<Rightarrow> bool \<Rightarrow> unit action" where
  "upsert_device now hello conn = tx (\<lambda>db.
     if \<not> bindable (hello_boot_id hello) \<or> \<not> bindable (hello_software_version hello)
       then (Err BindingError, db)
     else if hello_boot_id hello = JNull \<or> hello_software_version hello = JNull
       then (Err NotNullViolation, db)
     else (Ok (), db\<lparr>devices := upsert device_id merge_device (new_device now hello conn) (devices db)\<rparr>))"

text \<open>
  \<open>boot_id=?\<close> compares in the TEXT column \<^verbatim>\<open>boot_id\<close>: a whole number or a Boolean is its digits there,
  so \<open>3\<close> equals \<open>''3''\<close>; a null equals nothing. The text of a number that is not whole is left to
  SQLite and compares as the number.
\<close>

fun text_value :: "json \<Rightarrow> json" where
  "text_value (JInt i) = JStr (str_int i)"
| "text_value (JBool b) = JStr (if b then ''1'' else ''0'')"
| "text_value v = v"

definition same_text :: "json \<Rightarrow> json \<Rightarrow> bool" where
  "same_text a b \<longleftrightarrow> a \<noteq> JNull \<and> text_value a = text_value b"

definition mark_device_disconnected :: "time \<Rightarrow> string \<Rightarrow> json \<Rightarrow> unit action" where
  "mark_device_disconnected now dev boot = tx (\<lambda>db. (Ok (),
     db\<lparr>devices := update_where (\<lambda>d. device_id d = dev \<and> same_text (boot_id d) boot)
       (\<lambda>d. d\<lparr>connected := False, disconnected_at := Some now, last_seen_at := now\<rparr>)
       (devices db)\<rparr>))"

definition update_health :: "time \<Rightarrow> string \<Rightarrow> json \<Rightarrow> unit action" where
  "update_health now dev h = tx (\<lambda>db. (Ok (),
     db\<lparr>devices := update_where (\<lambda>d. device_id d = dev)
       (\<lambda>d. d\<lparr>health := h, last_seen_at := now\<rparr>) (devices db)\<rparr>))"

definition get_device :: "string \<Rightarrow> database \<Rightarrow> device_row option" where
  "get_device dev db = find_row device_id dev (devices db)"

text \<open>Text columns compare byte by byte.\<close>

fun str_le :: "string \<Rightarrow> string \<Rightarrow> bool" where
  "str_le [] _ = True"
| "str_le (c # cs) [] = False"
| "str_le (c # cs) (d # ds) =
     ((of_char c :: nat) < of_char d \<or> of_char c = (of_char d :: nat) \<and> str_le cs ds)"

fun insert_device :: "device_row \<Rightarrow> device_row list \<Rightarrow> device_row list" where
  "insert_device d [] = [d]"
| "insert_device d (e # es) =
     (if str_le (device_id d) (device_id e) then d # e # es else e # insert_device d es)"

definition list_devices :: "database \<Rightarrow> device_row list" where
  "list_devices db = foldr insert_device (devices db) []"

section \<open>Incidents\<close>

text \<open>\<^verbatim>\<open>IncidentUpdate\<close> of \<^verbatim>\<open>models.py\<close>, after validation.\<close>

record incident_update =
  u_incident_id :: string
  u_device_id :: "string option"
  u_boot_id :: "string option"
  u_hazard_state :: hazard_state
  u_response_state :: response_state
  u_first_detection_monotonic_ns :: int
  u_updated_monotonic_ns :: int
  u_fire_confidence :: rat
  u_smoke_confidence :: rat
  u_seconds_persistent :: rat
  u_first_zone :: string
  u_current_zone :: string
  u_primary_fire_bbox :: "rat list option"
  u_primary_smoke_bbox :: "rat list option"
  u_fire_region_growth_percent :: "rat option"
  u_smoke_first :: "bool option"
  u_smoke_to_fire_delay_seconds :: "rat option"
  u_occupant_visible :: "bool option"
  u_camera_health :: string
  u_inference_health :: string

text \<open>\<open>a or b\<close> on an optional string, and \<open>_json(x) if x else None\<close> on a list.\<close>

definition or_default :: "string option \<Rightarrow> string \<Rightarrow> string" where
  "or_default a b = (case a of None \<Rightarrow> b | Some s \<Rightarrow> if s = [] then b else s)"

definition nonempty :: "'a list option \<Rightarrow> 'a list option" where
  "nonempty a = (case a of None \<Rightarrow> None | Some xs \<Rightarrow> if xs = [] then None else Some xs)"

definition coalesce :: "'a option \<Rightarrow> 'a option \<Rightarrow> 'a option" where
  "coalesce a b = (case a of None \<Rightarrow> b | Some x \<Rightarrow> Some x)"

text \<open>SQLite's \<open>MAX(a, b)\<close> is NULL when one of its arguments is; the CASE of the growth is not.\<close>

definition sql_max :: "('a::linorder) option \<Rightarrow> 'a option \<Rightarrow> 'a option" where
  "sql_max a b = (case (a, b) of (Some x, Some y) \<Rightarrow> Some (max x y) | _ \<Rightarrow> None)"

definition max_known :: "('a::linorder) option \<Rightarrow> 'a option \<Rightarrow> 'a option" where
  "max_known a b = (case b of None \<Rightarrow> a | Some y \<Rightarrow> (case a of None \<Rightarrow> b | Some x \<Rightarrow> Some (max x y)))"

definition response_guarded :: "response_state \<Rightarrow> bool" where
  "response_guarded r \<longleftrightarrow> r \<in> {CANCELLED, ESCALATING, CALL_REQUESTED, CALL_INITIATED,
     CALL_CONNECTED, CALL_COMPLETED, CALL_FAILED}"

definition new_incident :: "time \<Rightarrow> incident_update \<Rightarrow> string \<Rightarrow> json \<Rightarrow> incident" where
  "new_incident now u default_device boot =
     \<lparr>incident_id = u_incident_id u, inc_device_id = or_default (u_device_id u) default_device,
      inc_boot_id = (case u_boot_id u of Some (c # cs) \<Rightarrow> JStr (c # cs) | _ \<Rightarrow> boot), hazard_state = u_hazard_state u,
      response_state = u_response_state u,
      first_detection_monotonic_ns = Some (u_first_detection_monotonic_ns u),
      updated_monotonic_ns = Some (u_updated_monotonic_ns u), first_detected_at = Some now,
      confirmed_at = (if u_hazard_state u = CONFIRMED then Some now else None),
      resolved_at = (if u_hazard_state u = RESOLVED then Some now else None),
      first_zone = Some (u_first_zone u), current_zone = Some (u_current_zone u),
      peak_fire_confidence = u_fire_confidence u, peak_smoke_confidence = u_smoke_confidence u,
      max_growth_percent = u_fire_region_growth_percent u, smoke_first = u_smoke_first u,
      smoke_to_fire_delay_seconds = u_smoke_to_fire_delay_seconds u,
      seconds_persistent = u_seconds_persistent u, occupant_visible = u_occupant_visible u,
      occupant_response = None, call_status = None, call_conversation_id = None, call_sid = None,
      primary_fire_bbox = nonempty (u_primary_fire_bbox u),
      primary_smoke_bbox = nonempty (u_primary_smoke_bbox u), evidence_path = None,
      camera_health = u_camera_health u, inference_health = u_inference_health u,
      created_at = now, updated_at = now\<rparr>"

definition merge_incident :: "incident \<Rightarrow> incident \<Rightarrow> incident" where
  "merge_incident old excluded = old\<lparr>
     hazard_state := hazard_state excluded,
     response_state := (if response_guarded (response_state old) then response_state old
                        else response_state excluded),
     updated_monotonic_ns := sql_max (updated_monotonic_ns old) (updated_monotonic_ns excluded),
     confirmed_at := coalesce (confirmed_at old) (confirmed_at excluded),
     resolved_at := coalesce (resolved_at excluded) (resolved_at old),
     current_zone := current_zone excluded,
     peak_fire_confidence := max (peak_fire_confidence old) (peak_fire_confidence excluded),
     peak_smoke_confidence := max (peak_smoke_confidence old) (peak_smoke_confidence excluded),
     max_growth_percent := max_known (max_growth_percent old) (max_growth_percent excluded),
     smoke_first := coalesce (smoke_first old) (smoke_first excluded),
     smoke_to_fire_delay_seconds :=
       coalesce (smoke_to_fire_delay_seconds old) (smoke_to_fire_delay_seconds excluded),
     seconds_persistent := max (seconds_persistent old) (seconds_persistent excluded),
     occupant_visible := coalesce (occupant_visible excluded) (occupant_visible old),
     primary_fire_bbox := coalesce (primary_fire_bbox excluded) (primary_fire_bbox old),
     primary_smoke_bbox := coalesce (primary_smoke_bbox excluded) (primary_smoke_bbox old),
     camera_health := camera_health excluded,
     inference_health := inference_health excluded,
     updated_at := updated_at excluded\<rparr>"

definition upsert_incident :: "time \<Rightarrow> incident_update \<Rightarrow> string \<Rightarrow> json \<Rightarrow> unit action" where
  "upsert_incident now u default_device boot = tx (\<lambda>db.
     if \<not> sqlite_int (u_first_detection_monotonic_ns u) \<or> \<not> sqlite_int (u_updated_monotonic_ns u)
       then (Err BindingError, db)
     else (Ok (), db\<lparr>incidents := upsert incident_id merge_incident
                       (new_incident now u default_device boot) (incidents db)\<rparr>))"

definition get_incident :: "string \<Rightarrow> database \<Rightarrow> incident option" where
  "get_incident i db = find_row incident_id i (incidents db)"

text \<open>\<open>ORDER BY updated_at DESC LIMIT n\<close>; rows with equal times keep their table order.\<close>

definition list_incidents :: "nat \<Rightarrow> database \<Rightarrow> incident list" where
  "list_incidents n db = take n (sort_key (\<lambda>i. - updated_at i) (incidents db))"

definition set_incident :: "string \<Rightarrow> (incident \<Rightarrow> incident) \<Rightarrow> database \<Rightarrow> database" where
  "set_incident i f db = db\<lparr>incidents := update_where (\<lambda>r. incident_id r = i) f (incidents db)\<rparr>"

text \<open>
  \<^verbatim>\<open>update_incident_response\<close> reads the clock twice when it sets the hazard state: \<open>t1\<close>
  for the resolution time and \<open>t2\<close> for the update time; otherwise once, \<open>t2\<close>. The row is
  read back after the commit.
\<close>

definition update_incident_response ::
  "time \<Rightarrow> time \<Rightarrow> string \<Rightarrow> response_state \<Rightarrow> string option \<Rightarrow> hazard_state option \<Rightarrow> incident action"
  where
  "update_incident_response t1 t2 i rs occ hz db =
     (if get_incident i db = None then (Err IncidentNotFound, db)
      else case tx (\<lambda>db. (Ok (), case hz of
             Some h \<Rightarrow> set_incident i (\<lambda>r. r\<lparr>response_state := rs, occupant_response := occ,
                 hazard_state := h, resolved_at := (if h = RESOLVED then Some t1 else resolved_at r),
                 updated_at := t2\<rparr>) db
           | None \<Rightarrow> set_incident i (\<lambda>r. r\<lparr>response_state := rs,
                 occupant_response := coalesce occ (occupant_response r), updated_at := t2\<rparr>) db)) db
         of (Inl e, db') \<Rightarrow> (Err e, db')
          | (Inr _, db') \<Rightarrow> (case get_incident i db' of
                None \<Rightarrow> (Err IncidentNotFound, db') | Some r \<Rightarrow> (Ok r, db')))"

section \<open>Timeline events\<close>

text \<open>
  The foreign key is enforced, so an event needs its incident. The row inserted is the row
  read back by its id.
\<close>

definition add_event ::
  "time \<Rightarrow> string \<Rightarrow> string \<Rightarrow> string \<Rightarrow> json \<Rightarrow> int option \<Rightarrow> json \<Rightarrow> event action" where
  "add_event now i ty src pl ns occurred = tx (\<lambda>db.
     if (case ns of None \<Rightarrow> False | Some n \<Rightarrow> \<not> sqlite_int n) \<or> \<not> bindable occurred
       then (Err BindingError, db)
     else if get_incident i db = None then (Err ForeignKeyViolation, db)
     else let e = \<lparr>event_id = event_seq db + 1, event_incident = i, event_type = take 80 ty,
                   source = take 40 src, device_monotonic_ns = ns, occurred_at = occurred,
                   received_at = now, payload = pl\<rparr>
          in (Ok e, db\<lparr>events := events db @ [e], event_seq := event_seq db + 1\<rparr>))"

definition list_events :: "string \<Rightarrow> database \<Rightarrow> event list" where
  "list_events i db = filter (\<lambda>e. event_incident e = i) (events db)"

section \<open>Call attempts\<close>

definition active :: "call_status \<Rightarrow> bool" where
  "active s \<longleftrightarrow> s \<in> {REQUESTED, INITIATED, UNKNOWN, CONNECTED, COMPLETED}"

definition active_count :: "string \<Rightarrow> database \<Rightarrow> int" where
  "active_count i db = int (length (filter (\<lambda>a. attempt_incident a = i \<and> active (status a)) (attempts db)))"

text \<open>\<open>ORDER BY requested_at DESC LIMIT 1\<close>.\<close>

definition latest_request :: "database \<Rightarrow> time option" where
  "latest_request db = (case map requested_at (filter (\<lambda>a. active (status a)) (attempts db)) of
     [] \<Rightarrow> None | t # ts \<Rightarrow> Some (foldl max t ts))"

definition reserve_call_attempt :: "time \<Rightarrow> string \<Rightarrow> string \<Rightarrow> int \<Rightarrow> int \<Rightarrow> int action" where
  "reserve_call_attempt now i dest cooldown max_calls = tx (\<lambda>db.
     case get_incident i db of
       None \<Rightarrow> (Err (CallPolicy PolicyIncidentNotFound), db)
     | Some r \<Rightarrow>
         if confirmed_at r = None then (Err (CallPolicy NotVisuallyConfirmed), db)
         else if response_state r = CANCELLED then (Err (CallPolicy IncidentCancelled), db)
         else if max_calls \<le> active_count i db then (Err (CallPolicy MaxCallsReached), db)
         else if (case latest_request db of None \<Rightarrow> False | Some t \<Rightarrow> t + cooldown * 1000000 > now)
           then (Err (CallPolicy GlobalCallCooldown), db)
         else let n = attempt_seq db + 1;
                  a = \<lparr>attempt_id = n, attempt_incident = i, destination_hash = dest,
                       status = REQUESTED, provider_conversation_id = None,
                       provider_call_sid = None, requested_at = now, attempt_updated_at = now,
                       error_code = None, error_message_safe = None\<rparr>;
                  db = db\<lparr>attempts := attempts db @ [a], attempt_seq := n\<rparr>
              in (Ok n, set_incident i (\<lambda>r. r\<lparr>response_state := CALL_REQUESTED,
                    call_status := Some REQUESTED, updated_at := now\<rparr>) db))"

text \<open>The dictionary \<open>mapping\<close>; a status it lacks is a \<open>KeyError\<close>.\<close>

fun response_of :: "call_status \<Rightarrow> response_state option" where
  "response_of INITIATED = Some CALL_INITIATED"
| "response_of UNKNOWN = Some CALL_INITIATED"
| "response_of CONNECTED = Some CALL_CONNECTED"
| "response_of COMPLETED = Some CALL_COMPLETED"
| "response_of FAILED = Some CALL_FAILED"
| "response_of REQUESTED = None"

definition get_attempt :: "int \<Rightarrow> database \<Rightarrow> attempt option" where
  "get_attempt n db = find_row attempt_id n (attempts db)"

record call_update =
  new_status :: call_status
  new_conversation_id :: "string option"
  new_call_sid :: "string option"
  new_error_code :: "string option"
  new_error_message :: "string option"

definition write_attempt :: "time \<Rightarrow> int \<Rightarrow> call_update \<Rightarrow> database \<Rightarrow> database" where
  "write_attempt t n c db = db\<lparr>attempts := update_where (\<lambda>a. attempt_id a = n)
     (\<lambda>a. a\<lparr>status := new_status c, provider_conversation_id := new_conversation_id c,
            provider_call_sid := new_call_sid c, error_code := new_error_code c,
            error_message_safe := new_error_message c, attempt_updated_at := t\<rparr>) (attempts db)\<rparr>"

definition update_call_attempt :: "time \<Rightarrow> time \<Rightarrow> int \<Rightarrow> call_update \<Rightarrow> attempt action" where
  "update_call_attempt t1 t2 n c db =
     (case tx (\<lambda>db. let db = write_attempt t1 n c db in
         case get_attempt n db of
           None \<Rightarrow> (Err AttemptNotFound, db)
         | Some a \<Rightarrow>
             (case response_of (new_status c) of
                None \<Rightarrow> (Err UnmappedStatus, db)
              | Some rs \<Rightarrow> (Ok (), set_incident (attempt_incident a)
                  (\<lambda>r. r\<lparr>response_state := rs, call_status := Some (new_status c),
                         call_conversation_id := coalesce (new_conversation_id c) (call_conversation_id r),
                         call_sid := coalesce (new_call_sid c) (call_sid r), updated_at := t2\<rparr>) db))) db
      of (Inl e, db') \<Rightarrow> (Err e, db')
       | (Inr _, db') \<Rightarrow> (case get_attempt n db' of
             None \<Rightarrow> (Err AttemptNotFound, db') | Some a \<Rightarrow> (Ok a, db')))"

text \<open>\<open>ORDER BY id DESC LIMIT 1\<close>: ids grow in table order.\<close>

definition find_attempt_for_incident :: "string \<Rightarrow> database \<Rightarrow> attempt option" where
  "find_attempt_for_incident i db = find_row attempt_incident i (rev (attempts db))"

section \<open>Configuration\<close>

definition merge_configuration :: "configuration \<Rightarrow> configuration \<Rightarrow> configuration" where
  "merge_configuration old excluded = old\<lparr>version := version excluded,
     config_value := config_value excluded, config_updated_at := config_updated_at excluded\<rparr>"

definition put_configuration :: "time \<Rightarrow> string \<Rightarrow> int \<Rightarrow> json \<Rightarrow> unit action" where
  "put_configuration now k v x = tx (\<lambda>db.
     if (case find_row config_key k (configurations db) of
           None \<Rightarrow> False | Some c \<Rightarrow> v \<le> version c) then (Err VersionMustIncrease, db)
     else if \<not> sqlite_int v then (Err BindingError, db)
     else (Ok (), db\<lparr>configurations := upsert config_key merge_configuration
             \<lparr>config_key = k, version = v, config_value = x, config_updated_at = now\<rparr>
             (configurations db)\<rparr>))"

definition get_configuration :: "string \<Rightarrow> database \<Rightarrow> json option" where
  "get_configuration k db = map_option config_value (find_row config_key k (configurations db))"

section \<open>Histories of writes\<close>

datatype db_write =
  UpsertDevice time hello bool
| MarkDisconnected time string json
| UpdateHealth time string json
| UpsertIncident time incident_update string json
| UpdateResponse time time string response_state "string option" "hazard_state option"
| AddEvent time string string string json "int option" json
| ReserveCall time string string int int
| UpdateCall time time int call_update
| PutConfiguration time string int json

definition outcome :: "('e, 'a) result \<times> 's \<Rightarrow> ('e, unit) result \<times> 's" where
  "outcome r = (case fst r of Inl e \<Rightarrow> Err e | Inr _ \<Rightarrow> Ok (), snd r)"

fun perform :: "db_write \<Rightarrow> unit action" where
  "perform (UpsertDevice t h c) db = outcome (upsert_device t h c db)"
| "perform (MarkDisconnected t d b) db = outcome (mark_device_disconnected t d b db)"
| "perform (UpdateHealth t d h) db = outcome (update_health t d h db)"
| "perform (UpsertIncident t u d b) db = outcome (upsert_incident t u d b db)"
| "perform (UpdateResponse t1 t2 i rs occ hz) db = outcome (update_incident_response t1 t2 i rs occ hz db)"
| "perform (AddEvent t i ty src pl ns occ) db = outcome (add_event t i ty src pl ns occ db)"
| "perform (ReserveCall t i dest cd mx) db = outcome (reserve_call_attempt t i dest cd mx db)"
| "perform (UpdateCall t1 t2 n c) db = outcome (update_call_attempt t1 t2 n c db)"
| "perform (PutConfiguration t k v x) db = outcome (put_configuration t k v x db)"

definition exec :: "db_write \<Rightarrow> database \<Rightarrow> database" where
  "exec w db = snd (perform w db)"

definition writes :: "db_write list \<Rightarrow> database \<Rightarrow> database" where
  "writes ws db = fold exec ws db"

section \<open>Transactions and rows\<close>

lemma outcome_simps [simp]:
  "outcome (Inl e, db) = (Inl e, db)" "outcome (Inr x, db) = (Inr (), db)"
  "snd (outcome r) = snd r"
  by (simp_all add: outcome_def)

lemma fst_outcome [simp]: "fst (outcome r) = Inl e \<longleftrightarrow> fst r = Inl e"
  by (cases "fst r") (simp_all add: outcome_def)

lemma tx_Ok [simp]: "body db = (Inr x, db') \<Longrightarrow> tx body db = (Inr x, db')"
  by (simp add: tx_def)

lemma tx_Err [simp]: "body db = (Inl e, db') \<Longrightarrow> tx body db = (Inl e, db)"
  by (simp add: tx_def)

lemma tx_cases:
  obtains x db' where "body db = (Inr x, db')" "tx body db = (Inr x, db')"
  | e db' where "body db = (Inl e, db')" "tx body db = (Inl e, db)"
  by (cases "body db"; cases "fst (body db)") (auto simp: tx_def)

interpretation device_table: keyed_table device_id merge_device
  by unfold_locales (simp add: merge_device_def)

interpretation incident_table: keyed_table incident_id merge_incident
  by unfold_locales (simp add: merge_incident_def)

interpretation configuration_table: keyed_table config_key merge_configuration
  by unfold_locales (simp add: merge_configuration_def)

lemma set_incident_simps [frame_simps, simp]:
  "devices (set_incident i f db) = devices db" "events (set_incident i f db) = events db"
  "event_seq (set_incident i f db) = event_seq db" "attempts (set_incident i f db) = attempts db"
  "attempt_seq (set_incident i f db) = attempt_seq db"
  "configurations (set_incident i f db) = configurations db"
  by (simp_all add: set_incident_def)

lemma get_incident_set:
  "(\<And>r. incident_id (f r) = incident_id r) \<Longrightarrow>
   get_incident j (set_incident i f db)
   = (if j = i then map_option f (get_incident j db) else get_incident j db)"
  by (simp add: get_incident_def set_incident_def find_row_update_where)

lemma incident_ids_set:
  "(\<And>r. incident_id (f r) = incident_id r) \<Longrightarrow>
   map incident_id (incidents (set_incident i f db)) = map incident_id (incidents db)"
  by (simp add: set_incident_def map_update_where)

lemma get_incident_frame:
  "incidents db' = incidents db \<Longrightarrow> get_incident i db' = get_incident i db"
  by (simp add: get_incident_def)

lemma get_incident_upsert:
  "get_incident i (db\<lparr>incidents := upsert incident_id merge_incident new (incidents db)\<rparr>)
   = (if i = incident_id new
      then Some (case get_incident i db of None \<Rightarrow> new | Some old \<Rightarrow> merge_incident old new)
      else get_incident i db)"
  by (simp add: get_incident_def incident_table.find_upsert)

lemma new_incident_id [simp]: "incident_id (new_incident now u d b) = u_incident_id u"
  by (simp add: new_incident_def)

text \<open>What each write leaves when it succeeds, with its guards.\<close>

lemma update_incident_response_Ok:
  "update_incident_response t1 t2 i rs occ hz db =
     (case get_incident i db of
        None \<Rightarrow> (Inl IncidentNotFound, db)
      | Some r \<Rightarrow>
          let f = (\<lambda>r. case hz of
              Some h \<Rightarrow> r\<lparr>response_state := rs, occupant_response := occ, hazard_state := h,
                  resolved_at := (if h = RESOLVED then Some t1 else resolved_at r), updated_at := t2\<rparr>
            | None \<Rightarrow> r\<lparr>response_state := rs,
                  occupant_response := coalesce occ (occupant_response r), updated_at := t2\<rparr>)
          in (Inr (f r), set_incident i f db))"
  by (auto simp: update_incident_response_def tx_def get_incident_set Let_def split: option.splits)

lemma get_attempt_write:
  "get_attempt m (write_attempt t n c db) =
     (if m = n then map_option (\<lambda>a. a\<lparr>status := new_status c,
          provider_conversation_id := new_conversation_id c, provider_call_sid := new_call_sid c,
          error_code := new_error_code c, error_message_safe := new_error_message c,
          attempt_updated_at := t\<rparr>) (get_attempt m db)
      else get_attempt m db)"
  by (simp add: get_attempt_def write_attempt_def find_row_update_where)

lemma write_attempt_simps [frame_simps, simp]:
  "devices (write_attempt t n c db) = devices db" "incidents (write_attempt t n c db) = incidents db"
  "events (write_attempt t n c db) = events db" "event_seq (write_attempt t n c db) = event_seq db"
  "attempt_seq (write_attempt t n c db) = attempt_seq db"
  "configurations (write_attempt t n c db) = configurations db"
  by (simp_all add: write_attempt_def)

lemma get_attempt_set_incident [simp]: "get_attempt n (set_incident i f db) = get_attempt n db"
  by (simp add: get_attempt_def)

definition incident_call_update :: "time \<Rightarrow> response_state \<Rightarrow> call_update \<Rightarrow> incident \<Rightarrow> incident" where
  "incident_call_update t rs c r = r\<lparr>response_state := rs, call_status := Some (new_status c),
     call_conversation_id := coalesce (new_conversation_id c) (call_conversation_id r),
     call_sid := coalesce (new_call_sid c) (call_sid r), updated_at := t\<rparr>"

lemma update_call_attempt_eq:
  "update_call_attempt t1 t2 n c db =
     (case get_attempt n db of
        None \<Rightarrow> (Inl AttemptNotFound, db)
      | Some a \<Rightarrow> (case response_of (new_status c) of
          None \<Rightarrow> (Inl UnmappedStatus, db)
        | Some rs \<Rightarrow>
            let db' = set_incident (attempt_incident a) (incident_call_update t2 rs c) (write_attempt t1 n c db)
            in (Inr (the (get_attempt n (write_attempt t1 n c db))), db')))"
  by (auto simp: update_call_attempt_def tx_def Let_def get_attempt_write incident_call_update_def [abs_def]
        split: option.splits)

end
