(* ===== verification/Store.thy ===== *)
theory Store
  imports Database
begin

text \<open>
  The database over every history of writes: keys stay unique, ids grow, references resolve,
  the timeline is append-only, an incident's record evolves monotonically, and configuration
  versions identify their values. Theory CallPolicy continues with the calls.
\<close>

section \<open>Invariant\<close>

definition incident_ids :: "database \<Rightarrow> string set" where
  "incident_ids db = incident_id ` set (incidents db)"

definition db_ok :: "database \<Rightarrow> bool" where
  "db_ok db \<longleftrightarrow> distinct (map device_id (devices db)) \<and> distinct (map incident_id (incidents db))
     \<and> distinct (map config_key (configurations db)) \<and> 0 \<le> event_seq db \<and> 0 \<le> attempt_seq db
     \<and> numbered event_id (event_seq db) (events db)
     \<and> numbered attempt_id (attempt_seq db) (attempts db)
     \<and> event_incident ` set (events db) \<subseteq> incident_ids db
     \<and> attempt_incident ` set (attempts db) \<subseteq> incident_ids db"

lemma db_ok_empty: "db_ok empty_db"
  by (simp add: db_ok_def empty_db_def)

lemma get_incident_ids: "get_incident i db \<noteq> None \<longleftrightarrow> i \<in> incident_ids db"
  by (auto simp: get_incident_def incident_ids_def find_row_None)

lemma ids_set_incident [simp]:
  "(\<And>r. incident_id (f r) = incident_id r) \<Longrightarrow> incident_ids (set_incident i f db) = incident_ids db"
  using incident_ids_set [of f i db] unfolding incident_ids_def by (metis set_map)

lemma incident_ids_frame: "incidents db' = incidents db \<Longrightarrow> incident_ids db' = incident_ids db"
  by (simp add: incident_ids_def)

lemma incident_ids_frames [simp]:
  "incident_ids (db\<lparr>devices := ds\<rparr>) = incident_ids db"
  "incident_ids (db\<lparr>events := es\<rparr>) = incident_ids db"
  "incident_ids (db\<lparr>event_seq := n\<rparr>) = incident_ids db"
  "incident_ids (db\<lparr>attempts := as\<rparr>) = incident_ids db"
  "incident_ids (db\<lparr>attempt_seq := n\<rparr>) = incident_ids db"
  "incident_ids (db\<lparr>configurations := cs\<rparr>) = incident_ids db"
  by (simp_all add: incident_ids_def)

lemma incident_call_update_id [simp]: "incident_id (incident_call_update t rs c r) = incident_id r"
  by (simp add: incident_call_update_def)

lemma db_ok_set_incident:
  assumes "db_ok db" and "\<And>r. incident_id (f r) = incident_id r"
  shows "db_ok (set_incident i f db)"
  using assms by (simp add: db_ok_def incident_ids_set)

lemma db_ok_write_attempt: "db_ok db \<Longrightarrow> db_ok (write_attempt t n c db)"
  by (auto simp: db_ok_def write_attempt_def set_update_where intro!: numbered_update_where)

lemma db_ok_devices:
  "db_ok db \<Longrightarrow> distinct (map device_id ds) \<Longrightarrow> db_ok (db\<lparr>devices := ds\<rparr>)"
  by (simp add: db_ok_def incident_ids_def)

lemma db_ok_configurations:
  "db_ok db \<Longrightarrow> distinct (map config_key cs) \<Longrightarrow> db_ok (db\<lparr>configurations := cs\<rparr>)"
  by (simp add: db_ok_def incident_ids_def)

lemma db_ok_upsert_incident:
  assumes "db_ok db"
  shows "db_ok (db\<lparr>incidents := upsert incident_id merge_incident new (incidents db)\<rparr>)"
  using assms incident_table.keys_mono [of "incidents db" new]
  by (simp add: db_ok_def incident_ids_def incident_table.distinct_upsert) (meson subset_trans)

lemma db_ok_add_event:
  assumes "db_ok db" and "get_incident (event_incident e) db \<noteq> None" and "event_id e = event_seq db + 1"
  shows "db_ok (db\<lparr>events := events db @ [e], event_seq := event_seq db + 1\<rparr>)"
  using assms(1,3) assms(2) [unfolded get_incident_ids]
  by (auto simp: db_ok_def intro!: numbered_snoc)

lemma db_ok_add_attempt:
  assumes "db_ok db" and "get_incident (attempt_incident a) db \<noteq> None"
    and "attempt_id a = attempt_seq db + 1"
  shows "db_ok (db\<lparr>attempts := attempts db @ [a], attempt_seq := attempt_seq db + 1\<rparr>)"
  using assms(1,3) assms(2) [unfolded get_incident_ids]
  by (auto simp: db_ok_def intro!: numbered_snoc)

lemma tx_db_ok:
  assumes "db_ok db" and "\<And>x db'. body db = (Inr x, db') \<Longrightarrow> db_ok db'"
  shows "db_ok (snd (tx body db))"
  using assms by (cases rule: tx_cases [of body db]) auto

lemma db_ok_update_response:
  "db_ok db \<Longrightarrow> db_ok (snd (update_incident_response t1 t2 i rs occ hz db))"
  by (auto simp: update_incident_response_Ok Let_def intro!: db_ok_set_incident split: option.splits)

lemma db_ok_update_call:
  "db_ok db \<Longrightarrow> db_ok (snd (update_call_attempt t1 t2 n c db))"
  by (auto simp: update_call_attempt_eq Let_def intro!: db_ok_set_incident db_ok_write_attempt
        split: option.splits)

lemma db_ok_reserve:
  assumes "db_ok db"
  shows "db_ok (snd (reserve_call_attempt t i dest cd mx db))"
  unfolding reserve_call_attempt_def
proof (rule tx_db_ok [OF assms], goal_cases)
  case (1 x db')
  then show ?case
    by (auto simp: Let_def intro!: db_ok_set_incident db_ok_add_attempt assms
        split: option.splits if_splits)
qed

lemma db_ok_exec: "db_ok db \<Longrightarrow> db_ok (exec w db)"
proof (cases w)
  case (AddEvent t i ty src pl ns occ)
  assume "db_ok db"
  then show ?thesis
    by (auto simp: AddEvent exec_def add_event_def Let_def intro!: tx_db_ok db_ok_add_event
        split: if_splits)
next
  case (PutConfiguration t k v x)
  assume ok: "db_ok db"
  then have "distinct (map config_key (configurations db))" by (simp add: db_ok_def)
  from configuration_table.distinct_upsert [OF this] ok show ?thesis
    by (auto simp: PutConfiguration exec_def put_configuration_def intro!: tx_db_ok db_ok_configurations
        split: option.splits if_splits)
qed (auto simp: exec_def upsert_device_def mark_device_disconnected_def update_health_def
      upsert_incident_def db_ok_update_response db_ok_update_call db_ok_reserve db_ok_upsert_incident
      db_ok_def [THEN iffD1] map_update_where device_table.distinct_upsert
      intro!: tx_db_ok db_ok_devices split: if_splits)

interpretation database_machine: machine exec db_ok
  by unfold_locales (rule db_ok_exec)

section \<open>Evolution of an incident\<close>

definition kept :: "'a option \<Rightarrow> 'a option \<Rightarrow> bool" where
  "kept a b \<longleftrightarrow> a = None \<or> b = a"

definition grown :: "('a::linorder) option \<Rightarrow> 'a option \<Rightarrow> bool" where
  "grown a b \<longleftrightarrow> (case a of None \<Rightarrow> True | Some x \<Rightarrow> (case b of None \<Rightarrow> False | Some y \<Rightarrow> x \<le> y))"

definition evolves :: "incident \<Rightarrow> incident \<Rightarrow> bool" where
  "evolves old new \<longleftrightarrow> incident_id new = incident_id old \<and> inc_device_id new = inc_device_id old
     \<and> inc_boot_id new = inc_boot_id old \<and> created_at new = created_at old
     \<and> first_detected_at new = first_detected_at old \<and> first_zone new = first_zone old
     \<and> first_detection_monotonic_ns new = first_detection_monotonic_ns old
     \<and> kept (confirmed_at old) (confirmed_at new) \<and> kept (smoke_first old) (smoke_first new)
     \<and> kept (smoke_to_fire_delay_seconds old) (smoke_to_fire_delay_seconds new)
     \<and> peak_fire_confidence old \<le> peak_fire_confidence new
     \<and> peak_smoke_confidence old \<le> peak_smoke_confidence new
     \<and> seconds_persistent old \<le> seconds_persistent new
     \<and> grown (max_growth_percent old) (max_growth_percent new)
     \<and> (resolved_at old \<noteq> None \<longrightarrow> resolved_at new \<noteq> None)"

lemma kept_simps [simp]: "kept a a" "kept None b" "kept a (coalesce a b)"
  by (auto simp: kept_def coalesce_def split: option.splits)

lemma grown_simps [simp]: "grown a a" "grown None b" "grown a (max_known a b)"
  by (auto simp: grown_def max_known_def split: option.splits)

lemma grown_trans: "grown a b \<Longrightarrow> grown b c \<Longrightarrow> grown a c"
  by (auto simp: grown_def split: option.splits)

lemma kept_trans: "kept a b \<Longrightarrow> kept b c \<Longrightarrow> kept a c"
  by (auto simp: kept_def)

lemma evolves_refl [simp]: "evolves r r"
  by (simp add: evolves_def)

lemma evolves_trans: "evolves a b \<Longrightarrow> evolves b c \<Longrightarrow> evolves a c"
  unfolding evolves_def
  by (elim conjE, intro conjI; (erule (1) kept_trans | erule (1) grown_trans | erule (1) order_trans | simp))

lemma evolves_merge: "evolves old (merge_incident old new)"
  unfolding evolves_def merge_incident_def by (intro conjI) (simp_all add: coalesce_def split: option.split)

lemma evolves_call_update [simp]: "evolves r (incident_call_update t rs c r)"
  by (simp add: evolves_def incident_call_update_def)

definition preserves :: "string \<Rightarrow> database \<Rightarrow> database \<Rightarrow> bool" where
  "preserves i db db' \<longleftrightarrow> (\<forall>r. get_incident i db = Some r \<longrightarrow>
     (\<exists>r'. get_incident i db' = Some r' \<and> evolves r r'))"

lemma preserves_same: "incidents db' = incidents db \<Longrightarrow> preserves i db db'"
  by (simp add: preserves_def get_incident_def)

lemma preserves_trans: "preserves i a b \<Longrightarrow> preserves i b c \<Longrightarrow> preserves i a c"
  unfolding preserves_def by (meson evolves_trans)

lemma preserves_set_incident:
  assumes "\<And>r. evolves r (f r)"
  shows "preserves i db (set_incident j f db)"
proof -
  have "incident_id (f r) = incident_id r" for r using assms [of r] by (simp add: evolves_def)
  then show ?thesis by (simp add: preserves_def get_incident_set assms)
qed

lemma preserves_set_incident_frame:
  assumes "\<And>r. evolves r (f r)" and "incidents db' = incidents db"
  shows "preserves i db (set_incident j f db')"
  using preserves_trans [OF preserves_same [OF assms(2)] preserves_set_incident [OF assms(1)]] .

lemma preserves_tx:
  assumes "\<And>x db'. body db = (Inr x, db') \<Longrightarrow> preserves i db db'"
  shows "preserves i db (snd (tx body db))"
  using assms by (cases rule: tx_cases [of body db]) (auto intro: preserves_same)

lemma preserves_update_response:
  "preserves i db (snd (update_incident_response t1 t2 j rs occ hz db))"
  by (auto simp: update_incident_response_Ok Let_def evolves_def preserves_same
        intro!: preserves_set_incident split: option.splits)

lemma preserves_update_call: "preserves i db (snd (update_call_attempt t1 t2 n c db))"
  by (auto simp: update_call_attempt_eq Let_def preserves_same
        intro!: preserves_set_incident_frame split: option.splits)

lemma preserves_reserve: "preserves i db (snd (reserve_call_attempt t j dest cd mx db))"
  unfolding reserve_call_attempt_def
  by (rule preserves_tx) (auto simp: Let_def evolves_def intro!: preserves_set_incident_frame
      split: option.splits if_splits)

lemma preserves_exec: "preserves i db (exec w db)"
  by (cases w)
     (auto simp: exec_def upsert_device_def mark_device_disconnected_def update_health_def
        upsert_incident_def add_event_def put_configuration_def Let_def preserves_update_response
        preserves_update_call preserves_reserve preserves_def [of _ _ "_\<lparr>incidents := _\<rparr>"]
        get_incident_upsert evolves_merge preserves_same
        intro!: preserves_tx split: if_splits option.splits)

lemma preserves_writes: "preserves i db (writes ws db)"
  unfolding writes_def
proof (induction ws arbitrary: db)
  case (Cons w ws)
  from preserves_trans [OF preserves_exec Cons.IH] show ?case by simp
qed (simp add: preserves_same)

section \<open>Timeline\<close>

lemma events_exec: "prefix (events db) (events (exec w db))"
  by (cases w)
     (auto simp: exec_def upsert_device_def mark_device_disconnected_def update_health_def
        upsert_incident_def add_event_def put_configuration_def reserve_call_attempt_def Let_def
        update_incident_response_Ok update_call_attempt_eq tx_def
        split: if_splits option.splits)

lemma events_writes: "prefix (events db) (events (writes ws db))"
  unfolding writes_def
proof (induction ws arbitrary: db)
  case (Cons w ws)
  from prefix_order.trans [OF events_exec Cons.IH] show ?case by simp
qed simp

section \<open>Configurations\<close>

definition config_grows :: "string \<Rightarrow> database \<Rightarrow> database \<Rightarrow> bool" where
  "config_grows k db db' \<longleftrightarrow> (\<forall>c. find_row config_key k (configurations db) = Some c \<longrightarrow>
     (\<exists>c'. find_row config_key k (configurations db') = Some c'
        \<and> (version c < version c' \<or> c' = c)))"

lemma config_grows_same: "configurations db' = configurations db \<Longrightarrow> config_grows k db db'"
  by (simp add: config_grows_def)

lemma config_grows_exec: "config_grows k db (exec w db)"
proof (cases w)
  case (PutConfiguration t k' v x)
  show ?thesis
    by (auto simp: PutConfiguration exec_def put_configuration_def tx_def config_grows_def
          configuration_table.find_upsert merge_configuration_def split: option.splits if_splits)
qed (auto simp: exec_def upsert_device_def mark_device_disconnected_def update_health_def
        upsert_incident_def add_event_def reserve_call_attempt_def Let_def
        update_incident_response_Ok update_call_attempt_eq tx_def config_grows_same
        split: if_splits option.splits)

lemma config_grows_writes: "config_grows k db (writes ws db)"
  unfolding writes_def
proof (induction ws arbitrary: db)
  case (Cons w ws)
  have "config_grows k db (exec w db)" "config_grows k (exec w db) (fold exec ws (exec w db))"
    by (rule config_grows_exec, rule Cons.IH)
  then show ?case by (fastforce simp: config_grows_def)
qed (simp add: config_grows_def)

section \<open>Failures and redelivery\<close>

lemma perform_failed: "perform w db = (Inl e, db') \<Longrightarrow> db' = db"
  by (cases w)
     (auto simp: outcome_def upsert_device_def mark_device_disconnected_def update_health_def
        upsert_incident_def add_event_def put_configuration_def reserve_call_attempt_def
        update_incident_response_Ok update_call_attempt_eq tx_def Let_def
        split: sum.splits option.splits if_splits prod.splits)

lemma get_incident_empty [simp]: "get_incident i empty_db = None"
  by (simp add: get_incident_def empty_db_def)

lemma merge_redelivered:
  assumes "u_hazard_state u \<noteq> RESOLVED"
  shows "merge_incident (merge_incident old (new_incident t1 u d b)) (new_incident t2 u d b)
       = (merge_incident old (new_incident t1 u d b))\<lparr>updated_at := t2\<rparr>"
    and "merge_incident (new_incident t1 u d b) (new_incident t2 u d b)
       = (new_incident t1 u d b)\<lparr>updated_at := t2\<rparr>"
  using assms
  by (simp_all add: merge_incident_def new_incident_def coalesce_def sql_max_def max_known_def
        max.assoc split: option.split)

lemma upsert_incident_Ok:
  "fst (upsert_incident t u d b db) = Inr () \<longleftrightarrow>
     sqlite_int (u_first_detection_monotonic_ns u) \<and> sqlite_int (u_updated_monotonic_ns u)"
  by (simp add: upsert_incident_def tx_def)

lemma get_incident_upsert_incident:
  "fst (upsert_incident t u d b db) = Inr () \<Longrightarrow>
   get_incident i (snd (upsert_incident t u d b db))
   = (if i = u_incident_id u
      then Some (case get_incident i db of None \<Rightarrow> new_incident t u d b
                 | Some old \<Rightarrow> merge_incident old (new_incident t u d b))
      else get_incident i db)"
  unfolding upsert_incident_Ok by (simp add: upsert_incident_def tx_def get_incident_upsert)

section \<open>Properties\<close>

definition flame_update :: "string \<Rightarrow> hazard_state \<Rightarrow> rat \<Rightarrow> incident_update" where
  "flame_update i h x = \<lparr>u_incident_id = i, u_device_id = None, u_boot_id = Some ''b1'',
     u_hazard_state = h, u_response_state = AWAITING_RESPONSE,
     u_first_detection_monotonic_ns = 5, u_updated_monotonic_ns = 9, u_fire_confidence = x,
     u_smoke_confidence = 0, u_seconds_persistent = 2, u_first_zone = ''Kitchen'',
     u_current_zone = ''Kitchen'', u_primary_fire_bbox = None, u_primary_smoke_bbox = Some [],
     u_fire_region_growth_percent = Some 30, u_smoke_first = None,
     u_smoke_to_fire_delay_seconds = None, u_occupant_visible = None,
     u_camera_health = ''OK'', u_inference_health = ''OK''\<rparr>"

lemma flame_update_simps [simp]:
  "u_incident_id (flame_update i h x) = i" "u_hazard_state (flame_update i h x) = h"
  "sqlite_int (u_first_detection_monotonic_ns (flame_update i h x))"
  "sqlite_int (u_updated_monotonic_ns (flame_update i h x))"
  by (simp_all add: flame_update_def sqlite_int_def)

text \<open>
  C19. Integrity: whatever sequence of writes runs on the new database, successful or refused,
  primary keys are unique, event and attempt ids grow with the order of insertion, and every
  event and call attempt belongs to a stored incident.
\<close>

theorem database_integrity: "db_ok (writes ws empty_db)"
  unfolding writes_def by (rule database_machine.run_inv [OF db_ok_empty])

text \<open>
  Atomicity: a write that fails, at whichever of its statements, leaves the database as
  it was.
\<close>

theorem failed_write_changes_nothing:
  assumes "fst (perform w db) = Err e"
  shows "snd (perform w db) = db"
  using assms perform_failed [of w db e "snd (perform w db)"] by (cases "perform w db") auto

theorem failed_write_changes_nothing_witness:
  "snd (perform (AddEvent 7 ''a-1'' ''X'' ''qnx'' JNull None JNull) empty_db) = empty_db"
  using failed_write_changes_nothing
    [of "AddEvent 7 ''a-1'' ''X'' ''qnx'' JNull None JNull" empty_db ForeignKeyViolation]
  by (simp add: add_event_def tx_def empty_db_def get_incident_def outcome_def)

text \<open>
  C20. Evolution: whatever is written later, a stored incident stays stored under its id, keeps
  its device, first zone and times of creation, detection and confirmation, and its peak
  confidences, its persistence and its largest known growth never go down.
\<close>

theorem incident_evolves:
  assumes "get_incident i db = Some r"
  shows "\<exists>r'. get_incident i (writes ws db) = Some r' \<and> evolves r r'"
  using assms preserves_writes [of i db ws] by (simp add: preserves_def)

definition flame_db :: database where
  "flame_db = snd (upsert_incident 100 (flame_update ''a-1'' CONFIRMED (8/10)) ''qnx'' (JStr ''b1'') empty_db)"

lemma get_flame_db:
  "get_incident ''a-1'' flame_db
   = Some (new_incident 100 (flame_update ''a-1'' CONFIRMED (8/10)) ''qnx'' (JStr ''b1''))"
  by (simp add: flame_db_def get_incident_upsert_incident upsert_incident_Ok)

theorem incident_evolves_witness:
  "\<exists>r. get_incident ''a-1'' (writes
      [UpsertIncident 200 (flame_update ''a-1'' SUSPECTED (1/10)) ''qnx'' (JStr ''b2''),
       UpdateResponse 0 300 ''a-1'' CANCELLED None None] flame_db) = Some r
     \<and> evolves (new_incident 100 (flame_update ''a-1'' CONFIRMED (8/10)) ''qnx'' (JStr ''b1'')) r
     \<and> confirmed_at r = Some 100"
proof -
  obtain r where r: "get_incident ''a-1'' (writes
      [UpsertIncident 200 (flame_update ''a-1'' SUSPECTED (1/10)) ''qnx'' (JStr ''b2''),
       UpdateResponse 0 300 ''a-1'' CANCELLED None None] flame_db) = Some r"
    and ev: "evolves (new_incident 100 (flame_update ''a-1'' CONFIRMED (8/10)) ''qnx'' (JStr ''b1'')) r"
    using incident_evolves [OF get_flame_db] by blast
  from ev have "confirmed_at r = Some 100"
    by (simp add: evolves_def kept_def new_incident_def flame_update_def)
  with r ev show ?thesis by blast
qed

text \<open>
  Redelivery: a device update that arrives twice, the second time at \<open>t2\<close>, stores what it
  stored the first time, only the time of the last update moves; a RESOLVED update moves the
  resolution time as well and is excluded.
\<close>

theorem redelivery_idempotent:
  assumes "u_hazard_state u \<noteq> RESOLVED" and "fst (upsert_incident t1 u d b db) = Ok ()"
  shows "get_incident (u_incident_id u)
           (snd (upsert_incident t2 u d b (snd (upsert_incident t1 u d b db))))
       = map_option (\<lambda>r. r\<lparr>updated_at := t2\<rparr>)
           (get_incident (u_incident_id u) (snd (upsert_incident t1 u d b db)))"
  using merge_redelivered [OF assms(1)] assms(2)
  by (simp add: get_incident_upsert_incident upsert_incident_Ok split: option.split)

theorem redelivery_idempotent_witness:
  "get_incident ''a-1'' (snd (upsert_incident 200 (flame_update ''a-1'' CONFIRMED (8/10)) ''qnx'' (JStr ''b1'') flame_db))
   = map_option (\<lambda>r. r\<lparr>updated_at := 200\<rparr>) (get_incident ''a-1'' flame_db)"
  using redelivery_idempotent [of "flame_update ''a-1'' CONFIRMED (8/10)" 100 "''qnx''" "JStr ''b1''" empty_db 200]
  by (simp add: flame_db_def upsert_incident_Ok)

text \<open>
  The timeline is append-only: later writes leave the events of an incident in place and
  in order and only add after them.
\<close>

theorem timeline_append_only: "prefix (list_events i db) (list_events i (writes ws db))"
  using events_writes [of db ws] by (auto simp: list_events_def prefix_def)

text \<open>
  Versions: a stored configuration can only be replaced under a larger version, so over
  any history the version of a key never goes down and the same version means the same row.
\<close>

theorem configuration_versions:
  assumes "find_row config_key k (configurations db) = Some c"
  shows "\<exists>c'. find_row config_key k (configurations (writes ws db)) = Some c'
           \<and> version c \<le> version c' \<and> (version c' = version c \<longrightarrow> c' = c)"
  using assms config_grows_writes [of k db ws] by (auto simp: config_grows_def)

definition zones_db :: database where
  "zones_db = snd (put_configuration 1 ''zones'' 1 (JInt 10) empty_db)"

theorem configuration_versions_witness:
  "\<exists>c'. find_row config_key ''zones'' (configurations
       (writes [PutConfiguration 2 ''zones'' 1 (JInt 20), PutConfiguration 3 ''zones'' 4 (JInt 30)] zones_db))
     = Some c' \<and> 1 \<le> version c'"
proof -
  have "find_row config_key ''zones'' (configurations zones_db)
      = Some \<lparr>config_key = ''zones'', version = 1, config_value = JInt 10, config_updated_at = 1\<rparr>"
    by (simp add: zones_db_def put_configuration_def tx_def empty_db_def upsert_def sqlite_int_def)
  from configuration_versions [OF this] show ?thesis by fastforce
qed

end
