(* ===== verification/CallPolicy.thy ===== *)
theory CallPolicy
  imports Store
begin

text \<open>
  The policy \<^verbatim>\<open>reserve_call_attempt\<close> enforces: which reservations are granted, and what
  the granted ones add up to over a history of writes. An attempt counts while its status is
  one of the code's \<open>active_statuses\<close>; FAILED attempts do not count. An attempt that counts goes on
  counting, and refuses a second call, over every later history in which nothing reports it as failed.
\<close>

section \<open>One reservation\<close>

text \<open>The policy as one predicate over the stored data.\<close>

definition may_reserve :: "time \<Rightarrow> string \<Rightarrow> int \<Rightarrow> int \<Rightarrow> database \<Rightarrow> bool" where
  "may_reserve now i cooldown max_calls db \<longleftrightarrow>
     (case get_incident i db of None \<Rightarrow> False
      | Some r \<Rightarrow> confirmed_at r \<noteq> None \<and> response_state r \<noteq> CANCELLED)
     \<and> active_count i db < max_calls
     \<and> list_all (\<lambda>a. active (status a) \<longrightarrow> requested_at a + cooldown * 1000000 \<le> now) (attempts db)"

lemma latest_request_bound:
  "(case latest_request db of None \<Rightarrow> False | Some t \<Rightarrow> t + c > now)
   \<longleftrightarrow> \<not> list_all (\<lambda>a. active (status a) \<longrightarrow> requested_at a + c \<le> now) (attempts db)"
proof (cases "map requested_at (filter (\<lambda>a. active (status a)) (attempts db))")
  case Nil
  then show ?thesis by (auto simp: latest_request_def filter_empty_conv list_all_iff)
next
  case (Cons t ts)
  then have ts: "requested_at ` {a \<in> set (attempts db). active (status a)} = set (t # ts)"
    by (metis set_filter set_map)
  have "foldl max t ts \<in> set (t # ts)" using foldl_max_mem [of t ts] by simp
  moreover have "\<forall>x \<in> set (t # ts). x \<le> foldl max t ts"
    using foldl_max_ge [of t ts] foldl_max_ub [of _ ts t] by auto
  ultimately have "foldl max t ts + c > now \<longleftrightarrow> (\<exists>x \<in> set (t # ts). x + c > now)" by fastforce
  also have "\<dots> \<longleftrightarrow> \<not> list_all (\<lambda>a. active (status a) \<longrightarrow> requested_at a + c \<le> now) (attempts db)"
    unfolding ts [symmetric] by (auto simp: list_all_iff not_le)
  finally show ?thesis using Cons by (simp add: latest_request_def)
qed

definition new_attempt :: "time \<Rightarrow> string \<Rightarrow> string \<Rightarrow> database \<Rightarrow> attempt" where
  "new_attempt now i dest db = \<lparr>attempt_id = attempt_seq db + 1, attempt_incident = i,
     destination_hash = dest, status = REQUESTED, provider_conversation_id = None,
     provider_call_sid = None, requested_at = now, attempt_updated_at = now, error_code = None,
     error_message_safe = None\<rparr>"

definition reserved :: "time \<Rightarrow> string \<Rightarrow> string \<Rightarrow> database \<Rightarrow> database" where
  "reserved now i dest db = set_incident i
     (\<lambda>r. r\<lparr>response_state := CALL_REQUESTED, call_status := Some REQUESTED, updated_at := now\<rparr>)
     (db\<lparr>attempts := attempts db @ [new_attempt now i dest db], attempt_seq := attempt_seq db + 1\<rparr>)"

lemma reserve_granted:
  "may_reserve now i cd mx db \<Longrightarrow>
   reserve_call_attempt now i dest cd mx db = (Ok (attempt_seq db + 1), reserved now i dest db)"
  by (auto simp: may_reserve_def reserve_call_attempt_def latest_request_bound tx_def Let_def
        reserved_def new_attempt_def split: option.splits)

lemma reserve_refused:
  "\<not> may_reserve now i cd mx db \<Longrightarrow>
   \<exists>p. reserve_call_attempt now i dest cd mx db = (Err (CallPolicy p), db)"
  by (auto simp: may_reserve_def reserve_call_attempt_def latest_request_bound tx_def Let_def
        split: option.splits)

lemma attempts_reserved [simp]:
  "attempts (reserved now i dest db) = attempts db @ [new_attempt now i dest db]"
  by (simp add: reserved_def)

section \<open>Histories\<close>

definition active_attempts :: "database \<Rightarrow> attempt list" where
  "active_attempts db = filter (\<lambda>a. active (status a)) (attempts db)"

definition spaced :: "int \<Rightarrow> database \<Rightarrow> bool" where
  "spaced cooldown db \<longleftrightarrow>
     sorted_wrt (\<lambda>a b. requested_at a + cooldown * 1000000 \<le> requested_at b) (active_attempts db)"

definition policy_ok :: "int \<Rightarrow> int \<Rightarrow> database \<Rightarrow> bool" where
  "policy_ok cooldown max_calls db \<longleftrightarrow> spaced cooldown db \<and> (\<forall>i. active_count i db \<le> max_calls)"

text \<open>
  The histories the bound is about: every reservation asks for the same limits, and no status
  update brings back an attempt that had failed.
\<close>

definition allowed :: "int \<Rightarrow> int \<Rightarrow> db_write \<Rightarrow> database \<Rightarrow> bool" where
  "allowed cooldown max_calls w db = (case w of
       ReserveCall t i dest cd mx \<Rightarrow> cd = cooldown \<and> mx = max_calls
     | UpdateCall t1 t2 n c \<Rightarrow> active (new_status c) \<longrightarrow>
         (case get_attempt n db of None \<Rightarrow> True | Some a \<Rightarrow> active (status a))
     | _ \<Rightarrow> True)"

fun history :: "int \<Rightarrow> int \<Rightarrow> db_write list \<Rightarrow> database \<Rightarrow> bool" where
  "history cd mx [] db = True"
| "history cd mx (w # ws) db = (allowed cd mx w db \<and> history cd mx ws (exec w db))"

lemma active_count_eq:
  "active_count i db = int (length (filter (\<lambda>a. attempt_incident a = i) (active_attempts db)))"
  by (simp add: active_count_def active_attempts_def conj_commute)

lemma policy_frame: "attempts db' = attempts db \<Longrightarrow> policy_ok cd mx db' = policy_ok cd mx db"
  by (simp add: policy_ok_def spaced_def active_count_eq active_attempts_def)

lemma policy_reserved:
  assumes "policy_ok cd mx db" and "may_reserve now i cd mx db"
  shows "policy_ok cd mx (reserved now i dest db)"
  using assms
  by (auto simp: policy_ok_def spaced_def active_count_eq active_attempts_def may_reserve_def
        new_attempt_def active_def sorted_wrt_append list_all_iff)

definition attempt_update :: "time \<Rightarrow> call_update \<Rightarrow> attempt \<Rightarrow> attempt" where
  "attempt_update t c a = a\<lparr>status := new_status c, provider_conversation_id := new_conversation_id c,
     provider_call_sid := new_call_sid c, error_code := new_error_code c,
     error_message_safe := new_error_message c, attempt_updated_at := t\<rparr>"

lemma attempt_update_simps [simp]:
  "status (attempt_update t c a) = new_status c" "requested_at (attempt_update t c a) = requested_at a"
  "attempt_incident (attempt_update t c a) = attempt_incident a"
  "attempt_id (attempt_update t c a) = attempt_id a"
  by (simp_all add: attempt_update_def)

lemma attempts_write:
  "attempts (write_attempt t n c db) = update_where (\<lambda>a. attempt_id a = n) (attempt_update t c) (attempts db)"
  by (simp add: write_attempt_def attempt_update_def [abs_def])

text \<open>
  An update that keeps active attempts active, or drops some, leaves a sublist of the pairs
  (incident, request time) of the active attempts.
\<close>

definition charge :: "attempt \<Rightarrow> string \<times> time" where
  "charge a = (attempt_incident a, requested_at a)"

lemma charges_update:
  assumes "\<And>a. a \<in> set xs \<Longrightarrow> attempt_id a = n \<Longrightarrow> active (new_status c) \<Longrightarrow> active (status a)"
  shows "subseq (map charge (filter (\<lambda>a. active (status a))
                  (update_where (\<lambda>a. attempt_id a = n) (attempt_update t c) xs)))
                (map charge (filter (\<lambda>a. active (status a)) xs))"
  using assms by (induction xs) (auto simp: charge_def)

lemma spaced_charges:
  "spaced cd db \<longleftrightarrow> sorted_wrt (\<lambda>p q. snd p + cd * 1000000 \<le> snd q) (map charge (active_attempts db))"
  by (simp add: spaced_def sorted_wrt_map charge_def)

lemma count_charges:
  "active_count i db = int (length (filter (\<lambda>p. fst p = i) (map charge (active_attempts db))))"
  by (simp add: active_count_eq filter_map o_def charge_def)

lemma sorted_wrt_subseq: "subseq xs ys \<Longrightarrow> sorted_wrt P ys \<Longrightarrow> sorted_wrt P xs"
proof (induction rule: list_emb.induct)
  case (list_emb_Cons2 x y xs ys)
  then show ?case using list_emb_set [of "(=)" xs ys] by fastforce
qed auto

lemma policy_subseq:
  assumes "policy_ok cd mx db"
    and "subseq (map charge (active_attempts db')) (map charge (active_attempts db))"
  shows "policy_ok cd mx db'"
proof -
  have "active_count i db' \<le> active_count i db" for i
    unfolding count_charges
    by (rule of_nat_mono, rule list_emb_length, rule subseq_filter, rule assms(2))
  with assms show ?thesis
    by (fastforce simp: policy_ok_def spaced_charges intro: sorted_wrt_subseq order_trans)
qed

lemma policy_update_call:
  assumes "db_ok db" and "policy_ok cd mx db" and "allowed cd mx (UpdateCall t1 t2 n c) db"
  shows "policy_ok cd mx (exec (UpdateCall t1 t2 n c) db)"
proof -
  have "active (status a)" if "a \<in> set (attempts db)" "attempt_id a = n" "active (new_status c)" for a
  proof -
    have "distinct (map attempt_id (attempts db))"
      using assms(1) by (auto simp: db_ok_def dest: numbered_distinct)
    from find_row_mem [OF this that(1)] that assms(3) show ?thesis
      by (simp add: allowed_def get_attempt_def)
  qed
  then have "policy_ok cd mx (write_attempt t1 n c db)"
    using policy_subseq [OF assms(2)] charges_update [of "attempts db" n c t1]
    by (simp add: active_attempts_def attempts_write)
  moreover have "attempts (exec (UpdateCall t1 t2 n c) db) = attempts db
      \<or> attempts (exec (UpdateCall t1 t2 n c) db) = attempts (write_attempt t1 n c db)"
    by (auto simp: exec_def update_call_attempt_eq Let_def split: option.splits)
  ultimately show ?thesis using assms(2) policy_frame by blast
qed

lemma attempts_other:
  "(case w of ReserveCall _ _ _ _ _ \<Rightarrow> False | UpdateCall _ _ _ _ \<Rightarrow> False | _ \<Rightarrow> True)
   \<Longrightarrow> attempts (exec w db) = attempts db"
  by (cases w) (auto simp: exec_def upsert_device_def mark_device_disconnected_def update_health_def
        upsert_incident_def add_event_def put_configuration_def Let_def update_incident_response_Ok
        tx_def split: if_splits option.splits)

lemma policy_exec:
  assumes "db_ok db" and "policy_ok cd mx db" and "allowed cd mx w db"
  shows "policy_ok cd mx (exec w db)"
proof (cases w)
  case (ReserveCall t i dest cd' mx')
  with assms(3) have [simp]: "cd' = cd" "mx' = mx" by (simp_all add: allowed_def)
  show ?thesis
  proof (cases "may_reserve t i cd mx db")
    case True
    with policy_reserved [OF assms(2)] show ?thesis by (simp add: ReserveCall exec_def reserve_granted)
  next
    case False
    from reserve_refused [OF this, of dest] assms(2) show ?thesis by (auto simp: ReserveCall exec_def)
  qed
next
  case (UpdateCall t1 t2 n c)
  with policy_update_call assms show ?thesis by blast
qed (use assms(2) policy_frame [OF attempts_other] in simp_all)

lemma policy_history:
  "db_ok db \<Longrightarrow> policy_ok cd mx db \<Longrightarrow> history cd mx ws db \<Longrightarrow> policy_ok cd mx (writes ws db)"
  unfolding writes_def
  by (induction ws arbitrary: db) (auto intro: policy_exec db_ok_exec)

section \<open>What later writes keep of an attempt\<close>

text \<open>
  Attempts are never removed, and keep their number, incident and time; the numbers only grow.
  An attempt that counts goes on counting unless an update reports it as failed.
\<close>

definition attempt_key :: "attempt \<Rightarrow> int \<times> string \<times> time" where
  "attempt_key a = (attempt_id a, attempt_incident a, requested_at a)"

definition reports_failed :: "int \<Rightarrow> db_write \<Rightarrow> bool" where
  "reports_failed n w \<longleftrightarrow> (case w of UpdateCall t1 t2 m c \<Rightarrow> m = n \<and> new_status c = FAILED | _ \<Rightarrow> False)"

lemma attempts_exec_cases:
  obtains (same) "attempts (exec w db) = attempts db" "attempt_seq (exec w db) = attempt_seq db"
  | (reserve) t i dest where "exec w db = reserved t i dest db"
  | (update) t1 t2 n c where "w = UpdateCall t1 t2 n c" "attempt_seq (exec w db) = attempt_seq db"
      "attempts (exec w db) = update_where (\<lambda>a. attempt_id a = n) (attempt_update t1 c) (attempts db)"
proof (cases w)
  case (ReserveCall t i dest cd mx)
  then show thesis
    using reserve reserve_granted [of t i cd mx db dest] reserve_refused [of t i cd mx db dest] same
    by (cases "may_reserve t i cd mx db") (auto simp: exec_def)
next
  case (UpdateCall t1 t2 n c)
  have seq: "attempt_seq (exec w db) = attempt_seq db"
    by (auto simp: UpdateCall exec_def update_call_attempt_eq Let_def split: option.splits)
  have "attempts (exec w db) = attempts db
      \<or> attempts (exec w db) = update_where (\<lambda>a. attempt_id a = n) (attempt_update t1 c) (attempts db)"
    by (auto simp: UpdateCall exec_def update_call_attempt_eq Let_def attempts_write split: option.splits)
  with seq UpdateCall same update show thesis by blast
qed (use same attempts_other [of w db] in
  \<open>auto simp: exec_def upsert_device_def mark_device_disconnected_def update_health_def upsert_incident_def
     add_event_def put_configuration_def Let_def update_incident_response_Ok tx_def
     split: if_splits option.splits\<close>)

lemma seq_reserved [simp]: "attempt_seq (reserved t i dest db) = attempt_seq db + 1"
  by (simp add: reserved_def)

lemma seq_exec: "attempt_seq db \<le> attempt_seq (exec w db)"
  by (cases rule: attempts_exec_cases [of w db]) simp_all

lemma keys_exec: "attempt_key ` set (attempts db) \<subseteq> attempt_key ` set (attempts (exec w db))"
proof (cases rule: attempts_exec_cases [of w db])
  case (update t1 t2 n c)
  have "attempt_key (attempt_update t1 c a) = attempt_key a" for a by (simp add: attempt_key_def)
  then have "map attempt_key (attempts (exec w db)) = map attempt_key (attempts db)"
    unfolding update(3) by (intro map_update_where) simp
  then show ?thesis by (metis order_refl set_map)
qed auto

lemma keys_writes: "attempt_key ` set (attempts db) \<subseteq> attempt_key ` set (attempts (writes ws db))"
proof (induction ws arbitrary: db)
  case (Cons w ws)
  from keys_exec [of db w] Cons [of "exec w db"] show ?case by (simp add: writes_def)
qed (simp add: writes_def)

lemma seq_writes: "attempt_seq db \<le> attempt_seq (writes ws db)"
proof (induction ws arbitrary: db)
  case (Cons w ws)
  from seq_exec [of db w] Cons [of "exec w db"] show ?case by (simp add: writes_def)
qed (simp add: writes_def)

text \<open>What a call attempt still owes the policy: it is stored for its incident, and counts.\<close>

definition counted :: "int \<Rightarrow> string \<Rightarrow> database \<Rightarrow> bool" where
  "counted n i db \<longleftrightarrow>
     list_ex (\<lambda>a. attempt_id a = n \<and> attempt_incident a = i \<and> active (status a)) (attempts db)"

lemma counted_exec:
  assumes "counted n i db" and "\<not> reports_failed n w"
  shows "counted n i (exec w db)"
proof (cases rule: attempts_exec_cases [of w db])
  case (update t1 t2 m c)
  obtain a where a: "a \<in> set (attempts db)" "attempt_id a = n" "attempt_incident a = i" "active (status a)"
    using assms(1) by (auto simp: counted_def list_ex_iff)
  let ?a = "if attempt_id a = m then attempt_update t1 c a else a"
  have "?a \<in> set (attempts (exec w db))" using a(1) by (auto simp: update(3) set_update_where)
  moreover have "active (status ?a)" using assms(2) a update(1)
    by (cases "new_status c") (auto simp: reports_failed_def active_def)
  ultimately show ?thesis using a unfolding counted_def list_ex_iff
    by (intro bexI [of _ ?a]) auto
qed (use assms(1) in \<open>auto simp: counted_def\<close>)

lemma counted_writes: "counted n i db \<Longrightarrow> \<forall>w \<in> set ws. \<not> reports_failed n w \<Longrightarrow> counted n i (writes ws db)"
  unfolding writes_def by (induction ws arbitrary: db) (simp_all add: counted_exec)

lemma counted_refuses:
  assumes "counted n i db" and "mx \<le> 1"
  shows "\<not> may_reserve now i cd mx db"
proof -
  from assms(1) obtain a where "a \<in> set (filter (\<lambda>a. attempt_incident a = i \<and> active (status a)) (attempts db))"
    by (auto simp: counted_def list_ex_iff)
  then have "0 < length (filter (\<lambda>a. attempt_incident a = i \<and> active (status a)) (attempts db))"
    by (rule length_pos_if_in_set)
  then have "1 \<le> active_count i db" unfolding active_count_def by linarith
  with assms(2) show ?thesis by (simp add: may_reserve_def)
qed

section \<open>Properties\<close>

text \<open>
  C18. A call is reserved exactly when the incident is stored, was confirmed, is not cancelled,
  has fewer active attempts than the limit, and no active attempt of any incident was requested
  less than the cooldown ago; the reservation then appends one REQUESTED attempt under a new
  id and marks the incident, and a refusal changes nothing.
\<close>

theorem reservation_policy:
  "reserve_call_attempt now i dest cooldown max_calls db =
     (if may_reserve now i cooldown max_calls db
      then (Ok (attempt_seq db + 1), reserved now i dest db)
      else (fst (reserve_call_attempt now i dest cooldown max_calls db), db))
   \<and> (is_ok (fst (reserve_call_attempt now i dest cooldown max_calls db))
        = may_reserve now i cooldown max_calls db)"
  using reserve_granted reserve_refused [of now i cooldown max_calls db dest] by fastforce

text \<open>
  C16. Over every history of writes in which reservations use the configured limits and no
  failed attempt is brought back by a later status, no incident ever has more active calls than
  the limit, and any two active calls, of whatever incidents, were requested at least the
  cooldown apart.
\<close>

theorem calls_limited:
  assumes "0 \<le> max_calls" and "history cooldown max_calls ws empty_db"
  shows "active_count i (writes ws empty_db) \<le> max_calls
       \<and> sorted_wrt (\<lambda>a b. requested_at a + cooldown * 1000000 \<le> requested_at b)
            (active_attempts (writes ws empty_db))"
proof -
  have "policy_ok cooldown max_calls empty_db"
    using assms(1) by (simp add: policy_ok_def spaced_def active_count_def active_attempts_def empty_db_def)
  from policy_history [OF db_ok_empty this assms(2)] show ?thesis
    by (simp add: policy_ok_def spaced_def)
qed

definition one_call :: "db_write list" where
  "one_call = [UpsertIncident 100 (flame_update ''a-1'' CONFIRMED (8/10)) ''qnx'' (JStr ''b1''),
     ReserveCall 200 ''a-1'' ''hash'' 60 1, ReserveCall 300 ''a-1'' ''hash'' 60 1]"

lemma one_call_history: "history 60 1 one_call empty_db"
  by (simp add: one_call_def allowed_def)

theorem calls_limited_witness:
  "active_count ''a-1'' (writes one_call empty_db) \<le> 1
   \<and> sorted_wrt (\<lambda>a b. requested_at a + 60 * 1000000 \<le> requested_at b)
        (active_attempts (writes one_call empty_db))"
  using calls_limited [OF _ one_call_history] by simp

text \<open>
  The bound needs its condition: the policy does not count FAILED attempts, and a later
  status makes one active again, so with a limit of one a sequence of successful writes leaves
  two active calls of one incident.
\<close>

definition revived :: "db_write list" where
  "revived = [UpsertIncident 100 (flame_update ''a-1'' CONFIRMED (8/10)) ''qnx'' (JStr ''b1''),
     ReserveCall 200 ''a-1'' ''hash'' 60 1,
     UpdateCall 300 300 1 \<lparr>new_status = FAILED, new_conversation_id = None, new_call_sid = None,
        new_error_code = None, new_error_message = None\<rparr>,
     ReserveCall 400 ''a-1'' ''hash'' 60 1,
     UpdateCall 500 500 1 \<lparr>new_status = INITIATED, new_conversation_id = None, new_call_sid = None,
        new_error_code = None, new_error_message = None\<rparr>]"

theorem failed_call_revived: "active_count ''a-1'' (writes revived empty_db) = 2"
  by code_simp

end
