(* ===== verification/Config.thy ===== *)
theory Config
  imports Text
begin

text \<open>
  The settings of the backend, \<^verbatim>\<open>src/backend/app/config.py\<close>: reading the environment and
  \<^verbatim>\<open>Settings.validate\<close>. The environment, after \<open>load_dotenv\<close>, is a map from names to
  texts. Paths are their texts; the log level is a list of code points.
\<close>

type_synonym env = "string \<Rightarrow> string option"

datatype config_error =
  NotBoolean string | NotInteger string | OutOfRange string | TokenLength | DevTokenInProduction
| UnknownProvider | MockInProduction | DispatchNumberRequired | UnsupportedDatabaseUrl

definition getenv :: "env \<Rightarrow> string \<Rightarrow> string \<Rightarrow> string" where
  "getenv env name dflt = (case env name of None \<Rightarrow> dflt | Some v \<Rightarrow> v)"

definition env_bool :: "env \<Rightarrow> string \<Rightarrow> bool \<Rightarrow> (config_error, bool) result" where
  "env_bool env name dflt = (case env name of
       None \<Rightarrow> Ok dflt
     | Some raw \<Rightarrow>
         if lower (strip raw) \<in> {''1'', ''true'', ''yes'', ''on''} then Ok True
         else if lower (strip raw) \<in> {''0'', ''false'', ''no'', ''off''} then Ok False
         else Err (NotBoolean name))"

definition env_int :: "env \<Rightarrow> string \<Rightarrow> int \<Rightarrow> int \<Rightarrow> int \<Rightarrow> (config_error, int) result" where
  "env_int env name dflt minimum maximum =
     (case int_of_text (getenv env name (str_int dflt)) of
        None \<Rightarrow> Err (NotInteger name)
      | Some v \<Rightarrow> if minimum \<le> v \<and> v \<le> maximum then Ok v else Err (OutOfRange name))"

definition env_csv :: "env \<Rightarrow> string \<Rightarrow> string list" where
  "env_csv env name =
     filter (\<lambda>i. i \<noteq> []) (map strip (split_on (CHR '','') (getenv env name [])))"

record settings =
  app_env :: string
  app_host :: string
  app_port :: int
  frontend_origin :: string
  qnx_tcp_host :: string
  qnx_tcp_port :: int
  device_token :: string
  expected_device_id :: string
  database_url :: string
  incident_storage_root :: string
  elevenlabs_api_key :: string
  occupant_agent_id :: string
  dispatch_agent_id :: string
  phone_number_id :: string
  elevenlabs_environment :: string
  demo_calls_enabled :: bool
  demo_dispatch_number :: string
  demo_allowed_numbers :: "string list"
  global_call_cooldown_seconds :: int
  max_calls_per_incident :: int
  call_provider :: string
  enable_simulator_endpoints :: bool
  provider_webhook_secret :: string
  log_level :: "nat list"
  max_payload_bytes :: int
  action_rate_limit_per_minute :: int
  response_timeout_seconds :: int

definition default_settings :: settings where
  "default_settings = \<lparr>app_env = ''development'', app_host = ''0.0.0.0'', app_port = 8000,
     frontend_origin = ''http://localhost:5173'', qnx_tcp_host = ''0.0.0.0'', qnx_tcp_port = 9001,
     device_token = ''replace-me'', expected_device_id = ''ignis-qnxpi-01'',
     database_url = ''sqlite:///./data/ignis.db'', incident_storage_root = ''./data/incidents'',
     elevenlabs_api_key = [], occupant_agent_id = [], dispatch_agent_id = [],
     phone_number_id = [], elevenlabs_environment = ''production'', demo_calls_enabled = False,
     demo_dispatch_number = [], demo_allowed_numbers = [], global_call_cooldown_seconds = 60,
     max_calls_per_incident = 1, call_provider = ''elevenlabs'',
     enable_simulator_endpoints = True, provider_webhook_secret = [], log_level = upper ''INFO'',
     max_payload_bytes = 2097152, action_rate_limit_per_minute = 30,
     response_timeout_seconds = 10\<rparr>"

definition validate :: "settings \<Rightarrow> (config_error, unit) result" where
  "validate s =
     (if device_token s = [] \<or> 512 < length (device_token s) then Err TokenLength
      else if app_env s = ''production'' \<and> device_token s = ''replace-me'' then Err DevTokenInProduction
      else if call_provider s \<notin> {''elevenlabs'', ''mock''} then Err UnknownProvider
      else if call_provider s = ''mock'' \<and> app_env s = ''production'' then Err MockInProduction
      else if demo_calls_enabled s \<and> demo_dispatch_number s = [] then Err DispatchNumberRequired
      else Ok ())"

definition from_env :: "env \<Rightarrow> (config_error, settings) result" where
  "from_env env =
     rbind (env_int env ''APP_PORT'' 8000 1 65535) (\<lambda>port.
     rbind (env_int env ''QNX_TCP_PORT'' 9001 0 65535) (\<lambda>qnx_port.
     rbind (env_bool env ''DEMO_CALLS_ENABLED'' False) (\<lambda>calls_enabled.
     rbind (env_int env ''DEMO_GLOBAL_CALL_COOLDOWN_SECONDS'' 60 0 86400) (\<lambda>cooldown.
     rbind (env_int env ''DEMO_MAX_CALLS_PER_INCIDENT'' 1 1 3) (\<lambda>max_calls.
     rbind (env_bool env ''ENABLE_SIMULATOR_ENDPOINTS'' True) (\<lambda>simulator.
     rbind (env_int env ''IGNIS_RESPONSE_TIMEOUT_SECONDS'' 10 2 300) (\<lambda>timeout.
       let s = \<lparr>app_env = getenv env ''APP_ENV'' ''development'',
           app_host = getenv env ''APP_HOST'' ''0.0.0.0'', app_port = port,
           frontend_origin =
             rstrip_char (CHR ''/'') (getenv env ''FRONTEND_ORIGIN'' ''http://localhost:5173''),
           qnx_tcp_host = getenv env ''QNX_TCP_HOST'' ''0.0.0.0'', qnx_tcp_port = qnx_port,
           device_token = getenv env ''IGNIS_DEVICE_TOKEN'' ''replace-me'',
           expected_device_id = getenv env ''IGNIS_EXPECTED_DEVICE_ID'' ''ignis-qnxpi-01'',
           database_url = getenv env ''DATABASE_URL'' ''sqlite:///./data/ignis.db'',
           incident_storage_root = getenv env ''INCIDENT_STORAGE_ROOT'' ''./data/incidents'',
           elevenlabs_api_key = getenv env ''ELEVENLABS_API_KEY'' [],
           occupant_agent_id = getenv env ''ELEVENLABS_OCCUPANT_AGENT_ID'' [],
           dispatch_agent_id = getenv env ''ELEVENLABS_DISPATCH_AGENT_ID'' [],
           phone_number_id = getenv env ''ELEVENLABS_PHONE_NUMBER_ID'' [],
           elevenlabs_environment = getenv env ''ELEVENLABS_ENVIRONMENT'' ''production'',
           demo_calls_enabled = calls_enabled,
           demo_dispatch_number = strip (getenv env ''DEMO_DISPATCH_NUMBER'' []),
           demo_allowed_numbers = env_csv env ''DEMO_ALLOWED_NUMBERS'',
           global_call_cooldown_seconds = cooldown, max_calls_per_incident = max_calls,
           call_provider = lower (strip (getenv env ''DEMO_CALL_PROVIDER'' ''elevenlabs'')),
           enable_simulator_endpoints = simulator,
           provider_webhook_secret = getenv env ''PROVIDER_WEBHOOK_SECRET'' [],
           log_level = upper (getenv env ''LOG_LEVEL'' ''INFO''),
           max_payload_bytes = 2097152, action_rate_limit_per_minute = 30,
           response_timeout_seconds = timeout\<rparr>
       in rbind (validate s) (\<lambda>_. Ok s))))))))"

text \<open>\<^verbatim>\<open>database_path\<close>: the text after the prefix; resolving it is the file system's.\<close>

definition database_path :: "settings \<Rightarrow> (config_error, string) result" where
  "database_path s = (if starts_with ''sqlite:///'' (database_url s)
     then Ok (drop (length ''sqlite:///'') (database_url s)) else Err UnsupportedDatabaseUrl)"

section \<open>Accepted settings\<close>

definition sound_settings :: "settings \<Rightarrow> bool" where
  "sound_settings s \<longleftrightarrow> 1 \<le> app_port s \<and> app_port s \<le> 65535 \<and> 0 \<le> qnx_tcp_port s
     \<and> qnx_tcp_port s \<le> 65535 \<and> 0 \<le> global_call_cooldown_seconds s
     \<and> global_call_cooldown_seconds s \<le> 86400
     \<and> 1 \<le> max_calls_per_incident s \<and> max_calls_per_incident s \<le> 3
     \<and> 2 \<le> response_timeout_seconds s \<and> response_timeout_seconds s \<le> 300
     \<and> 1 \<le> length (device_token s) \<and> length (device_token s) \<le> 512
     \<and> call_provider s \<in> {''elevenlabs'', ''mock''}
     \<and> (app_env s = ''production'' \<longrightarrow> device_token s \<noteq> ''replace-me'' \<and> call_provider s = ''elevenlabs'')
     \<and> (demo_calls_enabled s \<longrightarrow> demo_dispatch_number s \<noteq> [])
     \<and> [] \<notin> set (demo_allowed_numbers s)"

lemma env_int_range: "env_int env name d lo hi = Inr v \<Longrightarrow> lo \<le> v \<and> v \<le> hi"
  by (auto simp: env_int_def split: option.splits if_splits)

lemma env_int_default: "env name = None \<Longrightarrow> lo \<le> d \<Longrightarrow> d \<le> hi \<Longrightarrow> env_int env name d lo hi = Inr d"
  by (simp add: env_int_def getenv_def int_of_text_str_int)

lemma env_bool_default: "env name = None \<Longrightarrow> env_bool env name d = Inr d"
  by (simp add: env_bool_def)

lemma validate_Ok:
  "validate s = Inr u \<Longrightarrow> 1 \<le> length (device_token s) \<and> length (device_token s) \<le> 512
     \<and> call_provider s \<in> {''elevenlabs'', ''mock''}
     \<and> (app_env s = ''production'' \<longrightarrow> device_token s \<noteq> ''replace-me'' \<and> call_provider s = ''elevenlabs'')
     \<and> (demo_calls_enabled s \<longrightarrow> demo_dispatch_number s \<noteq> [])"
  by (auto simp: validate_def Suc_le_eq split: if_splits)

lemma from_env_fields:
  assumes "from_env env = Inr s"
  shows "env_int env ''APP_PORT'' 8000 1 65535 = Inr (app_port s)"
    and "env_int env ''QNX_TCP_PORT'' 9001 0 65535 = Inr (qnx_tcp_port s)"
    and "env_int env ''DEMO_GLOBAL_CALL_COOLDOWN_SECONDS'' 60 0 86400 = Inr (global_call_cooldown_seconds s)"
    and "env_int env ''DEMO_MAX_CALLS_PER_INCIDENT'' 1 1 3 = Inr (max_calls_per_incident s)"
    and "env_int env ''IGNIS_RESPONSE_TIMEOUT_SECONDS'' 10 2 300 = Inr (response_timeout_seconds s)"
    and "demo_allowed_numbers s = env_csv env ''DEMO_ALLOWED_NUMBERS''"
    and "validate s = Inr ()"
  using assms unfolding from_env_def rbind_Ok Let_def by - (elim exE conjE; clarsimp)+

section \<open>Properties\<close>

text \<open>
  Whatever the environment holds, settings that are accepted have their numbers in range, a
  device token of 1 to 512 characters, a known call provider, neither the development token nor
  the mock provider in production, a dispatch number when calls are enabled, and no blank entry
  in the allow-list.
\<close>

theorem accepted_settings_sound:
  assumes "from_env env = Ok s"
  shows "sound_settings s"
proof -
  note f = from_env_fields [OF assms]
  have "[] \<notin> set (demo_allowed_numbers s)" using f by (simp add: env_csv_def)
  moreover note validate_Ok [of s "()"] f env_int_range
  ultimately show ?thesis unfolding sound_settings_def by (intro conjI) blast+
qed

lemma from_env_empty: "from_env (\<lambda>_. None) = Ok default_settings"
proof -
  have "rstrip_char (CHR ''/'') ''http://localhost:5173'' = ''http://localhost:5173''"
       "strip [] = []" "lower (strip ''elevenlabs'') = ''elevenlabs''"
    by code_simp+
  then show ?thesis
    by (simp add: from_env_def env_int_default env_bool_default getenv_def env_csv_def Let_def
          validate_def default_settings_def)
qed

theorem accepted_settings_sound_witness: "sound_settings default_settings"
  by (rule accepted_settings_sound [OF from_env_empty])

end
