(* ===== verification/Observations.thy ===== *)
theory Observations
  imports Text Database
begin

text \<open>
  What the voice agents are told about an incident: \<^verbatim>\<open>src/backend/app/observation_formatter.py\<close>
  and \<^verbatim>\<open>safe_incident_context\<close> of \<^verbatim>\<open>src/backend/app/communications.py\<close>, on a stored
  incident row.
\<close>

section \<open>Zone names\<close>

definition sanitize_zone :: "string option \<Rightarrow> string" where
  "sanitize_zone value =
     (let text = take 48 (strip (filter safe_char (case value of None \<Rightarrow> [] | Some v \<Rightarrow> v)))
      in if text = [] then ''unconfigured area'' else text)"

section \<open>Observations\<close>

definition number_word :: "int \<Rightarrow> string" where
  "number_word v = (if 1 \<le> v \<and> v \<le> 10
     then [''one'', ''two'', ''three'', ''four'', ''five'', ''six'', ''seven'', ''eight'', ''nine'', ''ten'']
            ! nat (v - 1)
     else str_int v)"

definition rounded_duration :: "rat option \<Rightarrow> string option" where
  "rounded_duration seconds = (case seconds of
       None \<Rightarrow> None
     | Some x \<Rightarrow> if x < 75/100 then None else Some (number_word (rne x)))"

record observations =
  observed_origin :: string
  sequence_observation :: string
  growth_observation :: string
  occupant_observation :: string
  cause_statement :: string

definition origin_text :: "string \<Rightarrow> string" where
  "origin_text zone =
     (if lower zone \<in> {''unconfigured area'', ''general room'', ''unknown''}
      then ''The source is not visible from the camera.''
      else ''Visible flames first appeared in the configured '' @ lower zone @ '' zone.'')"

definition sequence_text :: "bool option \<Rightarrow> string option \<Rightarrow> string" where
  "sequence_text smoke delay = (case (smoke, delay) of
       (Some True, Some d) \<Rightarrow>
         ''Smoke was detected approximately '' @ d @ '' seconds before visible flames.''
     | (Some False, Some d) \<Rightarrow>
         ''Visible flames were detected approximately '' @ d @ '' seconds before smoke.''
     | _ \<Rightarrow> ''The visual sequence could not be determined reliably.'')"

definition growth_text :: "rat option \<Rightarrow> string" where
  "growth_text growth = (case growth of
       Some g \<Rightarrow> if 20 \<le> g \<and> g \<le> 1000 then ''The visible fire region expanded during verification.''
                 else ''Stable visual-region growth was not established.''
     | None \<Rightarrow> ''Stable visual-region growth was not established.'')"

definition occupant_text :: "bool option \<Rightarrow> string" where
  "occupant_text occupant = (case occupant of
       Some True \<Rightarrow> ''An occupant was visibly detected.''
     | Some False \<Rightarrow> ''No occupant was visibly detected in the available frame.''
     | None \<Rightarrow> ''Occupant visibility was not determined.'')"

definition format_observations ::
  "string option \<Rightarrow> rat option \<Rightarrow> bool option \<Rightarrow> rat option \<Rightarrow> bool option \<Rightarrow> observations" where
  "format_observations zone_value delay_seconds smoke growth occupant =
     \<lparr>observed_origin = take 180 (origin_text (sanitize_zone zone_value)),
      sequence_observation = take 180 (sequence_text smoke (rounded_duration delay_seconds)),
      growth_observation = growth_text growth,
      occupant_observation = occupant_text occupant,
      cause_statement = ''The exact cause is unconfirmed.''\<rparr>"

section \<open>The context of an incident\<close>

text \<open>
  \<open>round(100 * float(x))\<close> and \<open>round(float(x), 1)\<close>; the second rounds the exact value of
  the double to a decimal with one place and reads it back. The two constant texts of the
  dictionary are left out.
\<close>

definition percent :: "rat \<Rightarrow> int" where
  "percent x = rne (fmul 100 x)"

definition round1 :: "rat \<Rightarrow> rat" where
  "round1 x = fl (of_int (rne (10 * x)) / 10)"

record context_data =
  c_incident_id :: string
  c_hazard_state :: hazard_state
  c_response_state :: response_state
  c_zone :: string
  c_fire_confidence_percent :: int
  c_smoke_confidence_percent :: int
  c_duration_seconds :: rat
  c_smoke_first :: "bool option"
  c_smoke_to_fire_delay_seconds :: "rat option"
  c_fire_region_growth_percent :: "rat option"
  c_occupant_visible :: string
  c_observations :: observations

definition safe_incident_context :: "incident \<Rightarrow> context_data" where
  "safe_incident_context r =
     \<lparr>c_incident_id = incident_id r, c_hazard_state = hazard_state r,
      c_response_state = response_state r, c_zone = sanitize_zone (first_zone r),
      c_fire_confidence_percent = percent (peak_fire_confidence r),
      c_smoke_confidence_percent = percent (peak_smoke_confidence r),
      c_duration_seconds = round1 (seconds_persistent r), c_smoke_first = smoke_first r,
      c_smoke_to_fire_delay_seconds = smoke_to_fire_delay_seconds r,
      c_fire_region_growth_percent = max_growth_percent r,
      c_occupant_visible = (case occupant_visible r of
          None \<Rightarrow> ''unknown'' | Some True \<Rightarrow> ''true'' | Some False \<Rightarrow> ''false''),
      c_observations = format_observations (first_zone r) (smoke_to_fire_delay_seconds r)
        (smoke_first r) (max_growth_percent r) (occupant_visible r)\<rparr>"

section \<open>Facts\<close>

lemma fallback_zone_safe: "list_all safe_char ''unconfigured area''"
  by code_simp

lemma sanitize_zone_safe: "c \<in> set (sanitize_zone v) \<Longrightarrow> safe_char c"
proof -
  let ?s = "filter safe_char (case v of None \<Rightarrow> [] | Some v \<Rightarrow> v)"
  assume c: "c \<in> set (sanitize_zone v)"
  show "safe_char c"
  proof (cases "take 48 (strip ?s) = []")
    case True
    then have "sanitize_zone v = ''unconfigured area''" by (simp add: sanitize_zone_def Let_def)
    with c fallback_zone_safe show ?thesis unfolding list_all_iff by metis
  next
    case False
    with c have "c \<in> set (take 48 (strip ?s))" by (simp add: sanitize_zone_def Let_def)
    then have "c \<in> set ?s" using set_strip [of ?s] set_take_subset by fast
    then show ?thesis by simp
  qed
qed

lemma sanitize_zone_length: "1 \<le> length (sanitize_zone v) \<and> length (sanitize_zone v) \<le> 48"
  by (auto simp: sanitize_zone_def Let_def Suc_le_eq)

lemma strip_inner:
  assumes "s \<noteq> []" and "\<not> is_space (hd s)" and "\<not> is_space (last s)"
  shows "strip s = s"
proof -
  from assms(1,2) have "dropWhile is_space s = s" by (cases s) auto
  moreover from assms(1,3) have "dropWhile is_space (rev s) = rev s"
    by (cases s rule: rev_cases) auto
  ultimately show ?thesis by (simp add: strip_def)
qed

lemma sanitize_zone_id:
  assumes "s \<noteq> []" and "\<forall>c \<in> set s. safe_char c" and "length s \<le> 48"
    and "\<not> is_space (hd s)" and "\<not> is_space (last s)"
  shows "sanitize_zone (Some s) = s"
  using assms strip_inner [OF assms(1,4,5)] by (simp add: sanitize_zone_def Let_def filter_True)

lemma percent_range: "0 \<le> x \<Longrightarrow> x \<le> 1 \<Longrightarrow> 0 \<le> percent x \<and> percent x \<le> 100"
proof -
  assume "0 \<le> x" "x \<le> 1"
  then have "0 \<le> fmul 100 x" "fmul 100 x \<le> fl 100"
    by (simp_all add: fmul_def fl_nonneg fl_mono)
  moreover have "fl 100 = 100" using fl_representable [OF representable_of_int [of 100]] by simp
  ultimately have "rne 0 \<le> rne (fmul 100 x)" "rne (fmul 100 x) \<le> rne (of_int 100)"
    by (auto intro!: rne_mono simp: rne_nonneg)
  then show ?thesis by (simp only: percent_def rne_of_int rne_numeral)
qed

lemma lower_safe: "safe_char c \<Longrightarrow> safe_char (lower_char c)"
  by (auto simp: lower_char_def safe_char_def between_def is_digit_def take_bit_nat_def)

lemma origin_length: "length (origin_text (sanitize_zone v)) \<le> 102"
  using sanitize_zone_length [of v] by (simp add: origin_text_def)

lemma sequence_cautious:
  "sequence_observation (c_observations (safe_incident_context r))
     = ''The visual sequence could not be determined reliably.''
   \<or> (\<exists>d. smoke_to_fire_delay_seconds r = Some d \<and> 75/100 \<le> d \<and> smoke_first r \<noteq> None)"
proof (cases "smoke_first r = None \<or> rounded_duration (smoke_to_fire_delay_seconds r) = None")
  case True
  then have "sequence_text (smoke_first r) (rounded_duration (smoke_to_fire_delay_seconds r))
      = ''The visual sequence could not be determined reliably.''"
    by (auto simp: sequence_text_def split: option.split bool.split)
  then show ?thesis by (simp add: safe_incident_context_def format_observations_def)
next
  case False
  then show ?thesis by (auto simp: rounded_duration_def split: option.splits if_splits)
qed

lemma growth_text_iff:
  "growth_text g = ''The visible fire region expanded during verification.''
   \<longleftrightarrow> (\<exists>x. g = Some x \<and> 20 \<le> x \<and> x \<le> 1000)"
  by (cases g) (simp_all add: growth_text_def)

lemma growth_reported:
  "growth_observation (c_observations (safe_incident_context r))
     = ''The visible fire region expanded during verification.''
   \<longleftrightarrow> (\<exists>g. max_growth_percent r = Some g \<and> 20 \<le> g \<and> g \<le> 1000)"
  unfolding growth_text_iff [symmetric]
  by (simp add: safe_incident_context_def format_observations_def)

section \<open>Properties\<close>

text \<open>
  The zone an agent hears is one to 48 characters of the safe alphabet whatever text the
  device sent, and a clean zone name of that length is passed on as it is.
\<close>

theorem zone_text_safe:
  "(\<forall>c \<in> set (sanitize_zone v). safe_char c)
   \<and> 1 \<le> length (sanitize_zone v) \<and> length (sanitize_zone v) \<le> 48
   \<and> (\<forall>s. s \<noteq> [] \<and> (\<forall>c \<in> set s. safe_char c) \<and> length s \<le> 48
          \<and> \<not> is_space (hd s) \<and> \<not> is_space (last s) \<longrightarrow> sanitize_zone (Some s) = s)"
  using sanitize_zone_safe sanitize_zone_length sanitize_zone_id by blast

theorem zone_text_safe_witness:
  "sanitize_zone (Some ''Hall'') = ''Hall'' \<and> length (sanitize_zone (Some ''<b>'')) \<le> 48"
proof
  have "list_all safe_char ''Hall''" "\<not> is_space (hd ''Hall'')" "\<not> is_space (last ''Hall'')"
    by code_simp+
  then have clean: "''Hall'' \<noteq> [] \<and> (\<forall>c \<in> set ''Hall''. safe_char c) \<and> length ''Hall'' \<le> 48
      \<and> \<not> is_space (hd ''Hall'') \<and> \<not> is_space (last ''Hall'')"
    unfolding list_all_iff by (intro conjI) simp_all
  show "sanitize_zone (Some ''Hall'') = ''Hall''"
    by (rule mp [OF spec [OF zone_text_safe [of None, THEN conjunct2, THEN conjunct2, THEN conjunct2]] clean])
  show "length (sanitize_zone (Some ''<b>'')) \<le> 48"
    by (rule zone_text_safe [THEN conjunct2, THEN conjunct2, THEN conjunct1])
qed

text \<open>
  The context of an incident whose peaks are confidences reports percentages from 0 to 100
  and texts of at most 180 characters, names an order of smoke and flames only when the delay
  is known to be at least 0.75 seconds, and reports growth only when a growth between 20 and
  1000 percent is stored.
\<close>

theorem context_is_cautious:
  assumes "0 \<le> peak_fire_confidence r" and "peak_fire_confidence r \<le> 1"
    and "0 \<le> peak_smoke_confidence r" and "peak_smoke_confidence r \<le> 1"
  shows "c_fire_confidence_percent (safe_incident_context r) \<in> {0..100}
       \<and> c_smoke_confidence_percent (safe_incident_context r) \<in> {0..100}
       \<and> length (observed_origin (c_observations (safe_incident_context r))) \<le> 180
       \<and> (sequence_observation (c_observations (safe_incident_context r))
              = ''The visual sequence could not be determined reliably.''
           \<or> (\<exists>d. smoke_to_fire_delay_seconds r = Some d \<and> 75/100 \<le> d \<and> smoke_first r \<noteq> None))
       \<and> (growth_observation (c_observations (safe_incident_context r))
              = ''The visible fire region expanded during verification.''
          \<longleftrightarrow> (\<exists>g. max_growth_percent r = Some g \<and> 20 \<le> g \<and> g \<le> 1000))"
proof -
  let ?o = "c_observations (safe_incident_context r)"
  have "length (observed_origin ?o) \<le> 180"
    by (simp add: safe_incident_context_def format_observations_def)
  moreover have "c_fire_confidence_percent (safe_incident_context r) \<in> {0..100}"
    and "c_smoke_confidence_percent (safe_incident_context r) \<in> {0..100}"
    using percent_range assms by (simp_all add: safe_incident_context_def)
  moreover note sequence_cautious [of r] growth_reported [of r]
  ultimately show ?thesis by blast
qed

theorem context_is_cautious_witness:
  "c_fire_confidence_percent (safe_incident_context
     (new_incident 0 \<lparr>u_incident_id = ''a'', u_device_id = None, u_boot_id = None,
        u_hazard_state = CONFIRMED, u_response_state = IDLE, u_first_detection_monotonic_ns = 0,
        u_updated_monotonic_ns = 0, u_fire_confidence = 1/2, u_smoke_confidence = 0,
        u_seconds_persistent = 0, u_first_zone = ''Hall'', u_current_zone = ''Hall'',
        u_primary_fire_bbox = None, u_primary_smoke_bbox = None,
        u_fire_region_growth_percent = None, u_smoke_first = None,
        u_smoke_to_fire_delay_seconds = None, u_occupant_visible = None,
        u_camera_health = [], u_inference_health = []\<rparr> ''d'' (JStr ''b''))) \<in> {0..100}"
  using context_is_cautious by (simp add: new_incident_def)

end
