(* ===== verification/Communications.thy ===== *)
theory Communications
  imports Config Observations CallPolicy
begin

text \<open>
  The demonstration call, \<^verbatim>\<open>src/backend/app/communications.py\<close>: the checks on the dialled
  number, the guards of \<^verbatim>\<open>request_demo_call\<close>, the request to the provider and the recording
  of its outcome, and the check of the provider's webhook secret. The code awaits the provider
  between \<open>begin_call\<close> and \<open>finish_call\<close>, so the two are separate functions and
  \<open>request_demo_call\<close> is their composition with nothing in between. The provider is an
  argument, a function from the request to its reply; so is SHA-256.
\<close>

section \<open>Errors\<close>

datatype comm_error =
  DestinationNotE164 | EmergencyForbidden | NotAllowlisted | VoiceNotConfigured
| SignedUrlProviderError | SignedUrlInvalid | DemoCallsDisabled | CallIncidentNotFound
| CallNotConfirmed | CallCancelled | DispatchNotConfigured | PolicyRefused policy
| OutcomeUnknown | ConnectionFailed | ProviderRejected | BadProviderBody | StoreFailed db_error

text \<open>The HTTP status of a \<^verbatim>\<open>CommunicationError\<close>; the last two are other exceptions.\<close>

fun status_code :: "comm_error \<Rightarrow> int" where
  "status_code DestinationNotE164 = 400"
| "status_code EmergencyForbidden = 403"
| "status_code NotAllowlisted = 403"
| "status_code VoiceNotConfigured = 503"
| "status_code SignedUrlProviderError = 502"
| "status_code SignedUrlInvalid = 502"
| "status_code DemoCallsDisabled = 403"
| "status_code CallIncidentNotFound = 404"
| "status_code CallNotConfirmed = 409"
| "status_code CallCancelled = 409"
| "status_code DispatchNotConfigured = 503"
| "status_code (PolicyRefused p) = 409"
| "status_code OutcomeUnknown = 502"
| "status_code ConnectionFailed = 502"
| "status_code ProviderRejected = 502"
| "status_code BadProviderBody = 500"
| "status_code (StoreFailed e) = 500"

section \<open>Destinations\<close>

text \<open>The pattern \<^verbatim>\<open>\+[1-9]\d{7,14}\<close> on the whole text.\<close>

definition is_e164 :: "string \<Rightarrow> bool" where
  "is_e164 s = (case s of
       p # d # ds \<Rightarrow> p = CHR ''+'' \<and> between 49 57 d \<and> 7 \<le> length ds \<and> length ds \<le> 14
                     \<and> list_all is_digit ds
     | _ \<Rightarrow> False)"

definition emergency_numbers :: "string list" where
  "emergency_numbers = [''000'', ''110'', ''112'', ''118'', ''119'', ''911'', ''999'']"

definition last3 :: "string \<Rightarrow> string" where
  "last3 s = drop (length s - 3) s"

definition validate_destination :: "string \<Rightarrow> string list \<Rightarrow> (comm_error, unit) result" where
  "validate_destination destination allowed_numbers =
     (if \<not> is_e164 destination then Err DestinationNotE164
      else let ds = dropWhile (\<lambda>c. c = CHR ''+'') destination in
        if ds \<in> set emergency_numbers \<or> last3 ds \<in> set emergency_numbers then Err EmergencyForbidden
        else if destination \<notin> set allowed_numbers then Err NotAllowlisted
        else Ok ())"

text \<open>What is shown of a number: two characters at each end around a fixed mask.\<close>

datatype masked = MaskedEnds string string | FullyMasked

definition mask_destination :: "string \<Rightarrow> masked" where
  "mask_destination d =
     (if 6 \<le> length d then MaskedEnds (take 2 d) (drop (length d - 2) d) else FullyMasked)"

section \<open>The provider\<close>

text \<open>
  The JSON payload: the texts of the dynamic variables are those of the context, the duration
  as its number.
\<close>

record provider_request =
  agent_id :: string
  agent_phone_number_id :: string
  to_number :: string
  request_context :: context_data
  occupant_statement :: string
  environment :: string

definition provider_request :: "settings \<Rightarrow> incident \<Rightarrow> provider_request" where
  "provider_request s r =
     \<lparr>agent_id = dispatch_agent_id s, agent_phone_number_id = phone_number_id s,
      to_number = demo_dispatch_number s, request_context = safe_incident_context r,
      occupant_statement = (if occupant_response r = Some ''confirmed''
        then ''The occupant confirmed the emergency.'' else ''No occupant response was received.''),
      environment = elevenlabs_environment s\<rparr>"

text \<open>
  A reply with its status and body; \<open>None\<close> is a body that is not a JSON object, on which
  \<open>response.json()\<close> or \<open>get\<close> raises.
\<close>

datatype reply = Timeout | HttpError | Response int "dict option"

type_synonym provider = "provider_request \<Rightarrow> reply"

record call_result =
  provider_name :: string
  result_conversation :: json
  result_destination :: masked

section \<open>Requesting a call\<close>

definition begin_call ::
  "settings \<Rightarrow> (string \<Rightarrow> string) \<Rightarrow> time \<Rightarrow> string \<Rightarrow> database
   \<Rightarrow> (comm_error, int \<times> incident) result \<times> database" where
  "begin_call s sha now i db =
     (if \<not> demo_calls_enabled s then (Err DemoCallsDisabled, db)
      else case validate_destination (demo_dispatch_number s) (demo_allowed_numbers s) of
        Inl e \<Rightarrow> (Err e, db)
      | Inr _ \<Rightarrow> (case get_incident i db of
          None \<Rightarrow> (Err CallIncidentNotFound, db)
        | Some r \<Rightarrow>
            if confirmed_at r = None then (Err CallNotConfirmed, db)
            else if response_state r = CANCELLED then (Err CallCancelled, db)
            else if call_provider s = ''elevenlabs''
                 \<and> (elevenlabs_api_key s = [] \<or> dispatch_agent_id s = [] \<or> phone_number_id s = [])
              then (Err DispatchNotConfigured, db)
            else (case reserve_call_attempt now i (sha (demo_dispatch_number s))
                         (global_call_cooldown_seconds s) (max_calls_per_incident s) db of
                    (Inl (CallPolicy p), db) \<Rightarrow> (Err (PolicyRefused p), db)
                  | (Inl e, db) \<Rightarrow> (Err (StoreFailed e), db)
                  | (Inr n, db) \<Rightarrow> (Ok (n, r), db))))"

definition record_outcome ::
  "time \<Rightarrow> time \<Rightarrow> int \<Rightarrow> call_update \<Rightarrow> (comm_error, 'a) result \<Rightarrow> database
   \<Rightarrow> (comm_error, 'a) result \<times> database" where
  "record_outcome t1 t2 n c res db = (case update_call_attempt t1 t2 n c db of
       (Inl e, db) \<Rightarrow> (Err (StoreFailed e), db)
     | (Inr _, db) \<Rightarrow> (res, db))"

text \<open>\<open>str(x) if x else None\<close>.\<close>

definition text_if :: "(json \<Rightarrow> string) \<Rightarrow> json \<Rightarrow> string option" where
  "text_if repr v = (if truthy v then Some (py_str repr v) else None)"

definition finish_mock :: "settings \<Rightarrow> time \<Rightarrow> time \<Rightarrow> int \<Rightarrow> database
   \<Rightarrow> (comm_error, call_result) result \<times> database" where
  "finish_mock s t1 t2 n db =
     (let conversation = ''mock-'' @ str_int n in
      record_outcome t1 t2 n \<lparr>new_status = INITIATED, new_conversation_id = Some conversation,
          new_call_sid = None, new_error_code = None, new_error_message = None\<rparr>
        (Ok \<lparr>provider_name = ''mock'', result_conversation = JStr conversation,
             result_destination = mask_destination (demo_dispatch_number s)\<rparr>) db)"

definition finish_call :: "settings \<Rightarrow> (json \<Rightarrow> string) \<Rightarrow> time \<Rightarrow> time \<Rightarrow> int \<Rightarrow> reply \<Rightarrow> database
   \<Rightarrow> (comm_error, call_result) result \<times> database" where
  "finish_call s repr t1 t2 n rep db = (case rep of
       Timeout \<Rightarrow> record_outcome t1 t2 n
         \<lparr>new_status = UNKNOWN, new_conversation_id = None, new_call_sid = None,
          new_error_code = Some ''provider_timeout'',
          new_error_message = Some ''Provider outcome is unknown; automatic retry was suppressed.''\<rparr>
         (Err OutcomeUnknown) db
     | HttpError \<Rightarrow> record_outcome t1 t2 n
         \<lparr>new_status = FAILED, new_conversation_id = None, new_call_sid = None,
          new_error_code = Some ''provider_connection_error'',
          new_error_message = Some ''Could not reach the configured call provider.''\<rparr>
         (Err ConnectionFailed) db
     | Response code body \<Rightarrow>
         if 400 \<le> code then record_outcome t1 t2 n
           \<lparr>new_status = FAILED, new_conversation_id = None, new_call_sid = None,
            new_error_code = Some (''provider_http_'' @ str_int code),
            new_error_message = Some ''The call provider rejected the request.''\<rparr>
           (Err ProviderRejected) db
         else (case body of
             None \<Rightarrow> (Err BadProviderBody, db)
           | Some d \<Rightarrow>
               let conversation = get_default d ''conversation_id'' JNull;
                   sid = get_default d ''callSid'' JNull
               in record_outcome t1 t2 n
                 \<lparr>new_status = INITIATED, new_conversation_id = text_if repr conversation,
                  new_call_sid = text_if repr sid, new_error_code = None, new_error_message = None\<rparr>
                 (Ok \<lparr>provider_name = ''elevenlabs_twilio'', result_conversation = conversation,
                      result_destination = mask_destination (demo_dispatch_number s)\<rparr>) db))"

text \<open>The whole method: its result, the requests sent to the provider, and the database.\<close>

definition request_demo_call ::
  "settings \<Rightarrow> (string \<Rightarrow> string) \<Rightarrow> (json \<Rightarrow> string) \<Rightarrow> provider \<Rightarrow> time \<Rightarrow> time \<Rightarrow> time \<Rightarrow> string
   \<Rightarrow> database \<Rightarrow> (comm_error, call_result) result \<times> provider_request list \<times> database" where
  "request_demo_call s sha repr provider now t1 t2 i db =
     (case begin_call s sha now i db of
        (Inl e, db) \<Rightarrow> (Err e, [], db)
      | (Inr (n, r), db) \<Rightarrow>
          if call_provider s = ''mock''
          then (case finish_mock s t1 t2 n db of (res, db) \<Rightarrow> (res, [], db))
          else let q = provider_request s r in
            (case finish_call s repr t1 t2 n (provider q) db of (res, db) \<Rightarrow> (res, [q], db)))"

section \<open>Signed URL and webhook secret\<close>

definition signed_url :: "settings \<Rightarrow> int \<Rightarrow> json option \<Rightarrow> (comm_error, string) result" where
  "signed_url s code url =
     (if elevenlabs_api_key s = [] \<or> occupant_agent_id s = [] then Err VoiceNotConfigured
      else if 400 \<le> code then Err SignedUrlProviderError
      else (case url of
          Some (JStr u) \<Rightarrow> if starts_with ''wss://'' u then Ok u else Err SignedUrlInvalid
        | _ \<Rightarrow> Err SignedUrlInvalid))"

text \<open>
  \<open>hmac.compare_digest\<close> of two texts raises TypeError when one has a character outside
  ASCII: \<open>None\<close>.
\<close>

definition ascii :: "string \<Rightarrow> bool" where
  "ascii s \<longleftrightarrow> list_all (\<lambda>c. ord c < 128) s"

definition compare_digest :: "string \<Rightarrow> string \<Rightarrow> bool option" where
  "compare_digest a b = (if ascii a \<and> ascii b then Some (a = b) else None)"

definition authenticate_provider_webhook :: "settings \<Rightarrow> string option \<Rightarrow> bool option" where
  "authenticate_provider_webhook s supplied =
     (if provider_webhook_secret s = [] then Some False
      else case supplied of
        None \<Rightarrow> Some False
      | Some x \<Rightarrow> if x = [] then Some False else compare_digest (provider_webhook_secret s) x)"

section \<open>Facts\<close>

lemma begin_call_Ok:
  assumes "begin_call s sha now i db = (Inr (n, r), db')"
  shows "demo_calls_enabled s"
    and "validate_destination (demo_dispatch_number s) (demo_allowed_numbers s) = Inr ()"
    and "get_incident i db = Some r"
    and "may_reserve now i (global_call_cooldown_seconds s) (max_calls_per_incident s) db"
    and "n = attempt_seq db + 1"
    and "db' = reserved now i (sha (demo_dispatch_number s)) db"
    and "call_provider s = ''elevenlabs'' \<Longrightarrow>
         elevenlabs_api_key s \<noteq> [] \<and> dispatch_agent_id s \<noteq> [] \<and> phone_number_id s \<noteq> []"
proof -
  let ?c = "global_call_cooldown_seconds s" and ?m = "max_calls_per_incident s"
  have res: "reserve_call_attempt now i (sha (demo_dispatch_number s)) ?c ?m db = (Inr n, db')"
    and *: "demo_calls_enabled s"
      "validate_destination (demo_dispatch_number s) (demo_allowed_numbers s) = Inr ()"
      "get_incident i db = Some r"
      "call_provider s = ''elevenlabs'' \<Longrightarrow>
         elevenlabs_api_key s \<noteq> [] \<and> dispatch_agent_id s \<noteq> [] \<and> phone_number_id s \<noteq> []"
    using assms
    by (auto simp: begin_call_def split: if_splits sum.splits option.splits prod.splits db_error.splits)
  have may: "may_reserve now i ?c ?m db"
    using reserve_refused [of now i ?c ?m db "sha (demo_dispatch_number s)"] res by fastforce
  with reserve_granted [OF may, of "sha (demo_dispatch_number s)"] res *
  show "demo_calls_enabled s"
    "validate_destination (demo_dispatch_number s) (demo_allowed_numbers s) = Inr ()"
    "get_incident i db = Some r" "may_reserve now i ?c ?m db" "n = attempt_seq db + 1"
    "db' = reserved now i (sha (demo_dispatch_number s)) db"
    "call_provider s = ''elevenlabs'' \<Longrightarrow>
       elevenlabs_api_key s \<noteq> [] \<and> dispatch_agent_id s \<noteq> [] \<and> phone_number_id s \<noteq> []"
    by simp_all
qed

lemma reserve_unchanged:
  "reserve_call_attempt now i dest cd mx db = (Inl e, db') \<Longrightarrow> db' = db"
  using reserve_granted [of now i cd mx db dest] reserve_refused [of now i cd mx db dest] by fastforce

lemma begin_call_Err: "begin_call s sha now i db = (Inl e, db') \<Longrightarrow> db' = db"
  by (auto simp: begin_call_def split: if_splits sum.splits option.splits prod.splits db_error.splits
      dest: reserve_unchanged)

lemma may_reserve_incident:
  "may_reserve now i cd mx db \<Longrightarrow> get_incident i db = Some r
   \<Longrightarrow> confirmed_at r \<noteq> None \<and> response_state r \<noteq> CANCELLED"
  by (simp add: may_reserve_def)

lemma emergency_length: "e \<in> set emergency_numbers \<Longrightarrow> length e = 3"
  by (auto simp: emergency_numbers_def)

lemma validate_destination_Ok:
  "validate_destination d al = Inr u \<longleftrightarrow>
     is_e164 d \<and> last3 (tl d) \<notin> set emergency_numbers \<and> d \<in> set al"
proof -
  have tl: "dropWhile (\<lambda>c. c = CHR ''+'') d = tl d" "8 \<le> length (tl d)" if "is_e164 d"
    using that by (auto simp: is_e164_def between_def split: list.splits)
  have "tl d \<notin> set emergency_numbers" if "is_e164 d"
    using tl(2) [OF that] emergency_length by fastforce
  then show ?thesis using tl by (auto simp: validate_destination_def Let_def split: if_splits)
qed

lemma get_attempt_reserved:
  assumes "db_ok db"
  shows "get_attempt (attempt_seq db + 1) (reserved now i dest db) = Some (new_attempt now i dest db)"
proof -
  have "find_row attempt_id (attempt_seq db + 1) (attempts db) = None"
    using assms by (fastforce simp: db_ok_def numbered_def find_row_None)
  then show ?thesis by (simp add: get_attempt_def find_row_append new_attempt_def)
qed

lemma record_outcome_eq:
  assumes "get_attempt n db = Some a" and "response_of (new_status c) = Some rs"
  shows "record_outcome t1 t2 n c res db =
    (res, set_incident (attempt_incident a) (incident_call_update t2 rs c) (write_attempt t1 n c db))"
  using assms by (simp add: record_outcome_def update_call_attempt_eq Let_def)

lemma get_attempt_recorded:
  assumes "get_attempt n db = Some a" and "new_status c \<noteq> REQUESTED"
  shows "get_attempt n (snd (record_outcome t1 t2 n c res db)) = Some (attempt_update t1 c a)"
    and "fst (record_outcome t1 t2 n c res db) = res"
    and "attempts (snd (record_outcome t1 t2 n c res db))
       = update_where (\<lambda>a. attempt_id a = n) (attempt_update t1 c) (attempts db)"
proof -
  from assms(2) obtain rs where "response_of (new_status c) = Some rs"
    by (cases "new_status c") auto
  with assms(1) show "get_attempt n (snd (record_outcome t1 t2 n c res db)) = Some (attempt_update t1 c a)"
    "fst (record_outcome t1 t2 n c res db) = res"
    "attempts (snd (record_outcome t1 t2 n c res db))
       = update_where (\<lambda>a. attempt_id a = n) (attempt_update t1 c) (attempts db)"
    by (simp_all add: record_outcome_eq get_attempt_write attempt_update_def attempts_write)
qed

lemma update_call_ids:
  "map attempt_id (attempts (snd (update_call_attempt t1 t2 n c db))) = map attempt_id (attempts db)"
  by (auto simp: update_call_attempt_eq Let_def attempts_write map_update_where split: option.splits)

lemma record_outcome_db: "snd (record_outcome t1 t2 n c res db) = snd (update_call_attempt t1 t2 n c db)"
  by (simp add: record_outcome_def split: sum.splits prod.splits)

lemma finish_call_ids:
  "map attempt_id (attempts (snd (finish_call s repr t1 t2 n rep db))) = map attempt_id (attempts db)"
  by (auto simp: finish_call_def Let_def record_outcome_db update_call_ids
      split: reply.splits option.splits)

lemma last3_tl: "4 \<le> length d \<Longrightarrow> last3 (tl d) = last3 d"
  by (cases d) (auto simp: last3_def drop_Cons')

lemma e164_length: "is_e164 d \<Longrightarrow> 9 \<le> length d"
  by (auto simp: is_e164_def split: list.splits)

definition reply_status :: "reply \<Rightarrow> call_status" where
  "reply_status rep = (case rep of Timeout \<Rightarrow> UNKNOWN | HttpError \<Rightarrow> FAILED
     | Response code body \<Rightarrow>
         if 400 \<le> code then FAILED else if body = None then REQUESTED else INITIATED)"

lemma finish_call_status:
  assumes "get_attempt n db = Some a" and "status a = REQUESTED"
  shows "\<exists>a'. get_attempt n (snd (finish_call s repr t1 t2 n rep db)) = Some a'
           \<and> attempt_incident a' = attempt_incident a \<and> requested_at a' = requested_at a
           \<and> status a' = reply_status rep"
  using assms
  by (cases rep) (auto simp: finish_call_def reply_status_def Let_def get_attempt_recorded(1) [OF assms(1)]
      split: option.splits)

lemma finish_call_result:
  assumes "get_attempt n db = Some a"
  shows "is_ok (fst (finish_call s repr t1 t2 n rep db)) \<longleftrightarrow> reply_status rep = INITIATED"
  by (cases rep) (auto simp: finish_call_def reply_status_def Let_def get_attempt_recorded(2) [OF assms]
      split: option.splits)

section \<open>Properties\<close>

text \<open>
  C8. A request leaves for the provider only when calls are enabled, to the one configured
  number, which is a number in international form on the allow-list and does not end in an
  emergency number, for an incident that is stored, confirmed and not cancelled and that the
  policy on calls admits; it is one request, and its attempt is stored before it leaves.
\<close>

theorem provider_request_guarded:
  assumes "request_demo_call s sha repr provider now t1 t2 i db = (res, sent, db')"
    and "q \<in> set sent"
  shows "sent = [q] \<and> demo_calls_enabled s \<and> to_number q = demo_dispatch_number s
       \<and> is_e164 (to_number q) \<and> last3 (to_number q) \<notin> set emergency_numbers
       \<and> to_number q \<in> set (demo_allowed_numbers s)
       \<and> (\<exists>r. get_incident i db = Some r \<and> confirmed_at r \<noteq> None \<and> response_state r \<noteq> CANCELLED)
       \<and> may_reserve now i (global_call_cooldown_seconds s) (max_calls_per_incident s) db
       \<and> map attempt_id (attempts db') = map attempt_id (attempts db) @ [attempt_seq db + 1]"
proof -
  from assms obtain n r db1 where b: "begin_call s sha now i db = (Inr (n, r), db1)"
    and q: "sent = [q]" "q = provider_request s r"
    and db': "db' = snd (finish_call s repr t1 t2 n (provider q) db1)"
    by (auto simp: request_demo_call_def Let_def split: sum.splits prod.splits if_splits)
  note g = begin_call_Ok [OF b]
  from q have number: "to_number q = demo_dispatch_number s" by (simp add: provider_request_def)
  have "map attempt_id (attempts db') = map attempt_id (attempts db) @ [attempt_seq db + 1]"
    unfolding db' finish_call_ids using g(6) by (simp add: new_attempt_def)
  moreover have "last3 (to_number q) \<notin> set emergency_numbers"
  proof -
    from g(2) have "is_e164 (demo_dispatch_number s)" "last3 (tl (demo_dispatch_number s)) \<notin> set emergency_numbers"
      by (simp_all add: validate_destination_Ok)
    then show ?thesis using e164_length by (fastforce simp: number last3_tl)
  qed
  ultimately show ?thesis
    using g number q may_reserve_incident [OF g(4,3)] by (auto simp: validate_destination_Ok)
qed

definition call_settings :: settings where
  "call_settings = default_settings\<lparr>elevenlabs_api_key := ''k'', dispatch_agent_id := ''d'',
     phone_number_id := ''p'', demo_calls_enabled := True, demo_dispatch_number := ''+15551234567'',
     demo_allowed_numbers := [''+15551234567'']\<rparr>"

definition timed_out_call ::
  "(comm_error, call_result) result \<times> provider_request list \<times> database" where
  "timed_out_call = request_demo_call call_settings (\<lambda>d. d) (\<lambda>_. []) (\<lambda>_. Timeout) 200 300 400
     ''a-1'' flame_db"

lemma timed_out_call_sent: "length (fst (snd timed_out_call)) = 1"
  by code_simp

lemma flame_db_ok: "db_ok flame_db"
  using db_ok_exec [OF db_ok_empty, of "UpsertIncident 100 (flame_update ''a-1'' CONFIRMED (8/10)) ''qnx'' (JStr ''b1'')"]
  by (simp add: exec_def flame_db_def)

theorem provider_request_guarded_witness:
  "to_number (hd (fst (snd timed_out_call))) = ''+15551234567''
   \<and> is_e164 (to_number (hd (fst (snd timed_out_call))))"
proof -
  obtain res sent db' where r: "timed_out_call = (res, sent, db')" by (cases timed_out_call)
  from timed_out_call_sent have "length sent = 1" unfolding r by simp
  then have "hd sent \<in> set sent" by (cases sent) auto
  from provider_request_guarded [OF r [unfolded timed_out_call_def] this]
  have "to_number (hd sent) = demo_dispatch_number call_settings \<and> is_e164 (to_number (hd sent))"
    by blast
  then show ?thesis unfolding r by (auto simp: call_settings_def)
qed

text \<open>
  After the request the stored attempt says what became of it: UNKNOWN on a timeout, FAILED
  when the provider could not be reached or answered with an error status, INITIATED on a good
  answer; the caller gets a result exactly in the last case. On an answer that is not a JSON
  object the attempt stays REQUESTED.
\<close>

theorem call_outcome_recorded:
  assumes "db_ok db" and "begin_call s sha now i db = (Ok (n, r), db1)"
  shows "(\<exists>a. get_attempt n (snd (finish_call s repr t1 t2 n rep db1)) = Some a
            \<and> attempt_incident a = i \<and> requested_at a = now \<and> status a = reply_status rep)
       \<and> (is_ok (fst (finish_call s repr t1 t2 n rep db1)) \<longleftrightarrow> reply_status rep = INITIATED)"
proof -
  from begin_call_Ok(5,6) [OF assms(2)] get_attempt_reserved [OF assms(1)]
  have a: "get_attempt n db1 = Some (new_attempt now i (sha (demo_dispatch_number s)) db)" by simp
  from finish_call_status [OF a] finish_call_result [OF a] show ?thesis by (simp add: new_attempt_def)
qed

lemma begin_call_flame:
  "\<exists>r db. begin_call call_settings (\<lambda>d. d) 200 ''a-1'' flame_db = (Ok (1, r), db)"
proof -
  have "fst (begin_call call_settings (\<lambda>d. d) 200 ''a-1'' flame_db)
      = Ok (1, new_incident 100 (flame_update ''a-1'' CONFIRMED (8/10)) ''qnx'' (JStr ''b1''))"
    by code_simp
  then show ?thesis by (metis prod.collapse)
qed

theorem call_outcome_recorded_witness:
  "\<exists>db a. get_attempt 1 (snd (finish_call call_settings (\<lambda>_. []) 300 400 1 Timeout db)) = Some a
     \<and> attempt_incident a = ''a-1'' \<and> status a = UNKNOWN"
proof -
  obtain r db where "begin_call call_settings (\<lambda>d. d) 200 ''a-1'' flame_db = (Ok (1, r), db)"
    using begin_call_flame by blast
  from call_outcome_recorded [OF flame_db_ok this, of "\<lambda>_. []" 300 400 Timeout]
  have "\<exists>a. get_attempt 1 (snd (finish_call call_settings (\<lambda>_. []) 300 400 1 Timeout db)) = Some a
     \<and> attempt_incident a = ''a-1'' \<and> status a = UNKNOWN"
    by (auto simp: reply_status_def)
  then show ?thesis by blast
qed

text \<open>An admitted call is stored and counts, also when its outcome is recorded as anything but FAILED.\<close>

lemma begin_call_counted: "begin_call s sha now i db = (Inr (n, r), db') \<Longrightarrow> counted n i db'"
  using begin_call_Ok(5,6) by (fastforce simp: counted_def new_attempt_def active_def)

lemma record_outcome_counted:
  "counted n i db \<Longrightarrow> new_status c \<noteq> FAILED \<Longrightarrow> counted n i (snd (record_outcome t1 t2 n c res db))"
  using counted_exec [of n i db "UpdateCall t1 t2 n c"]
  by (simp add: reports_failed_def record_outcome_db exec_def)

lemma finish_call_counted:
  assumes "counted n i db" and "reply_status rep \<noteq> FAILED"
  shows "counted n i (snd (finish_call s repr t1 t2 n rep db))"
  using assms
  by (auto simp: finish_call_def reply_status_def Let_def record_outcome_counted
      split: reply.splits if_splits option.splits)

lemma counted_no_request:
  assumes "counted n i db" and "max_calls_per_incident s \<le> 1"
  shows "\<exists>e. request_demo_call s sha repr provider now t1 t2 i db = (Err e, [], db)"
  using counted_refuses [OF assms] begin_call_Ok(4) [of s sha now i db] begin_call_Err [of s sha now i db]
  by (cases "begin_call s sha now i db"; cases "fst (begin_call s sha now i db)")
     (fastforce simp: request_demo_call_def)+

text \<open>
  C17. At most one call: once a call for an incident is admitted, every other request for that incident
  under a limit of one call per incident is refused, sends nothing to any provider and changes
  nothing, both while the provider's answer is awaited and after it was recorded as anything but
  FAILED (a timeout included), whatever is written to the database meanwhile and afterwards, webhooks,
  device updates, responses and calls for other incidents included, as long as no write reports that
  attempt as FAILED. Time, provider, allow-list and cooldown may have changed.
\<close>

theorem no_second_call:
  assumes "begin_call s sha now i db = (Ok (n, r), db0)"
    and "awaiting = writes ws db0" and "\<forall>w \<in> set ws. \<not> reports_failed n w"
    and "reply_status rep \<noteq> FAILED" and "answered = snd (finish_call s repr t1 t2 n rep awaiting)"
    and "later = writes ws' answered" and "\<forall>w \<in> set ws'. \<not> reports_failed n w"
    and "max_calls_per_incident s' \<le> 1"
  shows "(\<exists>e. request_demo_call s' sha' repr' provider' now' t1' t2' i awaiting = (Err e, [], awaiting))
       \<and> (\<exists>e. request_demo_call s' sha' repr' provider' now' t1' t2' i later = (Err e, [], later))"
proof -
  have "counted n i awaiting"
    unfolding assms(2) by (rule counted_writes [OF begin_call_counted [OF assms(1)] assms(3)])
  moreover from finish_call_counted [OF this assms(4)] have "counted n i later"
    unfolding assms(5,6) by (rule counted_writes) (rule assms(7))
  ultimately show ?thesis using counted_no_request assms(8) by simp
qed

text \<open>A webhook that reports the call as answered and a response of the operator lie in between.\<close>

definition answered_meanwhile :: "db_write list" where
  "answered_meanwhile =
     [UpdateCall 500 500 1 \<lparr>new_status = CONNECTED, new_conversation_id = None, new_call_sid = None,
        new_error_code = None, new_error_message = None\<rparr>,
      UpdateResponse 600 600 ''a-1'' CALL_REQUESTED None None]"

definition answered_call :: database where
  "answered_call = writes answered_meanwhile (snd (finish_call call_settings (\<lambda>_. []) 300 400 1 Timeout
     (snd (begin_call call_settings (\<lambda>d. d) 200 ''a-1'' flame_db))))"

theorem no_second_call_witness:
  "\<exists>e. request_demo_call call_settings (\<lambda>d. d) (\<lambda>_. []) (\<lambda>_. Response 200 (Some [])) 100000200 500 600
          ''a-1'' answered_call = (Err e, [], answered_call)"
proof -
  obtain r db where b: "begin_call call_settings (\<lambda>d. d) 200 ''a-1'' flame_db = (Ok (1, r), db)"
    using begin_call_flame by blast
  have "\<forall>w \<in> set answered_meanwhile. \<not> reports_failed 1 w"
    by (simp add: answered_meanwhile_def reports_failed_def)
  from no_second_call [OF b, where ws = "[]" and rep = Timeout, OF refl _ _ refl refl this, of call_settings] b
  show ?thesis
    by (simp add: answered_call_def call_settings_def default_settings_def reply_status_def writes_def)
qed

end
