(* ===== verification/Frames.thy ===== *)
theory Frames
  imports Protocol Json
begin

text \<open>
  What a packet carries: JSON payloads (\<^verbatim>\<open>Packet.json\<close>), frame payloads (a length, JSON
  metadata and a JPEG) with their encoders on the edge and in the simulator and the backend's
  decoder, and the edge's reader of the acknowledgement (\<^verbatim>\<open>receive_exact\<close>,
  \<^verbatim>\<open>receive_ack\<close>). The JSON text is behind two arguments, \<open>dumps\<close> from a dictionary to
  the UTF-8 bytes of its text and \<open>loads\<close> from bytes to the value, \<open>None\<close> when the
  bytes are not UTF-8 or not JSON; what a round trip needs of them is its hypothesis.
\<close>

type_synonym dumps = "dict \<Rightarrow> bytes"
type_synonym loads = "bytes \<Rightarrow> json option"

section \<open>Payloads\<close>

definition packet_json :: "loads \<Rightarrow> packet \<Rightarrow> (protocol_error, dict) result" where
  "packet_json loads k = (case loads (payload k) of
       None \<Rightarrow> Err InvalidJson
     | Some (JObj d) \<Rightarrow> Ok d
     | Some _ \<Rightarrow> Err NotAnObject)"

definition encode_frame_payload :: "dumps \<Rightarrow> dict \<Rightarrow> bytes \<Rightarrow> (protocol_error, bytes) result" where
  "encode_frame_payload dumps metadata jpeg =
     (let encoded = dumps metadata; n = int (length encoded) in
      if fits 4 n then Ok (be_bytes 4 n @ encoded @ jpeg) else Err StructError)"

definition edge_frame_payload :: "dumps \<Rightarrow> dict \<Rightarrow> bytes \<Rightarrow> (protocol_error, bytes) result" where
  "edge_frame_payload dumps metadata jpeg =
     (let encoded = dumps metadata; n = int (length encoded) in
      if fits 4 n then Ok (be_bytes 4 n @ encoded @ jpeg) else Err StructError)"

definition sim_frame_payload :: "dumps \<Rightarrow> dict \<Rightarrow> bytes \<Rightarrow> (protocol_error, bytes) result" where
  "sim_frame_payload dumps metadata jpeg =
     (let encoded = dumps metadata; n = int (length encoded) in
      if fits 4 n then Ok (be_bytes 4 n @ encoded @ jpeg) else Err StructError)"

definition jpeg_ok :: "bytes \<Rightarrow> bool" where
  "jpeg_ok jpeg \<longleftrightarrow> 4 \<le> length jpeg \<and> take 2 jpeg = [0xFF, 0xD8]
     \<and> drop (length jpeg - 2) jpeg = [0xFF, 0xD9]"

definition decode_frame_payload :: "loads \<Rightarrow> bytes \<Rightarrow> (protocol_error, dict \<times> bytes) result" where
  "decode_frame_payload loads pl =
     (if length pl < 4 then Err TruncatedMetadataLength
      else let len = be_val (take 4 pl) in
        if len = 0 \<or> 4 + len \<ge> int (length pl) then Err InvalidMetadataLength
        else (case loads (take (nat len) (drop 4 pl)) of
            None \<Rightarrow> Err InvalidMetadataJson
          | Some (JObj metadata) \<Rightarrow>
              let jpeg = drop (4 + nat len) pl in
              if \<not> jpeg_ok jpeg then Err InvalidJpeg else Ok (metadata, jpeg)
          | Some _ \<Rightarrow> Err MetadataNotObject))"

section \<open>Reading the acknowledgement\<close>

text \<open>
  A socket is the segments still to come, the end of the list the end of the stream.
  \<open>recv\<close> returns at most as many bytes as asked for and none at the end.
\<close>

fun recv :: "nat \<Rightarrow> bytes list \<Rightarrow> bytes \<times> bytes list" where
  "recv n [] = ([], [])"
| "recv n (c # cs) = (if length c \<le> n then (c, cs) else (take n c, drop n c # cs))"

datatype connection_error =
  BackendClosed | InvalidAck | AckCrc | AckNotJson | BackendRejected

function receive_exact ::
  "bytes list \<Rightarrow> nat \<Rightarrow> bytes \<Rightarrow> (connection_error, bytes) result \<times> bytes list" where
  "receive_exact sock len result =
     (if length result < len then
        (case recv (len - length result) sock of
           (chunk, sock) \<Rightarrow> if chunk = [] then (Err BackendClosed, sock)
                             else receive_exact sock len (result @ chunk))
      else (Ok result, sock))"
  by pat_completeness auto
termination by (relation "measure (\<lambda>(sock, len, result). len - length result)")
    (auto intro!: diff_less_mono2 simp flip: length_greater_0_conv)

declare receive_exact.simps [simp del]

text \<open>\<open>json.loads\<close> of the payload raises ValueError on other texts: \<open>AckNotJson\<close>.\<close>

definition receive_ack :: "loads \<Rightarrow> bytes list \<Rightarrow> (connection_error, dict) result \<times> bytes list" where
  "receive_ack loads sock =
     (case receive_exact sock HEADER_SIZE [] of
        (Inl e, sock) \<Rightarrow> (Err e, sock)
      | (Inr raw, sock) \<Rightarrow>
          if take 4 raw \<noteq> MAGIC \<or> field 4 1 raw \<noteq> 1 \<or> field 5 1 raw \<noteq> edge_code E_HELLO_ACK
          then (Err InvalidAck, sock)
          else (case receive_exact sock (nat (field 8 4 raw)) [] of
              (Inl e, sock) \<Rightarrow> (Err e, sock)
            | (Inr pl, sock) \<Rightarrow>
                if crc_int pl \<noteq> field 28 4 raw then (Err AckCrc, sock)
                else (case loads pl of
                    None \<Rightarrow> (Err AckNotJson, sock)
                  | Some (JObj d) \<Rightarrow>
                      if truthy (get_default d ''accepted'' JNull) then (Ok d, sock)
                      else (Err BackendRejected, sock)
                  | Some _ \<Rightarrow> (Err BackendRejected, sock))))"

section \<open>Facts\<close>

lemma concat_recv: "concat sock = fst (recv n sock) @ concat (snd (recv n sock))"
  by (cases "(n, sock)" rule: recv.cases) auto

lemma recv_bounds: "length (fst (recv n sock)) \<le> n"
  by (cases "(n, sock)" rule: recv.cases) auto

lemma recv_segments: "[] \<notin> set sock \<Longrightarrow> [] \<notin> set (snd (recv n sock))"
  by (cases "(n, sock)" rule: recv.cases) auto

lemma recv_progress: "[] \<notin> set sock \<Longrightarrow> 0 < n \<Longrightarrow> fst (recv n sock) = [] \<longleftrightarrow> sock = []"
  by (cases "(n, sock)" rule: recv.cases) auto

text \<open>However the bytes are segmented, exactly the bytes asked for are read.\<close>

lemma receive_exact_bytes:
  assumes "[] \<notin> set sock" and "length result \<le> len" and "len \<le> length result + length (concat sock)"
  shows "\<exists>sock'. receive_exact sock len result
           = (Ok (result @ take (len - length result) (concat sock)), sock')
         \<and> concat sock' = drop (len - length result) (concat sock) \<and> [] \<notin> set sock'"
  using assms
proof (induction sock len result rule: receive_exact.induct)
  case (1 sock len result)
  show ?case
  proof (cases "length result < len")
    case False
    with 1 show ?thesis by (simp add: receive_exact.simps)
  next
    case True
    let ?n = "len - length result"
    obtain chunk rest where r: "recv ?n sock = (chunk, rest)" by (cases "recv ?n sock")
    have c: "concat sock = chunk @ concat rest" "length chunk \<le> ?n" "[] \<notin> set rest"
      using concat_recv [of sock ?n] recv_bounds [of ?n sock] recv_segments [OF 1(2), of ?n] r by auto
    have "chunk \<noteq> []"
      using recv_progress [OF 1(2), of ?n] True 1(4) r by auto
    with 1(1) [OF True r [symmetric]] c True 1(4) r
    show ?thesis by (subst receive_exact.simps) (auto simp: le_diff_conv2)
  qed
qed

lemma receive_exact_segments:
  assumes "[] \<notin> set sock" and "concat sock = xs @ ys"
  shows "\<exists>sock'. receive_exact sock (length xs) [] = (Ok xs, sock') \<and> concat sock' = ys
           \<and> [] \<notin> set sock'"
  using receive_exact_bytes [of sock "[]" "length xs"] assms by simp

lemma fits_4: "fits 4 (int n) \<longleftrightarrow> n < 2 ^ 32"
  by (auto simp: fits_def)

lemma decode_frame_layout:
  assumes "md \<noteq> []" and "length md < 2 ^ 32" and "j \<noteq> []"
  shows "decode_frame_payload loads (be_bytes 4 (int (length md)) @ md @ j) =
    (case loads md of
        None \<Rightarrow> Err InvalidMetadataJson
      | Some (JObj metadata) \<Rightarrow> if \<not> jpeg_ok j then Err InvalidJpeg else Ok (metadata, j)
      | Some _ \<Rightarrow> Err MetadataNotObject)"
  using assms fits_4 [of "length md"]
  by (simp add: decode_frame_payload_def Let_def split: option.split json.split)

lemma decode_frame_Ok:
  assumes "decode_frame_payload loads pl = Inr (m, j)"
  shows "\<exists>md. md \<noteq> [] \<and> length md < 2 ^ 32 \<and> pl = be_bytes 4 (int (length md)) @ md @ j
           \<and> loads md = Some (JObj m) \<and> jpeg_ok j"
proof -
  define len where "len = be_val (take 4 pl)"
  from assms have len: "4 \<le> length pl" "len \<noteq> 0" "4 + len < int (length pl)"
    and l: "loads (take (nat len) (drop 4 pl)) = Some (JObj m)" "j = drop (4 + nat len) pl" "jpeg_ok j"
    by (auto simp: decode_frame_payload_def Let_def len_def split: if_splits option.splits json.splits)
  have f: "fits 4 len" using fits_be_val [of "take 4 pl"] len by (simp add: len_def)
  let ?md = "take (nat len) (drop 4 pl)"
  from f len have md: "length ?md = nat len" "nat len < 2 ^ 32" "int (nat len) = len" "0 < nat len"
    by (auto simp: fits_def)
  then have ne: "?md \<noteq> []" by auto
  have "take 4 pl = be_bytes 4 len"
    using be_bytes_val [of "take 4 pl"] len(1) by (simp add: len_def)
  then have "pl = be_bytes 4 (int (length ?md)) @ drop 4 pl"
    unfolding md(1) md(3) by (metis append_take_drop_id)
  moreover have "drop 4 pl = ?md @ j" unfolding l(2) by (simp add: add.commute flip: drop_drop)
  ultimately have "pl = be_bytes 4 (int (length ?md)) @ ?md @ j" by metis
  with md ne l show ?thesis by metis
qed

lemma edge_frame_delivered:
  assumes "edge_frame_payload dumps m j = Inr pl" and "loads (dumps m) = Some (JObj m)"
    and "dumps m \<noteq> []" and "jpeg_ok j"
  shows "decode_frame_payload loads pl = Inr (m, j)"
proof -
  from assms(1) have f: "fits 4 (int (length (dumps m)))"
    and pl: "pl = be_bytes 4 (int (length (dumps m))) @ dumps m @ j"
    by (simp_all add: edge_frame_payload_def Let_def split: if_splits)
  from assms(4) have "j \<noteq> []" by (auto simp: jpeg_ok_def)
  moreover from f have "length (dumps m) < 2 ^ 32" by (simp only: fits_4)
  ultimately show ?thesis
    using decode_frame_layout [OF assms(3)] assms(2,4) unfolding pl by simp
qed

section \<open>Messages written one by one\<close>

definition msg_seq :: "'t message \<Rightarrow> int" where
  "msg_seq m = fst (snd (snd m))"

lemma encodes_snoc:
  "encodes enc ms bss \<Longrightarrow> enc t pl sq ns = Inr bs \<Longrightarrow> encodes enc (ms @ [(t, pl, sq, ns)]) (bss @ [bs])"
  by (simp add: encodes_def)

lemma delivered_sequences: "map sequence (delivered ty ms) = map msg_seq ms"
  by (auto simp: delivered_def msg_seq_def frame_of_def)

section \<open>Properties\<close>

text \<open>
  The backend accepts a frame payload exactly when it is the length of a non-empty metadata
  text in four bytes, that text, which is the JSON of a dictionary, and a JPEG with its markers;
  it returns that dictionary and those bytes.
\<close>

theorem frame_payload_decoding:
  "decode_frame_payload loads pl = Ok (m, j) \<longleftrightarrow>
     (\<exists>md. pl = be_bytes 4 (int (length md)) @ md @ j \<and> md \<noteq> [] \<and> length md < 2 ^ 32
         \<and> loads md = Some (JObj m) \<and> jpeg_ok j)"
proof
  assume "decode_frame_payload loads pl = Ok (m, j)"
  from decode_frame_Ok [OF this] show "\<exists>md. pl = be_bytes 4 (int (length md)) @ md @ j \<and> md \<noteq> []
      \<and> length md < 2 ^ 32 \<and> loads md = Some (JObj m) \<and> jpeg_ok j"
    by blast
next
  assume "\<exists>md. pl = be_bytes 4 (int (length md)) @ md @ j \<and> md \<noteq> [] \<and> length md < 2 ^ 32
      \<and> loads md = Some (JObj m) \<and> jpeg_ok j"
  moreover have "jpeg_ok j \<Longrightarrow> j \<noteq> []" by (auto simp: jpeg_ok_def)
  ultimately show "decode_frame_payload loads pl = Ok (m, j)"
    using decode_frame_layout [of _ j loads] by auto
qed

text \<open>
  The acknowledgement arrives: a HELLO_ACK packet of the backend whose payload is the JSON
  of a dictionary that accepts is read by the edge as that dictionary, however the stream is cut
  into segments, and the bytes after it stay in the stream.
\<close>

theorem acknowledgement_received:
  assumes "encode_packet HELLO_ACK pl sq ns 0 = Ok bs"
    and "loads pl = Some (JObj d)" and "truthy (get_default d ''accepted'' JNull)"
    and "concat sock = bs @ rest" and "[] \<notin> set sock"
  shows "\<exists>sock'. receive_ack loads sock = (Ok d, sock') \<and> concat sock' = rest"
proof -
  from assms(1) obtain h where h: "pack_header VERSION (type_code HELLO_ACK) 0 (int (length pl)) sq ns (crc_int pl) = Ok h"
    and bs: "bs = h @ pl"
    by (auto simp: encode_packet_def split: sum.splits)
  note lay = pack_header_layout [OF h]
  obtain sock1 where s1: "receive_exact sock HEADER_SIZE [] = (Ok h, sock1)" "concat sock1 = pl @ rest"
    "[] \<notin> set sock1"
    using receive_exact_segments [OF assms(5), of h "pl @ rest"] assms(4) bs lay(1) by auto
  obtain sock2 where s2: "receive_exact sock1 (length pl) [] = (Ok pl, sock2)" "concat sock2 = rest"
    using receive_exact_segments [OF s1(3,2)] by auto
  show ?thesis
    using s1 s2 assms(2,3) lay by (simp add: receive_ack_def VERSION_def)
qed

definition toy_loads :: loads where
  "toy_loads bs = (if bs = [] then Some (JObj [(''accepted'', JBool True)]) else None)"

theorem acknowledgement_received_witness:
  "\<exists>bs sock'. encode_packet HELLO_ACK [] 1 7 0 = Ok bs
     \<and> receive_ack toy_loads [take 3 bs, drop 3 bs] = (Ok [(''accepted'', JBool True)], sock')
     \<and> concat sock' = []"
proof -
  obtain bs where bs: "encode_packet HELLO_ACK [] 1 7 0 = Ok bs"
    by (auto simp: encode_packet_def pack_header_def fits_def crc_Nil VERSION_def)
  then have "length bs = 32"
    by (auto simp: encode_packet_def HEADER_SIZE_def dest!: pack_header_layout(1) split: sum.splits)
  then have "[] \<notin> set [take 3 bs, drop 3 bs]" by auto
  with acknowledgement_received [OF bs, of toy_loads "[(''accepted'', JBool True)]"
      "[take 3 bs, drop 3 bs]" "[]"] bs
  show ?thesis by (auto simp: toy_loads_def get_default_def)
qed

end
