(* ===== verification/Registry.thy ===== *)
theory Registry
  imports Frames
begin

text \<open>
  The connected devices, \<^verbatim>\<open>src/backend/app/device_registry.py\<close>: which writer serves a
  device, and the packets sent to it. A writer is a number; the writers being closed and the
  bytes written to each are part of the state. Whether \<open>drain\<close> finishes in time is an
  argument.
\<close>

record connection =
  conn_device_id :: string
  conn_boot_id :: json
  writer :: nat
  outbound_sequence :: int

record registry =
  connections :: "(string \<times> connection) list"
  latest_frame :: "dict option"
  latest_detections :: "dict option"
  latest_health :: dict
  closing :: "nat list"
  written :: "(nat \<times> bytes) list"

definition new_registry :: registry where
  "new_registry = \<lparr>connections = [], latest_frame = None, latest_detections = None,
     latest_health = [], closing = [], written = []\<rparr>"

definition new_connection :: "string \<Rightarrow> json \<Rightarrow> nat \<Rightarrow> connection" where
  "new_connection dev boot w =
     \<lparr>conn_device_id = dev, conn_boot_id = boot, writer = w, outbound_sequence = 1\<rparr>"

definition connected_to :: "string \<Rightarrow> registry \<Rightarrow> connection option" where
  "connected_to dev r = map_of (connections r) dev"

definition close_writer :: "nat \<Rightarrow> registry \<Rightarrow> registry" where
  "close_writer w r = r\<lparr>closing := List.insert w (closing r)\<rparr>"

definition register :: "connection \<Rightarrow> registry \<Rightarrow> registry" where
  "register c r =
     (let old = connected_to (conn_device_id c) r;
          r = r\<lparr>connections := AList.update (conn_device_id c) c (connections r)\<rparr>
      in case old of
           None \<Rightarrow> r
         | Some old \<Rightarrow>
             if writer old \<noteq> writer c \<and> writer old \<notin> set (closing r) then close_writer (writer old) r
             else r)"

definition unregister :: "string \<Rightarrow> nat \<Rightarrow> registry \<Rightarrow> bool \<times> registry" where
  "unregister dev w r = (case connected_to dev r of
       None \<Rightarrow> (False, r)
     | Some c \<Rightarrow> if writer c = w then (True, r\<lparr>connections := AList.delete dev (connections r)\<rparr>)
                 else (False, r))"

text \<open>\<^verbatim>\<open>send\<close> on the connection that serves the device.\<close>

definition send :: "dumps \<Rightarrow> int \<Rightarrow> bool \<Rightarrow> connection \<Rightarrow> packet_type \<Rightarrow> dict \<Rightarrow> registry
   \<Rightarrow> (protocol_error, bool) result \<times> registry" where
  "send dumps ns drained c ty pl r =
     (if writer c \<in> set (closing r) then (Ok False, r)
      else case encode_packet ty (dumps pl) (outbound_sequence c) ns 0 of
        Inl e \<Rightarrow> (Err e, r)
      | Inr bs \<Rightarrow> (Ok drained, r\<lparr>written := written r @ [(writer c, bs)],
          connections := AList.update (conn_device_id c)
            (c\<lparr>outbound_sequence := outbound_sequence c + 1\<rparr>) (connections r)\<rparr>))"

datatype delivery = DeviceOffline | QueuedToDevice | DeliveryFailed

definition send_control :: "dumps \<Rightarrow> int \<Rightarrow> bool \<Rightarrow> string \<Rightarrow> packet_type \<Rightarrow> dict \<Rightarrow> registry
   \<Rightarrow> (protocol_error, delivery) result \<times> registry" where
  "send_control dumps ns drained dev ty pl r = (case connected_to dev r of
       None \<Rightarrow> (Ok DeviceOffline, r)
     | Some c \<Rightarrow> (case send dumps ns drained c ty pl r of
           (Inl e, r) \<Rightarrow> (Err e, r)
         | (Inr sent, r) \<Rightarrow> (Ok (if sent then QueuedToDevice else DeliveryFailed), r)))"

section \<open>Facts\<close>

lemma connected_register:
  "connected_to d (register c r) = (if d = conn_device_id c then Some c else connected_to d r)"
  by (auto simp: register_def connected_to_def Let_def close_writer_def update_conv' split: option.splits)

lemma connected_unregister:
  "connected_to d (snd (unregister dev w r))
   = (if d = dev \<and> (\<exists>c. connected_to dev r = Some c \<and> writer c = w) then None else connected_to d r)"
  by (auto simp: unregister_def connected_to_def delete_conv' split: option.splits)

lemma unregister_iff:
  "fst (unregister dev w r) \<longleftrightarrow> (\<exists>c. connected_to dev r = Some c \<and> writer c = w)"
  by (auto simp: unregister_def split: option.splits)

text \<open>
  The writer of an entry is open, every entry is under its device's name, and the packets of a
  writer carry the numbers from 1 in order.
\<close>

definition written_to :: "nat \<Rightarrow> registry \<Rightarrow> bytes list" where
  "written_to w r = map snd (filter (\<lambda>p. fst p = w) (written r))"

definition sequence_of :: "bytes \<Rightarrow> int" where
  "sequence_of bs = field 12 8 bs"

definition numbered_stream :: "bytes list \<Rightarrow> bool" where
  "numbered_stream bss \<longleftrightarrow> map sequence_of bss = map int [1..<Suc (length bss)]"

datatype registry_op =
  Register string json nat | Unregister string nat | SendControl int bool string packet_type dict
| CloseWriter nat

fun apply_op :: "dumps \<Rightarrow> registry_op \<Rightarrow> registry \<Rightarrow> registry" where
  "apply_op dumps (Register d b w) r = register (new_connection d b w) r"
| "apply_op dumps (Unregister d w) r = snd (unregister d w r)"
| "apply_op dumps (SendControl ns drained d ty pl) r = snd (send_control dumps ns drained d ty pl r)"
| "apply_op dumps (CloseWriter w) r = close_writer w r"

text \<open>A registration comes with the writer of a new connection.\<close>

fun fresh_op :: "registry_op \<Rightarrow> registry \<Rightarrow> bool" where
  "fresh_op (Register d b w) r =
     (written_to w r = [] \<and> (\<forall>p \<in> set (connections r). writer (snd p) \<noteq> w))"
| "fresh_op _ r = True"

fun ops :: "dumps \<Rightarrow> registry_op list \<Rightarrow> registry \<Rightarrow> registry" where
  "ops dumps [] r = r"
| "ops dumps (p # ps) r = ops dumps ps (apply_op dumps p r)"

fun fresh_ops :: "dumps \<Rightarrow> registry_op list \<Rightarrow> registry \<Rightarrow> bool" where
  "fresh_ops dumps [] r = True"
| "fresh_ops dumps (p # ps) r = (fresh_op p r \<and> fresh_ops dumps ps (apply_op dumps p r))"

definition reg_ok :: "registry \<Rightarrow> bool" where
  "reg_ok r \<longleftrightarrow>
     (\<forall>d c. connected_to d r = Some c \<longrightarrow> conn_device_id c = d
        \<and> outbound_sequence c = 1 + int (length (written_to (writer c) r)))
     \<and> (\<forall>w. numbered_stream (written_to w r))
     \<and> (\<forall>d d' c c'. connected_to d r = Some c \<longrightarrow> connected_to d' r = Some c'
           \<longrightarrow> writer c = writer c' \<longrightarrow> d = d')"

lemma sequence_of_encoded:
  assumes "encode_packet ty pl sq ns fg = Inr bs"
  shows "sequence_of bs = sq"
proof -
  from assms obtain h where h: "pack_header VERSION (type_code ty) fg (int (length pl)) sq ns (crc_int pl) = Ok h"
    and bs: "bs = h @ pl"
    by (auto simp: encode_packet_def split: sum.splits)
  from pack_header_layout(1,7) [OF h] bs show ?thesis
    by (simp add: sequence_of_def field_def HEADER_SIZE_def)
qed

lemma numbered_stream_snoc:
  "numbered_stream bss \<Longrightarrow> sequence_of bs = 1 + int (length bss) \<Longrightarrow> numbered_stream (bss @ [bs])"
  by (simp add: numbered_stream_def)

lemma written_to_register [simp]: "written_to w (register c r) = written_to w r"
  by (auto simp: register_def written_to_def Let_def close_writer_def split: option.splits)

lemma written_to_unregister [simp]: "written_to w (snd (unregister d v r)) = written_to w r"
  by (auto simp: unregister_def written_to_def split: option.splits)

lemma close_writer_simps [simp]:
  "written_to w (close_writer v r) = written_to w r" "connected_to d (close_writer v r) = connected_to d r"
  by (simp_all add: close_writer_def written_to_def connected_to_def)

lemma reg_ok_send:
  assumes "reg_ok r" and "connected_to d r = Some c"
  shows "reg_ok (snd (send dumps ns drained c ty pl r))"
proof (cases "writer c \<in> set (closing r)")
  case False
  show ?thesis
  proof (cases "encode_packet ty (dumps pl) (outbound_sequence c) ns 0")
    case (Inr bs)
    let ?r = "snd (send dumps ns drained c ty pl r)"
    from assms have d: "conn_device_id c = d" "outbound_sequence c = 1 + int (length (written_to (writer c) r))"
      by (auto simp: reg_ok_def)
    have w: "written_to w ?r = (if w = writer c then written_to w r @ [bs] else written_to w r)" for w
      using False Inr by (simp add: send_def written_to_def)
    have c: "connected_to d' ?r
        = (if d' = d then Some (c\<lparr>outbound_sequence := outbound_sequence c + 1\<rparr>) else connected_to d' r)" for d'
      using False Inr by (simp add: send_def connected_to_def update_conv' d(1))
    have "numbered_stream (written_to (writer c) r @ [bs])"
      using assms(1) d(2) sequence_of_encoded [OF Inr]
      by (intro numbered_stream_snoc) (auto simp: reg_ok_def)
    moreover have "writer c' \<noteq> writer c" if "connected_to d' r = Some c'" "d' \<noteq> d" for d' c'
      using assms that unfolding reg_ok_def by blast
    ultimately show ?thesis
      using assms(1) d unfolding reg_ok_def w c by (auto split: if_splits) metis
  qed (use assms False in \<open>simp add: send_def\<close>)
qed (use assms in \<open>simp add: send_def\<close>)

lemma snd_send_control:
  "snd (send_control dumps ns drained dev ty pl r) = (case connected_to dev r of
     None \<Rightarrow> r | Some c \<Rightarrow> snd (send dumps ns drained c ty pl r))"
  by (simp add: send_control_def split: option.split prod.split sum.split)

lemma reg_ok_apply: "reg_ok r \<Longrightarrow> fresh_op p r \<Longrightarrow> reg_ok (apply_op dumps p r)"
proof (cases p)
  case (Register d b w)
  assume ok: "reg_ok r" and fresh: "fresh_op p r"
  from fresh have "writer c \<noteq> w" if "connected_to d' r = Some c" for d' c
    using that by (force simp: Register connected_to_def dest: map_of_SomeD)
  with ok fresh show ?thesis
    by (auto simp: Register reg_ok_def connected_register new_connection_def split: if_splits)
next
  case (Unregister d w)
  assume "reg_ok r"
  then show ?thesis unfolding reg_ok_def Unregister
    by (auto simp: connected_unregister split: if_splits)
next
  case (SendControl ns drained d ty pl)
  assume "reg_ok r"
  then show ?thesis by (auto simp: SendControl snd_send_control intro: reg_ok_send split: option.split)
next
  case (CloseWriter w)
  assume "reg_ok r"
  then show ?thesis by (simp add: CloseWriter reg_ok_def)
qed

lemma reg_ok_ops: "reg_ok r \<Longrightarrow> fresh_ops dumps ps r \<Longrightarrow> reg_ok (ops dumps ps r)"
  by (induction ps arbitrary: r) (auto intro: reg_ok_apply)

lemma reg_ok_new: "reg_ok new_registry"
  by (simp add: reg_ok_def new_registry_def connected_to_def written_to_def numbered_stream_def)

section \<open>Properties\<close>

text \<open>
  Control packets are numbered: over any history of connects, disconnects, closings and
  sends in which every connection brings a new writer, the packets written to one writer carry
  the sequence numbers 1, 2, 3 in the order they were written, reconnections of the device or of
  other devices notwithstanding.
\<close>

theorem control_packets_numbered:
  assumes "fresh_ops dumps ps new_registry"
  shows "map sequence_of (written_to w (ops dumps ps new_registry))
       = map int [1..<Suc (length (written_to w (ops dumps ps new_registry)))]"
  using reg_ok_ops [OF reg_ok_new assms] by (simp add: reg_ok_def numbered_stream_def)

definition reconnect :: "registry_op list" where
  "reconnect = [Register ''qnx'' JNull 1, SendControl 5 True ''qnx'' HELLO_ACK [],
     Register ''qnx'' JNull 2, SendControl 6 True ''qnx'' PONG [], Unregister ''qnx'' 1]"

theorem control_packets_numbered_witness:
  "map sequence_of (written_to 2 (ops (\<lambda>_. []) reconnect new_registry))
   = map int [1..<Suc (length (written_to 2 (ops (\<lambda>_. []) reconnect new_registry)))]"
proof -
  have "fresh_ops (\<lambda>_. []) reconnect new_registry"
    by (auto simp: reconnect_def new_registry_def written_to_def register_def connected_to_def
        new_connection_def snd_send_control send_def Let_def close_writer_def split: sum.split)
  then show ?thesis by (rule control_packets_numbered)
qed

text \<open>
  A disconnect of an old connection does not touch its successor: when a device has
  registered again on another writer, unregistering the first writer reports that it was not
  current and leaves the new connection in place, and the first writer is being closed.
\<close>

theorem stale_disconnect_ignored:
  assumes "writer c1 \<noteq> writer c2" and "conn_device_id c1 = dev" and "conn_device_id c2 = dev"
  shows "\<not> fst (unregister dev (writer c1) (register c2 (register c1 r)))
       \<and> connected_to dev (snd (unregister dev (writer c1) (register c2 (register c1 r)))) = Some c2
       \<and> writer c1 \<in> set (closing (register c2 (register c1 r)))"
proof -
  have "connected_to dev (register c2 (register c1 r)) = Some c2"
    using assms by (simp add: connected_register)
  moreover have "writer c1 \<in> set (closing (register c2 (register c1 r)))"
    using assms connected_register [of dev c1 r]
    by (simp add: register_def [of c2] Let_def close_writer_def)
  ultimately show ?thesis using assms by (simp add: connected_unregister unregister_iff)
qed

theorem stale_disconnect_ignored_witness:
  "connected_to ''qnx'' (snd (unregister ''qnx'' 1
     (register (new_connection ''qnx'' JNull 2) (register (new_connection ''qnx'' JNull 1) new_registry))))
   = Some (new_connection ''qnx'' JNull 2)"
  using stale_disconnect_ignored [of "new_connection ''qnx'' JNull 1" "new_connection ''qnx'' JNull 2" "''qnx''"
      new_registry]
  by (simp add: new_connection_def)

end
