(* ===== verification/World.thy ===== *)
theory World
  imports Registry Communications RateLimit
begin

text \<open>
  The state of the running backend: what \<^verbatim>\<open>create_app\<close> of \<^verbatim>\<open>src/backend/app/main.py\<close> puts
  together. The components share the store, the registry and the hub; a coroutine runs alone
  between two of its awaits, so each function below is one such stretch. Calls to the provider
  are the awaits that matter: a call in flight is kept in \<open>pending\<close> until its reply or its
  cancellation.

  \<open>env\<close> holds what does not change: the settings, and the functions that stand for code
  that is not under \<^verbatim>\<open>src/\<close> or for the text of JSON: the decoder and encoder, \<open>str\<close> of
  a container, SHA-256, and the validation of an incident update by its Pydantic model.
  \<open>clk\<close> gives the clock readings of a step in their order.
\<close>

record env =
  conf :: settings
  loads_json :: loads
  dumps_json :: dumps
  repr_json :: "json \<Rightarrow> string"
  sha256 :: "string \<Rightarrow> string"
  check_update :: "dict \<Rightarrow> incident_update option"

type_synonym clock = "nat \<Rightarrow> time"

text \<open>What is broadcast to the dashboards.\<close>

datatype message =
  OutOfOrderSequence int int
| DeviceProtocolError
| DeviceConnected string
| DeviceDisconnected string
| FrameMessage dict
| DetectionsMessage dict
| IncidentMessage "incident option"
| TimelineMessage event
| DeviceTimeline packet_type dict
| HealthMessage dict
| ConfigurationAck dict
| ConfigurationMessage json "(string \<times> delivery) list"
| ArmingMessage bool
| CallMessage call_result
| CallBlocked comm_error
| AttemptMessage attempt

text \<open>
  A timer task of \<^verbatim>\<open>ResponseTimeoutManager\<close> sleeps, or waits for the provider's reply on an
  attempt; a call in flight was started by a timer or by the dashboard's action.
\<close>

datatype phase = Sleeping | Calling int

datatype origin = FromTimer | FromAction

record call =
  call_attempt :: int
  call_incident :: string
  call_origin :: origin
  call_request :: provider_request

record world =
  store :: database
  reg :: registry
  armed :: bool
  action_limiter :: limiter
  tasks :: "(string \<times> phase) list"
  pending :: "call list"
  requests :: "provider_request list"
  messages :: "message list"

definition new_world :: "env \<Rightarrow> world" where
  "new_world env = \<lparr>store = empty_db, reg = new_registry, armed = False,
     action_limiter = rate_limiter (action_rate_limit_per_minute (conf env)) 60, tasks = [],
     pending = [], requests = [], messages = []\<rparr>"

definition broadcast :: "message \<Rightarrow> world \<Rightarrow> world" where
  "broadcast m w = w\<lparr>messages := messages w @ [m]\<rparr>"

definition set_task :: "string \<Rightarrow> phase \<Rightarrow> world \<Rightarrow> world" where
  "set_task i p w = w\<lparr>tasks := AList.update i p (tasks w)\<rparr>"

definition drop_task :: "string \<Rightarrow> world \<Rightarrow> world" where
  "drop_task i w = w\<lparr>tasks := AList.delete i (tasks w)\<rparr>"

section \<open>Calls\<close>

text \<open>
  The first half of \<^verbatim>\<open>request_demo_call\<close>, up to the await: refused, finished at once with
  the mock provider, or in flight under its attempt.
\<close>

datatype started = Finished call_result | InFlight int

definition start_call ::
  "env \<Rightarrow> clock \<Rightarrow> string \<Rightarrow> origin \<Rightarrow> world \<Rightarrow> (comm_error, started) result \<times> world" where
  "start_call env clk i org w =
     (case begin_call (conf env) (sha256 env) (clk 0) i (store w) of
        (Inl e, db) \<Rightarrow> (Err e, w\<lparr>store := db\<rparr>)
      | (Inr (n, r), db) \<Rightarrow>
          if call_provider (conf env) = ''mock''
          then (case finish_mock (conf env) (clk 1) (clk 2) n db of
                  (Inl e, db) \<Rightarrow> (Err e, w\<lparr>store := db\<rparr>)
                | (Inr res, db) \<Rightarrow> (Ok (Finished res), w\<lparr>store := db\<rparr>))
          else let q = provider_request (conf env) r in
            (Ok (InFlight n), w\<lparr>store := db, requests := requests w @ [q],
                pending := pending w @ [\<lparr>call_attempt = n, call_incident = i, call_origin = org,
                                         call_request = q\<rparr>]\<rparr>))"

definition find_call :: "int \<Rightarrow> world \<Rightarrow> call option" where
  "find_call n w = find_row call_attempt n (pending w)"

definition drop_call :: "int \<Rightarrow> world \<Rightarrow> world" where
  "drop_call n w = w\<lparr>pending := filter (\<lambda>c. call_attempt c \<noteq> n) (pending w)\<rparr>"

text \<open>The second half, on the reply.\<close>

definition end_call ::
  "env \<Rightarrow> clock \<Rightarrow> int \<Rightarrow> reply \<Rightarrow> world \<Rightarrow> (comm_error, call_result) result \<times> world" where
  "end_call env clk n rep w =
     (case finish_call (conf env) (repr_json env) (clk 0) (clk 1) n rep (store w) of
        (res, db) \<Rightarrow> (res, drop_call n (w\<lparr>store := db\<rparr>)))"

text \<open>Whether an exception is a \<^verbatim>\<open>CommunicationError\<close>.\<close>

fun communication_error :: "comm_error \<Rightarrow> bool" where
  "communication_error BadProviderBody = False"
| "communication_error (StoreFailed e) = False"
| "communication_error _ = True"

lemma broadcast_simps [simp, frame_simps]:
  "store (broadcast m w) = store w" "reg (broadcast m w) = reg w" "armed (broadcast m w) = armed w"
  "tasks (broadcast m w) = tasks w" "pending (broadcast m w) = pending w"
  "requests (broadcast m w) = requests w" "action_limiter (broadcast m w) = action_limiter w"
  by (simp_all add: broadcast_def)

lemma task_simps [simp, frame_simps]:
  "store (set_task i p w) = store w" "reg (set_task i p w) = reg w" "armed (set_task i p w) = armed w"
  "pending (set_task i p w) = pending w" "requests (set_task i p w) = requests w"
  "action_limiter (set_task i p w) = action_limiter w"
  "store (drop_task i w) = store w" "reg (drop_task i w) = reg w" "armed (drop_task i w) = armed w"
  "pending (drop_task i w) = pending w" "requests (drop_task i w) = requests w"
  "action_limiter (drop_task i w) = action_limiter w"
  by (simp_all add: set_task_def drop_task_def)

lemma tasks_simps [simp]:
  "map_of (tasks (set_task i p w)) j = (if j = i then Some p else map_of (tasks w) j)"
  "map_of (tasks (drop_task i w)) j = (if j = i then None else map_of (tasks w) j)"
  by (simp_all add: set_task_def drop_task_def update_conv' delete_conv')

lemma drop_call_simps [simp, frame_simps]:
  "store (drop_call n w) = store w" "reg (drop_call n w) = reg w" "armed (drop_call n w) = armed w"
  "tasks (drop_call n w) = tasks w" "requests (drop_call n w) = requests w"
  by (simp_all add: drop_call_def)

end
