(* ===== verification/Escalation.thy ===== *)
theory Escalation
  imports World
begin

text \<open>
  The response timeout, \<^verbatim>\<open>src/backend/app/escalation.py\<close>: one timer task per incident that
  awaits a response; \<open>on_timeout\<close> is the body of \<^verbatim>\<open>_wait\<close> after the sleep, up to the
  await of the provider, and \<open>on_timer_reply\<close> the rest. An exception in the body is logged
  and ends the task. The broadcasts within \<open>on_timeout\<close> are awaits too, at which other handlers could
  run; the checks and writes before each of them are made without one.
\<close>

definition timeout_payload :: "env \<Rightarrow> json" where
  "timeout_payload env = JObj [(''timeout_seconds'', JInt (response_timeout_seconds (conf env)))]"

definition observe :: "string \<Rightarrow> world \<Rightarrow> world" where
  "observe i w = (case get_incident i (store w) of
       None \<Rightarrow> w
     | Some r \<Rightarrow>
         if response_state r \<noteq> AWAITING_RESPONSE then w
         else if map_of (tasks w) i = None then set_task i Sleeping w else w)"

text \<open>Cancelling a task that waits for the provider abandons its call.\<close>

definition cancel_timer :: "string \<Rightarrow> world \<Rightarrow> world" where
  "cancel_timer i w = (case map_of (tasks w) i of
       None \<Rightarrow> w
     | Some Sleeping \<Rightarrow> drop_task i w
     | Some (Calling n) \<Rightarrow> drop_call n (drop_task i w))"

definition timer_call :: "env \<Rightarrow> clock \<Rightarrow> string \<Rightarrow> world \<Rightarrow> world" where
  "timer_call env clk i w =
     (if demo_calls_enabled (conf env) then
        (case start_call env clk i FromTimer w of
           (Inl e, w) \<Rightarrow> drop_task i (if communication_error e then broadcast (CallBlocked e) w else w)
         | (Inr (Finished res), w) \<Rightarrow> drop_task i (broadcast (CallMessage res) w)
         | (Inr (InFlight n), w) \<Rightarrow> set_task i (Calling n) w)
      else drop_task i (broadcast (CallBlocked DemoCallsDisabled) w))"

definition due :: "incident \<Rightarrow> bool" where
  "due r \<longleftrightarrow> response_state r = AWAITING_RESPONSE
     \<and> hazard_state r \<in> {CONFIRMED, VISUAL_SIGNATURE_LOST}"

definition on_timeout :: "env \<Rightarrow> clock \<Rightarrow> string \<Rightarrow> world \<Rightarrow> world" where
  "on_timeout env clk i w =
     (if map_of (tasks w) i \<noteq> Some Sleeping then w
      else case get_incident i (store w) of
        None \<Rightarrow> drop_task i w
      | Some r \<Rightarrow>
          if \<not> due r then drop_task i w
          else (case update_incident_response (clk 0) (clk 1) i ESCALATING (Some ''no_response'') None
                       (store w) of
              (Inl e, db) \<Rightarrow> drop_task i (w\<lparr>store := db\<rparr>)
            | (Inr inc, db) \<Rightarrow>
                (case add_event (clk 2) i ''NO_OCCUPANT_RESPONSE'' ''backend_timeout''
                        (timeout_payload env) None JNull db of
                   (Inl e, db) \<Rightarrow> drop_task i (w\<lparr>store := db\<rparr>)
                 | (Inr ev, db) \<Rightarrow>
                     timer_call env (\<lambda>k. clk (k + 3)) i
                       (broadcast (IncidentMessage (Some inc))
                         (broadcast (TimelineMessage ev) (w\<lparr>store := db\<rparr>))))))"

definition on_timer_reply :: "env \<Rightarrow> clock \<Rightarrow> int \<Rightarrow> string \<Rightarrow> reply \<Rightarrow> world \<Rightarrow> world" where
  "on_timer_reply env clk n i rep w =
     (case end_call env clk n rep w of
        (Inl e, w) \<Rightarrow> drop_task i (if communication_error e then broadcast (CallBlocked e) w else w)
      | (Inr res, w) \<Rightarrow> drop_task i (broadcast (CallMessage res) w))"

definition close_timers :: "world \<Rightarrow> world" where
  "close_timers w = fold cancel_timer (map fst (tasks w)) w"

end
