(* ===== verification/Gateway.thy ===== *)
theory Gateway
  imports Escalation
begin

text \<open>
  The device side of the backend, \<^verbatim>\<open>src/backend/app/tcp_server.py\<close>: the handshake, the
  dispatch of packets by type, the loop over a connection's packets with the check of their
  sequence numbers, and the cleanup at its end. A chunk of bytes is handled as one step, the
  broadcasts and the draining of the writer within it included; its packets share the step's clock
  reading.
\<close>

section \<open>Failures\<close>

datatype failure =
  ProtocolFailure protocol_error
| HelloFirst | HelloIncomplete | HelloVersion | UnknownDevice | AuthenticationFailed
| UnknownIncident | UnexpectedPacket packet_type
| ValidationFailure | MissingKey
| OtherFailure

text \<open>
  The exceptions of the first \<open>except\<close> clause are told to the dashboards; \<open>OtherFailure\<close>
  stands for the rest (database errors, \<open>struct.error\<close>, TypeError), which are only logged.
\<close>

definition told :: "failure \<Rightarrow> bool" where
  "told f \<longleftrightarrow> f \<noteq> OtherFailure"

definition protocol_failure :: "protocol_error \<Rightarrow> failure" where
  "protocol_failure e = (if e = StructError then OtherFailure else ProtocolFailure e)"

section \<open>Handshake\<close>

text \<open>\<open>v != 1\<close> in Python: \<open>True\<close> and \<open>1.0\<close> equal 1.\<close>

definition equals_one :: "json \<Rightarrow> bool" where
  "equals_one v \<longleftrightarrow> v = JInt 1 \<or> v = JBool True \<or> v = JNum 1"

definition hello_required :: "string list" where
  "hello_required = [''device_id'', ''boot_id'', ''protocol_version'', ''software_version'', ''device_token'']"

definition field_of :: "dict \<Rightarrow> string \<Rightarrow> json" where
  "field_of d k = get_default d k JNull"

definition hello_row :: "string \<Rightarrow> dict \<Rightarrow> hello" where
  "hello_row dev d = \<lparr>hello_device_id = dev, hello_boot_id = field_of d ''boot_id'',
     hello_software_version = get_default d ''software_version'' (JStr ''unknown''),
     hello_capabilities = get_default d ''capabilities'' (JArr [])\<rparr>"

definition ack_payload :: dict where
  "ack_payload = [(''accepted'', JBool True), (''protocol_version'', JInt 1),
     (''zone_configuration_version'', JInt 1), (''threshold_configuration_version'', JInt 1)]"

text \<open>The checks of \<^verbatim>\<open>_authenticate\<close>, before anything is changed.\<close>

definition check_hello :: "env \<Rightarrow> packet \<Rightarrow> (failure, dict) result" where
  "check_hello env k = (case packet_json (loads_json env) k of
       Inl e \<Rightarrow> Err (protocol_failure e)
     | Inr d \<Rightarrow>
         if \<not> list_all (has_key d) hello_required then Err HelloIncomplete
         else if \<not> equals_one (field_of d ''protocol_version'') then Err HelloVersion
         else if field_of d ''device_id'' \<noteq> JStr (expected_device_id (conf env)) then Err UnknownDevice
         else (case compare_digest (py_str (repr_json env) (field_of d ''device_token''))
                      (device_token (conf env)) of
             None \<Rightarrow> Err OtherFailure
           | Some same \<Rightarrow> if \<not> same then Err AuthenticationFailed else Ok (pop ''device_token'' d)))"

text \<open>
  What follows: the registration, the device row, the acknowledgement and the broadcast. The
  expected device name is the device's.
\<close>

definition authenticate ::
  "env \<Rightarrow> clock \<Rightarrow> int \<Rightarrow> bool \<Rightarrow> packet \<Rightarrow> nat \<Rightarrow> world \<Rightarrow> (failure, dict) result \<times> world" where
  "authenticate env clk ns drained k wr w = (case check_hello env k of
       Inl f \<Rightarrow> (Err f, w)
     | Inr d \<Rightarrow>
         let dev = expected_device_id (conf env);
             w = w\<lparr>reg := register (new_connection dev (field_of d ''boot_id'') wr) (reg w)\<rparr>
         in case upsert_device (clk 0) (hello_row dev d) True (store w) of
              (Inl e, db) \<Rightarrow> (Err OtherFailure, w\<lparr>store := db\<rparr>)
            | (Inr _, db) \<Rightarrow>
                (case send_control (dumps_json env) ns drained dev HELLO_ACK ack_payload (reg w) of
                   (Inl e, rg) \<Rightarrow> (Err OtherFailure, w\<lparr>store := db, reg := rg\<rparr>)
                 | (Inr _, rg) \<Rightarrow>
                     (Ok d, broadcast (DeviceConnected dev) (w\<lparr>store := db, reg := rg\<rparr>))))"

section \<open>Dispatch\<close>

text \<open>The dictionary of a frame: the metadata and three more entries.\<close>

definition frame_dict :: "dict \<Rightarrow> bytes \<Rightarrow> packet \<Rightarrow> dict" where
  "frame_dict metadata jpeg k =
     set_key ''jpeg_base64'' (JStr (base64 jpeg))
       (set_key ''sequence'' (JInt (sequence k))
         (set_key ''monotonic_ns'' (JInt (monotonic_ns k)) metadata))"

definition on_frame :: "env \<Rightarrow> packet \<Rightarrow> world \<Rightarrow> (failure, unit) result \<times> world" where
  "on_frame env k w = (case decode_frame_payload (loads_json env) (packet.payload k) of
       Inl e \<Rightarrow> (Err (protocol_failure e), w)
     | Inr (metadata, jpeg) \<Rightarrow>
         let f = frame_dict metadata jpeg k in
         (Ok (), broadcast (FrameMessage f) (w\<lparr>reg := (reg w)\<lparr>latest_frame := Some f\<rparr>\<rparr>)))"

definition on_incident_update :: "env \<Rightarrow> clock \<Rightarrow> dict \<Rightarrow> dict \<Rightarrow> world \<Rightarrow> (failure, unit) result \<times> world" where
  "on_incident_update env clk hl d w =
     (if \<not> armed w then (Ok (), w)
      else case check_update env d of
        None \<Rightarrow> (Err ValidationFailure, w)
      | Some u \<Rightarrow>
          (case upsert_incident (clk 0) u (expected_device_id (conf env)) (field_of hl ''boot_id'')
                  (store w) of
             (Inl e, db) \<Rightarrow> (Err OtherFailure, w\<lparr>store := db\<rparr>)
           | (Inr _, db) \<Rightarrow>
               (Ok (), observe (u_incident_id u)
                  (broadcast (IncidentMessage (get_incident (u_incident_id u) db)) (w\<lparr>store := db\<rparr>)))))"

definition on_timeline_event :: "env \<Rightarrow> clock \<Rightarrow> packet \<Rightarrow> dict \<Rightarrow> world \<Rightarrow> (failure, unit) result \<times> world" where
  "on_timeline_event env clk k d w = (case get d ''incident_id'' of
       None \<Rightarrow> (Err MissingKey, w)
     | Some v \<Rightarrow>
         let i = py_str (repr_json env) v in
         if get_incident i (store w) = None then (Err UnknownIncident, w)
         else (case add_event (clk 0) i
                      (py_str (repr_json env) (get_default d ''event_type'' (JStr ''DEVICE_EVENT'')))
                      ''qnx'' (JObj d) (Some (monotonic_ns k)) (field_of d ''wall_time_utc'') (store w) of
             (Inl e, db) \<Rightarrow> (Err OtherFailure, w\<lparr>store := db\<rparr>)
           | (Inr ev, db) \<Rightarrow> (Ok (), broadcast (TimelineMessage ev) (w\<lparr>store := db\<rparr>))))"

definition on_health :: "env \<Rightarrow> clock \<Rightarrow> dict \<Rightarrow> world \<Rightarrow> (failure, unit) result \<times> world" where
  "on_health env clk d w =
     (let dev = expected_device_id (conf env);
          h = set_key ''qnx_connected'' (JBool True) (set_key ''device_id'' (JStr dev) d);
          w = w\<lparr>reg := (reg w)\<lparr>latest_health := h\<rparr>\<rparr>
      in case update_health (clk 0) dev (JObj h) (store w) of
           (Inl e, db) \<Rightarrow> (Err OtherFailure, w\<lparr>store := db\<rparr>)
         | (Inr _, db) \<Rightarrow> (Ok (), broadcast (HealthMessage h) (w\<lparr>store := db\<rparr>)))"

definition on_ping :: "env \<Rightarrow> int \<Rightarrow> bool \<Rightarrow> packet \<Rightarrow> world \<Rightarrow> (failure, unit) result \<times> world" where
  "on_ping env ns drained k w =
     (case send_control (dumps_json env) ns drained (expected_device_id (conf env)) PONG
             [(''ping_sequence'', JInt (sequence k))] (reg w) of
        (Inl e, rg) \<Rightarrow> (Err OtherFailure, w\<lparr>reg := rg\<rparr>)
      | (Inr _, rg) \<Rightarrow> (Ok (), w\<lparr>reg := rg\<rparr>))"

definition dispatch ::
  "env \<Rightarrow> clock \<Rightarrow> int \<Rightarrow> bool \<Rightarrow> dict \<Rightarrow> packet \<Rightarrow> world \<Rightarrow> (failure, unit) result \<times> world" where
  "dispatch env clk ns drained hl k w =
     (if packet_type k = FRAME then on_frame env k w
      else case packet_json (loads_json env) k of
        Inl e \<Rightarrow> (Err (protocol_failure e), w)
      | Inr d \<Rightarrow>
          (case packet_type k of
             DETECTIONS \<Rightarrow> (Ok (), broadcast (DetectionsMessage d)
                               (w\<lparr>reg := (reg w)\<lparr>latest_detections := Some d\<rparr>\<rparr>))
           | INCIDENT_UPDATE \<Rightarrow> on_incident_update env clk hl d w
           | INCIDENT_TIMELINE_EVENT \<Rightarrow> on_timeline_event env clk k d w
           | HEALTH_UPDATE \<Rightarrow> on_health env clk d w
           | CONFIG_ACK \<Rightarrow> (Ok (), broadcast (ConfigurationAck d) w)
           | PING \<Rightarrow> on_ping env ns drained k w
           | EVIDENCE_MANIFEST \<Rightarrow> (Ok (), broadcast (DeviceTimeline EVIDENCE_MANIFEST d) w)
           | LOG_EVENT \<Rightarrow> (Ok (), broadcast (DeviceTimeline LOG_EVENT d) w)
           | ty \<Rightarrow> (Err (UnexpectedPacket ty), w)))"

section \<open>One connection\<close>

record session =
  sess_parser :: parser
  sess_hello :: "dict option"
  last_sequence :: int
  sess_writer :: nat
  sess_open :: bool

definition new_session :: "env \<Rightarrow> nat \<Rightarrow> session" where
  "new_session env wr = \<lparr>sess_parser = new_parser (settings.max_payload_bytes (conf env)), sess_hello = None,
     last_sequence = -1, sess_writer = wr, sess_open = True\<rparr>"

text \<open>The body of the loop over the packets of a chunk.\<close>

definition on_packet ::
  "env \<Rightarrow> clock \<Rightarrow> int \<Rightarrow> bool \<Rightarrow> packet \<Rightarrow> session \<times> world \<Rightarrow> (failure, unit) result \<times> session \<times> world"
  where
  "on_packet env clk ns drained k sw = (case sw of (s, w) \<Rightarrow>
     if sequence k \<le> last_sequence s
     then (Ok (), s, broadcast (OutOfOrderSequence (sequence k) (last_sequence s)) w)
     else let s = s\<lparr>last_sequence := sequence k\<rparr> in
       case sess_hello s of
         None \<Rightarrow>
           if packet_type k \<noteq> HELLO then (Err HelloFirst, s, w)
           else (case authenticate env clk ns drained k (sess_writer s) w of
               (Inl f, w) \<Rightarrow> (Err f, s, w)
             | (Inr d, w) \<Rightarrow> (Ok (), s\<lparr>sess_hello := Some d\<rparr>, w))
       | Some hl \<Rightarrow> (case dispatch env clk ns drained hl k w of (r, w) \<Rightarrow> (r, s, w)))"

fun on_packets ::
  "env \<Rightarrow> clock \<Rightarrow> int \<Rightarrow> bool \<Rightarrow> packet list \<Rightarrow> session \<times> world \<Rightarrow> (failure, unit) result \<times> session \<times> world"
  where
  "on_packets env clk ns drained [] (s, w) = (Ok (), s, w)"
| "on_packets env clk ns drained (k # ks) (s, w) =
     (case on_packet env clk ns drained k (s, w) of
        (Inl f, s, w) \<Rightarrow> (Err f, s, w)
      | (Inr _, s, w) \<Rightarrow> on_packets env clk ns drained ks (s, w))"

text \<open>The \<open>finally\<close> clause.\<close>

definition disconnect :: "env \<Rightarrow> clock \<Rightarrow> session \<times> world \<Rightarrow> session \<times> world" where
  "disconnect env clk sw = (case sw of (s, w) \<Rightarrow>
     let dev = expected_device_id (conf env);
         s' = s\<lparr>sess_open := False\<rparr>;
         shut = (\<lambda>w. w\<lparr>reg := close_writer (sess_writer s) (reg w)\<rparr>)
     in case sess_hello s of
          None \<Rightarrow> (s', shut w)
        | Some hl \<Rightarrow>
            (case unregister dev (sess_writer s) (reg w) of
               (current, rg) \<Rightarrow>
                 let w = w\<lparr>reg := rg\<rparr> in
                 if \<not> current then (s', shut w)
                 else (case mark_device_disconnected (clk 0) dev (field_of hl ''boot_id'') (store w) of
                         (_, db) \<Rightarrow> (s', shut (broadcast (DeviceDisconnected dev) (w\<lparr>store := db\<rparr>))))))"

definition fail_session :: "env \<Rightarrow> clock \<Rightarrow> failure \<Rightarrow> session \<times> world \<Rightarrow> session \<times> world" where
  "fail_session env clk f sw = (case sw of (s, w) \<Rightarrow>
     disconnect env clk (s, if told f then broadcast DeviceProtocolError w else w))"

definition on_chunk :: "env \<Rightarrow> clock \<Rightarrow> int \<Rightarrow> bool \<Rightarrow> bytes \<Rightarrow> session \<times> world \<Rightarrow> session \<times> world" where
  "on_chunk env clk ns drained chunk sw = (case sw of (s, w) \<Rightarrow>
     if \<not> sess_open s then (s, w)
     else if chunk = [] then disconnect env clk (s, w)
     else case feed chunk (sess_parser s) of
       (Inl e, p) \<Rightarrow> fail_session env clk (protocol_failure e) (s\<lparr>sess_parser := p\<rparr>, w)
     | (Inr ks, p) \<Rightarrow>
         (case on_packets env clk ns drained ks (s\<lparr>sess_parser := p\<rparr>, w) of
            (Inl f, s, w) \<Rightarrow> fail_session env clk f (s, w)
          | (Inr _, s, w) \<Rightarrow> (s, w)))"

section \<open>Frames of the steps\<close>

text \<open>What a device can do to the store, as one relation every handler satisfies.\<close>

definition responses_kept :: "database \<Rightarrow> database \<Rightarrow> bool" where
  "responses_kept db db' \<longleftrightarrow> (\<forall>i r. get_incident i db = Some r \<longrightarrow>
     (\<exists>r'. get_incident i db' = Some r' \<and> evolves r r'
        \<and> (response_guarded (response_state r) \<longrightarrow> response_state r' = response_state r)))"

lemma responses_kept_trans: "responses_kept a b \<Longrightarrow> responses_kept b c \<Longrightarrow> responses_kept a c"
proof -
  assume ab: "responses_kept a b" and bc: "responses_kept b c"
  show "responses_kept a c"
    unfolding responses_kept_def
  proof (intro allI impI)
    fix i r assume "get_incident i a = Some r"
    with ab obtain r' where r': "get_incident i b = Some r'" "evolves r r'"
      "response_guarded (response_state r) \<longrightarrow> response_state r' = response_state r"
      unfolding responses_kept_def by blast
    from bc r'(1) obtain r'' where "get_incident i c = Some r''" "evolves r' r''"
      "response_guarded (response_state r') \<longrightarrow> response_state r'' = response_state r'"
      unfolding responses_kept_def by blast
    moreover from this(2) r'(2) have "evolves r r''" by (rule evolves_trans [rotated])
    ultimately show "\<exists>r'. get_incident i c = Some r' \<and> evolves r r'
        \<and> (response_guarded (response_state r) \<longrightarrow> response_state r' = response_state r)"
      using r'(3) by (intro exI [of _ r'']) simp
  qed
qed

lemma responses_kept_same: "incidents db' = incidents db \<Longrightarrow> responses_kept db db'"
  by (simp add: responses_kept_def get_incident_def)

definition device_step :: "world \<Rightarrow> world \<Rightarrow> bool" where
  "device_step w w' \<longleftrightarrow> armed w' = armed w \<and> requests w' = requests w \<and> pending w' = pending w
     \<and> action_limiter w' = action_limiter w \<and> attempts (store w') = attempts (store w)
     \<and> configurations (store w') = configurations (store w)
     \<and> (\<not> armed w \<longrightarrow> incidents (store w') = incidents (store w) \<and> tasks w' = tasks w)
     \<and> responses_kept (store w) (store w')"

lemma device_step_refl [simp]: "device_step w w"
  by (simp add: device_step_def responses_kept_same)

lemma device_step_trans: "device_step a b \<Longrightarrow> device_step b c \<Longrightarrow> device_step a c"
  using responses_kept_trans by (auto simp: device_step_def)

lemma device_step_same:
  assumes "armed w' = armed w" "requests w' = requests w" "pending w' = pending w"
    "action_limiter w' = action_limiter w" "tasks w' = tasks w"
    "incidents (store w') = incidents (store w)" "attempts (store w') = attempts (store w)"
    "configurations (store w') = configurations (store w)"
  shows "device_step w w'"
  using assms by (simp add: device_step_def responses_kept_same)

lemma device_step_broadcast [simp]: "device_step w (broadcast m w') = device_step w w'"
  by (simp add: device_step_def)

lemma device_step_reg [simp]:
  "device_step w (reg_update f w') = device_step w w'"
  "device_step w (store_update g (reg_update f w')) = device_step w (store_update g w')"
  by (simp_all add: device_step_def)

lemma add_event_frame [simp]:
  "incidents (snd (add_event t i ty src pl ns occ db)) = incidents db"
  "attempts (snd (add_event t i ty src pl ns occ db)) = attempts db"
  "configurations (snd (add_event t i ty src pl ns occ db)) = configurations db"
  by (simp_all add: add_event_def tx_def Let_def)

lemma device_rows_frame [simp]:
  "incidents (snd (upsert_device t h c db)) = incidents db"
  "attempts (snd (upsert_device t h c db)) = attempts db"
  "configurations (snd (upsert_device t h c db)) = configurations db"
  "incidents (snd (update_health t d j db)) = incidents db"
  "attempts (snd (update_health t d j db)) = attempts db"
  "configurations (snd (update_health t d j db)) = configurations db"
  "incidents (snd (mark_device_disconnected t d b db)) = incidents db"
  "attempts (snd (mark_device_disconnected t d b db)) = attempts db"
  "configurations (snd (mark_device_disconnected t d b db)) = configurations db"
  by (simp_all add: upsert_device_def update_health_def mark_device_disconnected_def tx_def)

lemma device_step_rows:
  "add_event t i ty src pl ns occ (store w) = (res, db) \<Longrightarrow> device_step w (w\<lparr>store := db\<rparr>)"
  "upsert_device t h c (store w) = (res', db) \<Longrightarrow> device_step w (w\<lparr>store := db\<rparr>)"
  "update_health t d j (store w) = (res', db) \<Longrightarrow> device_step w (w\<lparr>store := db\<rparr>)"
  "mark_device_disconnected t d b (store w) = (res', db) \<Longrightarrow> device_step w (w\<lparr>store := db\<rparr>)"
  by (auto simp: add_event_def upsert_device_def update_health_def mark_device_disconnected_def tx_def
      Let_def intro!: device_step_same split: if_splits)

lemma observe_frame [simp, frame_simps]:
  "store (observe i w) = store w" "armed (observe i w) = armed w" "pending (observe i w) = pending w"
  "requests (observe i w) = requests w" "action_limiter (observe i w) = action_limiter w"
  "reg (observe i w) = reg w"
  by (simp_all add: observe_def split: option.splits)

lemma merge_guarded:
  "response_guarded (response_state r) \<Longrightarrow> response_state (merge_incident r new) = response_state r"
  by (simp add: merge_incident_def)

lemma step_on_incident_update: "device_step w (snd (on_incident_update env clk hl d w))"
proof (cases "armed w \<and> check_update env d \<noteq> None")
  case False
  then show ?thesis by (auto simp: on_incident_update_def)
next
  case True
  then obtain u where u: "armed w" "check_update env d = Some u" by auto
  let ?up = "upsert_incident (clk 0) u (expected_device_id (conf env)) (field_of hl ''boot_id'') (store w)"
  show ?thesis
  proof (cases "fst ?up")
    case (Inl e)
    then have "snd ?up = store w"
      using perform_failed [of "UpsertIncident (clk 0) u (expected_device_id (conf env))
        (field_of hl ''boot_id'')" "store w" e "snd ?up"]
      by (simp add: outcome_def)
    with u Inl show ?thesis
      by (auto simp: on_incident_update_def split: prod.splits sum.splits intro!: device_step_same)
  next
    case (Inr x)
    then have db: "snd (on_incident_update env clk hl d w)
        = observe (u_incident_id u) (broadcast (IncidentMessage (get_incident (u_incident_id u) (snd ?up)))
            (w\<lparr>store := snd ?up\<rparr>))"
      using u by (auto simp: on_incident_update_def split: prod.splits sum.splits)
    have same: "attempts (snd ?up) = attempts (store w)" "configurations (snd ?up) = configurations (store w)"
      by (simp_all add: upsert_incident_def tx_def)
    show ?thesis
      using u(1) Inr same evolves_merge merge_guarded get_incident_upsert_incident [of "clk 0" u _ _ "store w"]
      unfolding db by (auto simp: device_step_def responses_kept_def)
  qed
qed

lemma step_on_timeline_event: "device_step w (snd (on_timeline_event env clk k d w))"
  by (auto simp: on_timeline_event_def Let_def split: sum.split prod.split option.split
      intro: device_step_rows)

lemma step_on_frame: "device_step w (snd (on_frame env k w))"
  by (auto simp: on_frame_def Let_def split: sum.split prod.split)

lemma step_on_ping: "device_step w (snd (on_ping env ns drained k w))"
  by (auto simp: on_ping_def Let_def split: sum.split prod.split)

lemma step_on_health: "device_step w (snd (on_health env clk d w))"
  by (auto simp: on_health_def Let_def split: sum.split prod.split intro: device_step_rows)

lemma step_dispatch: "device_step w (snd (dispatch env clk ns drained hl k w))"
  by (auto simp: dispatch_def step_on_incident_update step_on_timeline_event step_on_frame
      step_on_ping step_on_health split: sum.split packet_type.split)

lemma step_authenticate: "device_step w (snd (authenticate env clk ns drained k wr w))"
  by (auto simp: authenticate_def Let_def split: sum.split prod.split intro: device_step_rows)

lemma step_on_packet: "device_step w (snd (snd (on_packet env clk ns drained k (s, w))))"
proof -
  have auth: "device_step w w'" if "authenticate env clk ns drained k wr w = (r, w')" for wr r w'
    using step_authenticate [of w env clk ns drained k wr] that by simp
  have disp: "device_step w w'" if "dispatch env clk ns drained hl k w = (r, w')" for hl r w'
    using step_dispatch [of w env clk ns drained hl k] that by simp
  show ?thesis
    by (auto simp: on_packet_def Let_def split: sum.split prod.split option.split dest: auth disp)
qed

lemma step_on_packets: "device_step w (snd (snd (on_packets env clk ns drained ks (s, w))))"
proof (induction ks arbitrary: s w)
  case (Cons k ks)
  have "device_step w w'" if "on_packet env clk ns drained k (s, w) = (r, s', w')" for r s' w'
    using step_on_packet [of w env clk ns drained k s] that by simp
  with Cons show ?case
    by (auto split: sum.split prod.split intro: device_step_trans)
qed simp

lemma step_disconnect: "device_step w (snd (disconnect env clk (s, w)))"
  by (auto simp: disconnect_def Let_def split: prod.split option.split intro: device_step_rows)

lemma step_fail_session: "device_step w (snd (fail_session env clk f (s, w)))"
  using device_step_trans [OF _ step_disconnect] by (simp add: fail_session_def)

lemma step_on_chunk: "device_step w (snd (on_chunk env clk ns drained chunk (s, w)))"
proof -
  have "device_step w (snd (fail_session env clk f (s', w')))"
    if "on_packets env clk ns drained ks (s'', w) = (r, s', w')" for ks s'' r s' w' f
    using device_step_trans [OF _ step_fail_session] step_on_packets [of w env clk ns drained ks s''] that
    by simp
  moreover have "device_step w w'"
    if "on_packets env clk ns drained ks (s'', w) = (r, s', w')" for ks s'' r s' w'
    using step_on_packets [of w env clk ns drained ks s''] that by simp
  ultimately show ?thesis
    by (auto simp: on_chunk_def step_disconnect step_fail_session split: sum.split prod.split)
qed

section \<open>Sequence numbers\<close>

lemma on_packet_sequence:
  assumes "on_packet env clk ns drained k (s, w) = (r, s', w')"
  shows "last_sequence s \<le> last_sequence s' \<and> sequence k \<le> last_sequence s'"
  using assms
  by (auto simp: on_packet_def Let_def split: if_splits sum.splits prod.splits option.splits)

lemma on_packets_sequence:
  "on_packets env clk ns drained ks (s, w) = (Inr u, s', w') \<Longrightarrow>
   last_sequence s \<le> last_sequence s' \<and> (\<forall>k \<in> set ks. sequence k \<le> last_sequence s')"
proof (induction ks arbitrary: s w)
  case (Cons k ks)
  from Cons.prems obtain v s1 w1 where k: "on_packet env clk ns drained k (s, w) = (Inr v, s1, w1)"
    and ks: "on_packets env clk ns drained ks (s1, w1) = (Inr u, s', w')"
    by (auto split: sum.splits prod.splits)
  from on_packet_sequence [OF k] Cons.IH [OF ks] show ?case by auto
qed simp

text \<open>Packets that are not newer than the last one are reported and otherwise ignored.\<close>

lemma on_packets_old:
  assumes "\<forall>k \<in> set ks. sequence k \<le> last_sequence s"
  shows "on_packets env clk ns drained ks (s, w)
       = (Inr (), s, w\<lparr>messages := messages w
            @ map (\<lambda>k. OutOfOrderSequence (sequence k) (last_sequence s)) ks\<rparr>)"
  using assms by (induction ks arbitrary: w) (auto simp: on_packet_def broadcast_def)

section \<open>Authentication\<close>

lemma check_hello_Ok:
  assumes "check_hello env k = Inr d"
  shows "\<exists>h. packet_json (loads_json env) k = Inr h
       \<and> field_of h ''device_id'' = JStr (expected_device_id (conf env))
       \<and> py_str (repr_json env) (field_of h ''device_token'') = device_token (conf env)
       \<and> d = pop ''device_token'' h"
  using assms
  by (auto simp: check_hello_def compare_digest_def split: sum.splits if_splits option.splits)

lemma on_packet_unauthenticated:
  assumes "sess_hello s = None" and "is_ok (check_hello env k) \<Longrightarrow> packet_type k \<noteq> HELLO"
    and "on_packet env clk ns drained k (s, w) = (r, s', w')"
  shows "sess_hello s' = None \<and> store w' = store w \<and> reg w' = reg w"
  using assms
  by (auto simp: on_packet_def authenticate_def Let_def split: if_splits sum.splits)

lemma on_packets_unauthenticated:
  assumes "sess_hello s = None" and "\<forall>k \<in> set ks. is_ok (check_hello env k) \<longrightarrow> packet_type k \<noteq> HELLO"
    and "on_packets env clk ns drained ks (s, w) = (r, s', w')"
  shows "sess_hello s' = None \<and> store w' = store w \<and> reg w' = reg w"
  using assms
proof (induction ks arbitrary: s w)
  case (Cons k ks)
  obtain r1 s1 w1 where k: "on_packet env clk ns drained k (s, w) = (r1, s1, w1)" by (metis prod_cases3)
  with on_packet_unauthenticated [OF Cons.prems(1) _ k] Cons.prems(2)
  have 1: "sess_hello s1 = None \<and> store w1 = store w \<and> reg w1 = reg w" by auto
  with Cons k show ?case by (cases r1) auto
qed auto

section \<open>An example\<close>

text \<open>
  A concrete environment for the witnesses: the payload of one byte selects a text, the
  validation accepts one update.
\<close>

definition demo_hello :: "json \<Rightarrow> dict" where
  "demo_hello boot = [(''device_id'', JStr ''ignis-qnxpi-01''), (''boot_id'', boot),
     (''protocol_version'', JInt 1), (''software_version'', JStr ''1''),
     (''device_token'', JStr ''replace-me'')]"

definition demo_loads :: loads where
  "demo_loads bs =
     (if bs = [1] then Some (JObj (demo_hello (JStr ''b1'')))
      else if bs = [2] then Some (JObj (demo_hello JNull))
      else if bs = [3] then Some (JObj [(''hazard_state'', JStr ''SUSPECTED'')])
      else if bs = [4] then Some (JObj [(''hazard_state'', JStr ''CONFIRMED'')])
      else if bs = [5] then Some (JObj [(''incident_id'', JStr ''a-1'')])
      else None)"

definition demo_update :: "dict \<Rightarrow> incident_update option" where
  "demo_update d =
     (if get d ''hazard_state'' = Some (JStr ''CONFIRMED'') then Some (flame_update ''a-1'' CONFIRMED (8/10))
      else if get d ''hazard_state'' = Some (JStr ''SUSPECTED'') then Some (flame_update ''a-1'' SUSPECTED (1/10))
      else None)"

definition demo_env :: env where
  "demo_env = \<lparr>conf = call_settings, loads_json = demo_loads, dumps_json = (\<lambda>_. []),
     repr_json = (\<lambda>_. []), sha256 = (\<lambda>d. d), check_update = demo_update\<rparr>"

definition demo_packet :: "packet_type \<Rightarrow> int \<Rightarrow> byte \<Rightarrow> packet" where
  "demo_packet ty sq b =
     \<lparr>packet_type = ty, flags = 0, sequence = sq, monotonic_ns = 9, payload = [b]\<rparr>"

definition demo_session :: session where
  "demo_session = (new_session demo_env 1)\<lparr>sess_hello := Some (demo_hello (JStr ''b1''))\<rparr>"

definition armed_world :: world where
  "armed_world = (new_world demo_env)\<lparr>armed := True\<rparr>"

lemma demo_simps [simp]:
  "packet_json (loads_json demo_env) (demo_packet ty sq b) = (case demo_loads [b] of
      None \<Rightarrow> Err InvalidJson | Some (JObj d) \<Rightarrow> Ok d | Some _ \<Rightarrow> Err NotAnObject)"
  "packet_type (demo_packet ty sq b) = ty" "sequence (demo_packet ty sq b) = sq"
  "sess_hello demo_session = Some (demo_hello (JStr ''b1''))" "last_sequence demo_session = -1"
  "sess_hello (new_session demo_env n) = None" "last_sequence (new_session demo_env n) = -1"
  by (simp_all add: packet_json_def demo_packet_def demo_env_def demo_session_def new_session_def)

section \<open>Properties\<close>

text \<open>
  Replay: packets that were handled once change nothing when they come again on the same
  connection; each is only reported as out of order.
\<close>

theorem replayed_packets_ignored:
  assumes "on_packets env clk ns drained ks (s, w) = (Ok (), s1, w1)"
  shows "on_packets env clk' ns' drained' ks (s1, w1)
       = (Ok (), s1, w1\<lparr>messages := messages w1
            @ map (\<lambda>k. OutOfOrderSequence (sequence k) (last_sequence s1)) ks\<rparr>)"
  using on_packets_sequence [OF assms] on_packets_old by blast

definition two_pings :: "packet list" where
  "two_pings = [demo_packet LOG_EVENT 1 3, demo_packet LOG_EVENT 2 4]"

theorem replayed_packets_ignored_witness:
  "\<exists>s w. fst (on_packets demo_env (\<lambda>_. 0) 0 True two_pings (s, w)) = Ok () \<and> sess_hello s \<noteq> None
     \<and> store w = empty_db"
proof -
  have ok: "fst (on_packets demo_env (\<lambda>_. 0) 0 True two_pings (demo_session, armed_world)) = Ok ()"
    by code_simp
  have h: "store (snd (snd (on_packets demo_env (\<lambda>_. 0) 0 True two_pings (demo_session, armed_world)))) = empty_db"
    "sess_hello (fst (snd (on_packets demo_env (\<lambda>_. 0) 0 True two_pings (demo_session, armed_world)))) \<noteq> None"
    by code_simp+
  obtain s1 w1 where r: "on_packets demo_env (\<lambda>_. 0) 0 True two_pings (demo_session, armed_world) = (Ok (), s1, w1)"
    using ok by (metis prod.collapse)
  from replayed_packets_ignored [OF r, of "\<lambda>_. 0" 0 True] r h show ?thesis
    by (intro exI [of _ s1] exI [of _ w1]) simp
qed

text \<open>
  C9. Authentication: while a connection has not been accepted, its packets change nothing in the
  store or the registry and are not accepted, unless one of them is a HELLO that names the
  expected device and carries the configured token.
\<close>

theorem authentication_required:
  assumes "sess_hello s = None"
    and "on_packets env clk ns drained ks (s, w) = (r, s', w')"
    and "sess_hello s' \<noteq> None \<or> store w' \<noteq> store w \<or> reg w' \<noteq> reg w"
  shows "\<exists>k \<in> set ks. packet_type k = HELLO
       \<and> (\<exists>h. packet_json (loads_json env) k = Ok h
            \<and> field_of h ''device_id'' = JStr (expected_device_id (conf env))
            \<and> py_str (repr_json env) (field_of h ''device_token'') = device_token (conf env))"
proof (rule ccontr)
  assume no: "\<not> ?thesis"
  have "\<forall>k \<in> set ks. is_ok (check_hello env k) \<longrightarrow> packet_type k \<noteq> HELLO"
    using no check_hello_Ok [of env] unfolding is_ok_iff by blast
  from on_packets_unauthenticated [OF assms(1) this assms(2)] assms(3) show False by blast
qed

theorem authentication_required_witness:
  "\<exists>h. packet_json (loads_json demo_env) (demo_packet HELLO 1 1) = Ok h
     \<and> py_str (repr_json demo_env) (field_of h ''device_token'') = ''replace-me''"
proof -
  let ?r = "on_packets demo_env (\<lambda>_. 0) 0 True [demo_packet HELLO 1 1] (new_session demo_env 1, armed_world)"
  have "sess_hello (fst (snd ?r)) \<noteq> None" by code_simp
  then obtain r s' w' where "?r = (r, s', w')" "sess_hello s' \<noteq> None" by (metis prod.collapse)
  moreover have "sess_hello (new_session demo_env 1) = None" by simp
  moreover have "device_token (conf demo_env) = ''replace-me''"
    by (simp add: demo_env_def call_settings_def default_settings_def)
  ultimately show ?thesis
    using authentication_required [of "new_session demo_env 1" demo_env "\<lambda>_. 0" 0 True
        "[demo_packet HELLO 1 1]" armed_world r s' w'] by auto
qed

text \<open>
  C10. A device cannot undo a response: whatever bytes arrive on a connection, an incident whose
  response has been cancelled, escalated or called keeps that response and its confirmation
  time, no call attempt or configuration changes, no request is sent and the arming stays.
\<close>

theorem device_cannot_undo_response:
  assumes "on_chunk env clk ns drained chunk (s, w) = (s', w')"
    and "get_incident i (store w) = Some r" and "response_guarded (response_state r)"
  shows "(\<exists>r'. get_incident i (store w') = Some r' \<and> response_state r' = response_state r
            \<and> evolves r r')
       \<and> attempts (store w') = attempts (store w) \<and> configurations (store w') = configurations (store w)
       \<and> requests w' = requests w \<and> armed w' = armed w"
  using step_on_chunk [of w env clk ns drained chunk s] assms
  by (auto simp: device_step_def responses_kept_def)

definition cancelled_world :: world where
  "cancelled_world = armed_world\<lparr>store := snd (update_incident_response 150 160 ''a-1'' CANCELLED
     (Some ''testing'') None flame_db)\<rparr>"

theorem device_cannot_undo_response_witness:
  "\<exists>r'. get_incident ''a-1'' (store (snd (on_chunk demo_env (\<lambda>_. 0) 0 True [0] (demo_session, cancelled_world))))
      = Some r' \<and> response_state r' = CANCELLED"
proof -
  obtain r where r: "get_incident ''a-1'' (store cancelled_world) = Some r" "response_state r = CANCELLED"
    by (simp add: cancelled_world_def update_incident_response_Ok get_flame_db Let_def get_incident_set)
  then have "response_guarded (response_state r)" by (simp add: response_guarded_def)
  from device_cannot_undo_response [OF prod.collapse [symmetric] r(1) this] r(2)
  show ?thesis by (metis fst_conv snd_conv)
qed

text \<open>
  While the system is not armed no device creates or changes an incident or starts a timer,
  whatever bytes arrive.
\<close>

theorem unarmed_device_powerless:
  assumes "\<not> armed w" and "on_chunk env clk ns drained chunk (s, w) = (s', w')"
  shows "incidents (store w') = incidents (store w) \<and> tasks w' = tasks w \<and> \<not> armed w'"
  using step_on_chunk [of w env clk ns drained chunk s] assms by (simp add: device_step_def)

theorem unarmed_device_powerless_witness:
  "incidents (store (snd (on_chunk demo_env (\<lambda>_. 0) 0 True [0] (demo_session, new_world demo_env)))) = []"
  using unarmed_device_powerless [of "new_world demo_env", OF _ prod.collapse [symmetric]]
  by (simp add: new_world_def empty_db_def)

text \<open>
  What an unarmed backend does to the edge's usual pair of packets for a new incident: the
  update is dropped without an error, so the timeline event that follows it names an unknown
  incident, and the connection fails.
\<close>

theorem unarmed_event_fails_connection:
  assumes "\<not> armed w" and "get_incident i (store w) = None" and "sess_hello s = Some hl"
    and "packet_type k1 = INCIDENT_UPDATE" and "packet_json (loads_json env) k1 = Ok d1"
    and "packet_type k2 = INCIDENT_TIMELINE_EVENT" and "packet_json (loads_json env) k2 = Ok d2"
    and "get d2 ''incident_id'' = Some (JStr i)"
    and "last_sequence s < sequence k1" and "sequence k1 < sequence k2"
  shows "fst (on_packets env clk ns drained [k1, k2] (s, w)) = Err UnknownIncident"
  using assms
  by (simp add: on_packet_def dispatch_def on_incident_update_def on_timeline_event_def Let_def)

theorem unarmed_event_fails_connection_witness:
  "fst (on_packets demo_env (\<lambda>_. 0) 0 True
     [demo_packet INCIDENT_UPDATE 1 4, demo_packet INCIDENT_TIMELINE_EVENT 2 5]
     (demo_session, new_world demo_env)) = Err UnknownIncident"
proof (rule unarmed_event_fails_connection)
  show "get [(''incident_id'', JStr ''a-1'')] ''incident_id'' = Some (JStr ''a-1'')" by simp
qed (simp_all add: new_world_def demo_loads_def empty_db_def get_incident_def)

text \<open>
  A HELLO with the right token and a null \<open>boot_id\<close> registers its writer before the device
  row is refused; the connection ends, but nothing unregisters it, so the registry keeps a
  connection whose writer is closing.
\<close>

theorem refused_hello_stays_registered:
  assumes "sess_hello s = None" and "last_sequence s < sequence k" and "packet_type k = HELLO"
    and "check_hello env k = Ok d" and "field_of d ''boot_id'' = JNull"
    and "on_packet env clk ns drained k (s, w) = (r, s1, w1)"
    and "fail_session env clk OtherFailure (s1, w1) = (s2, w2)"
  shows "r = Err OtherFailure \<and> \<not> sess_open s2
       \<and> connected_to (expected_device_id (conf env)) (reg w2)
           = Some (new_connection (expected_device_id (conf env)) JNull (sess_writer s))
       \<and> sess_writer s \<in> set (closing (reg w2))"
proof -
  have "is_ok (fst (upsert_device t (hello_row dev d) True db)) = False" for t dev db
    using assms(5) by (simp add: upsert_device_def hello_row_def tx_def)
  then obtain e db where up: "upsert_device (clk 0) (hello_row (expected_device_id (conf env)) d) True (store w)
      = (Inl e, db)"
    by (metis is_ok_simps(1) prod.collapse sum.exhaust_sel)
  with assms have "r = Err OtherFailure" "sess_hello s1 = None" "sess_writer s1 = sess_writer s"
    "reg w1 = register (new_connection (expected_device_id (conf env)) JNull (sess_writer s)) (reg w)"
    by (auto simp: on_packet_def authenticate_def Let_def)
  with assms(7) show ?thesis
    by (auto simp: fail_session_def disconnect_def told_def Let_def connected_register
        new_connection_def) (auto simp: close_writer_def)
qed

theorem refused_hello_stays_registered_witness:
  "\<exists>w::world. connected_to ''ignis-qnxpi-01'' (reg w) = Some (new_connection ''ignis-qnxpi-01'' JNull 1)
     \<and> 1 \<in> set (closing (reg w))"
proof -
  have h: "check_hello demo_env (demo_packet HELLO 1 2) = Ok (pop ''device_token'' (demo_hello JNull))"
    by code_simp
  have b: "field_of (pop ''device_token'' (demo_hello JNull)) ''boot_id'' = JNull" by code_simp
  have c: "expected_device_id (conf demo_env) = ''ignis-qnxpi-01''" "sess_writer (new_session demo_env 1) = 1"
    by (simp_all add: demo_env_def call_settings_def default_settings_def new_session_def)
  obtain r s1 w1 where p: "on_packet demo_env (\<lambda>_. 0) 0 True (demo_packet HELLO 1 2)
      (new_session demo_env 1, armed_world) = (r, s1, w1)" by (metis prod_cases3)
  obtain s2 w2 where f: "fail_session demo_env (\<lambda>_. 0) OtherFailure (s1, w1) = (s2, w2)" by (metis prod.collapse)
  have s: "sess_hello (new_session demo_env 1) = None"
    "last_sequence (new_session demo_env 1) < sequence (demo_packet HELLO 1 2)"
    "packet_type (demo_packet HELLO 1 2) = HELLO"
    by simp_all
  from refused_hello_stays_registered [OF s h b p f] show ?thesis unfolding c by blast
qed

end
