(* ===== verification/Api.thy ===== *)
theory Api
  imports Gateway
begin

text \<open>
  The HTTP side of the backend, \<^verbatim>\<open>src/backend/app/main.py\<close>: the actions on an incident, the
  demonstration call, arming, the zone configuration, the provider's webhook and the reads. A
  handler is one step up to its await of the provider; requests come validated, as FastAPI and
  Pydantic hand them over. \<open>client\<close> and \<open>mono_now\<close> are the caller's address and the monotonic
  clock the rate limiter reads.
\<close>

section \<open>Errors\<close>

datatype http_error =
  RateLimitExceeded | IncidentMissing | DeviceMissing | NotConfirmedYet | AlreadyCancelled
| AlreadyConnected | NotReadyForReset | SystemUnarmed | InvalidWebhookSecret | CallAttemptMissing
| VersionConflict | CallFailed comm_error | ServerError

fun http_status :: "http_error \<Rightarrow> int" where
  "http_status RateLimitExceeded = 429"
| "http_status IncidentMissing = 404"
| "http_status DeviceMissing = 404"
| "http_status NotConfirmedYet = 409"
| "http_status AlreadyCancelled = 409"
| "http_status AlreadyConnected = 409"
| "http_status NotReadyForReset = 409"
| "http_status SystemUnarmed = 409"
| "http_status InvalidWebhookSecret = 401"
| "http_status CallAttemptMissing = 404"
| "http_status VersionConflict = 409"
| "http_status (CallFailed e) = status_code e"
| "http_status ServerError = 500"

type_synonym 'a handler = "world \<Rightarrow> (http_error, 'a) result \<times> world"

definition require_rate_limit :: "string \<Rightarrow> rat \<Rightarrow> unit handler" where
  "require_rate_limit addr now w = (case allow addr now (action_limiter w) of
     (ok, l) \<Rightarrow> (if ok then Ok () else Err RateLimitExceeded, w\<lparr>action_limiter := l\<rparr>))"

text \<open>A handler behind the rate limit.\<close>

definition limited :: "string \<Rightarrow> rat \<Rightarrow> 'a handler \<Rightarrow> 'a handler" where
  "limited addr now h w = (case require_rate_limit addr now w of
     (Inl e, w) \<Rightarrow> (Err e, w) | (Inr _, w) \<Rightarrow> h w)"

section \<open>Actions on an incident\<close>

record context_of_step =
  clk :: clock
  client :: string
  mono_now :: rat
  mono_ns :: int
  drained :: bool

record action_result =
  updated_incident :: incident
  device_delivery :: delivery

definition announce_action ::
  "env \<Rightarrow> context_of_step \<Rightarrow> incident \<Rightarrow> event \<Rightarrow> packet_type \<Rightarrow> dict \<Rightarrow> delivery handler" where
  "announce_action env c inc ev ty pl w =
     (case send_control (dumps_json env) (mono_ns c) (drained c) (inc_device_id inc) ty pl (reg w) of
        (Inl e, rg) \<Rightarrow> (Err ServerError, w\<lparr>reg := rg\<rparr>)
      | (Inr dl, rg) \<Rightarrow>
          (Ok dl, broadcast (IncidentMessage (Some inc)) (broadcast (TimelineMessage ev) (w\<lparr>reg := rg\<rparr>))))"

text \<open>What the three actions share: the update, the event, the announcement.\<close>

definition act ::
  "env \<Rightarrow> context_of_step \<Rightarrow> string \<Rightarrow> response_state \<Rightarrow> string option \<Rightarrow> hazard_state option
   \<Rightarrow> string \<Rightarrow> string \<Rightarrow> dict \<Rightarrow> packet_type \<Rightarrow> dict \<Rightarrow> action_result handler" where
  "act env c i rs occ hz ty src pl pty ppl w =
     (case update_incident_response (clk c 0) (clk c 1) i rs occ hz (store w) of
        (Inl e, db) \<Rightarrow> (Err ServerError, w\<lparr>store := db\<rparr>)
      | (Inr inc, db) \<Rightarrow>
          (case add_event (clk c 2) i ty src (JObj pl) None JNull db of
             (Inl e, db) \<Rightarrow> (Err ServerError, w\<lparr>store := db\<rparr>)
           | (Inr ev, db) \<Rightarrow>
               (case announce_action env c inc ev pty ppl (w\<lparr>store := db\<rparr>) of
                  (Inl e, w) \<Rightarrow> (Err e, w)
                | (Inr dl, w) \<Rightarrow> (Ok \<lparr>updated_incident = inc, device_delivery = dl\<rparr>, w))))"

definition confirm ::
  "env \<Rightarrow> context_of_step \<Rightarrow> string \<Rightarrow> string \<Rightarrow> string \<Rightarrow> action_result handler" where
  "confirm env c i src note = limited (client c) (mono_now c) (\<lambda>w.
     case get_incident i (store w) of
       None \<Rightarrow> (Err IncidentMissing, w)
     | Some r \<Rightarrow>
         if hazard_state r \<notin> {CONFIRMED, VISUAL_SIGNATURE_LOST} then (Err NotConfirmedYet, w)
         else if response_state r = CANCELLED then (Err AlreadyCancelled, w)
         else act env c i ESCALATING (Some ''confirmed'') None ''OCCUPANT_CONFIRMED'' src
                [(''note'', JStr note)] OCCUPANT_CONFIRM
                [(''incident_id'', JStr i), (''source'', JStr src)] (cancel_timer i w))"

definition cancel ::
  "env \<Rightarrow> context_of_step \<Rightarrow> string \<Rightarrow> string \<Rightarrow> string \<Rightarrow> string \<Rightarrow> action_result handler" where
  "cancel env c i src reason note = limited (client c) (mono_now c) (\<lambda>w.
     case get_incident i (store w) of
       None \<Rightarrow> (Err IncidentMissing, w)
     | Some r \<Rightarrow>
         if response_state r \<in> {CALL_CONNECTED, CALL_COMPLETED} then (Err AlreadyConnected, w)
         else act env c i CANCELLED (Some reason) None ''ESCALATION_CANCELLED'' src
                [(''reason'', JStr reason), (''note'', JStr note)] OCCUPANT_CANCEL
                [(''incident_id'', JStr i), (''reason'', JStr reason), (''source'', JStr src)]
                (cancel_timer i w))"

definition reset :: "env \<Rightarrow> context_of_step \<Rightarrow> string \<Rightarrow> string \<Rightarrow> string \<Rightarrow> action_result handler" where
  "reset env c i src note = limited (client c) (mono_now c) (\<lambda>w.
     case get_incident i (store w) of
       None \<Rightarrow> (Err IncidentMissing, w)
     | Some r \<Rightarrow>
         if response_state r \<notin> {CANCELLED, CALL_COMPLETED, CALL_FAILED} then (Err NotReadyForReset, w)
         else act env c i (response_state r) (occupant_response r) (Some RESOLVED) ''MANUAL_RESET''
                src [(''note'', JStr note)] MANUAL_RESET
                [(''incident_id'', JStr i), (''source'', JStr src)] w)"

section \<open>The demonstration call\<close>

text \<open>
  The JSON of a call's result; the six bullets of a masked number, outside the characters of
  the model, are written as six stops.
\<close>

definition mask_text :: "masked \<Rightarrow> string" where
  "mask_text m = (case m of MaskedEnds a b \<Rightarrow> a @ ''......'' @ b | FullyMasked \<Rightarrow> ''[masked]'')"

definition call_json :: "call_result \<Rightarrow> json" where
  "call_json res = JObj [(''status'', JStr ''CALL_REQUEST_ACCEPTED''),
     (''connection_status'', JStr ''UNKNOWN''), (''provider'', JStr (provider_name res)),
     (''conversation_id'', result_conversation res),
     (''destination'', JStr (mask_text (result_destination res)))]"

definition call_accepted :: "time \<Rightarrow> string \<Rightarrow> call_result \<Rightarrow> call_result handler" where
  "call_accepted t i res w =
     (case add_event t i ''DEMO_DISPATCH_REQUESTED'' ''backend'' (call_json res) None JNull (store w) of
        (Inl e, db) \<Rightarrow> (Err ServerError, w\<lparr>store := db\<rparr>)
      | (Inr ev, db) \<Rightarrow>
          (Ok res, broadcast (CallMessage res) (broadcast (TimelineMessage ev) (w\<lparr>store := db\<rparr>))))"

definition call_error :: "comm_error \<Rightarrow> http_error" where
  "call_error e = (if communication_error e then CallFailed e else ServerError)"

definition call_demo_dispatch :: "env \<Rightarrow> context_of_step \<Rightarrow> string \<Rightarrow> started handler" where
  "call_demo_dispatch env c i = limited (client c) (mono_now c) (\<lambda>w.
     if \<not> armed w then (Err SystemUnarmed, w)
     else if get_incident i (store w) = None then (Err IncidentMissing, w)
     else (case start_call env (clk c) i FromAction w of
         (Inl e, w) \<Rightarrow> (Err (call_error e), w)
       | (Inr (InFlight n), w) \<Rightarrow> (Ok (InFlight n), w)
       | (Inr (Finished res), w) \<Rightarrow>
           (case call_accepted (clk c 3) i res w of
              (Inl e, w) \<Rightarrow> (Err e, w) | (Inr res, w) \<Rightarrow> (Ok (Finished res), w))))"

text \<open>The rest of the handler when the provider's reply arrives.\<close>

definition on_action_reply :: "env \<Rightarrow> clock \<Rightarrow> int \<Rightarrow> string \<Rightarrow> reply \<Rightarrow> call_result handler" where
  "on_action_reply env ck n i rep w = (case end_call env ck n rep w of
     (Inl e, w) \<Rightarrow> (Err (call_error e), w)
   | (Inr res, w) \<Rightarrow> call_accepted (ck 2) i res w)"

text \<open>The reply to a call in flight, whoever started it.\<close>

definition on_reply :: "env \<Rightarrow> clock \<Rightarrow> int \<Rightarrow> reply \<Rightarrow> world \<Rightarrow> world" where
  "on_reply env ck n rep w = (case find_call n w of
     None \<Rightarrow> w
   | Some cl \<Rightarrow> (case call_origin cl of
       FromTimer \<Rightarrow> on_timer_reply env ck n (call_incident cl) rep w
     | FromAction \<Rightarrow> snd (on_action_reply env ck n (call_incident cl) rep w)))"

section \<open>Arming, configuration and webhook\<close>

definition put_arming :: "context_of_step \<Rightarrow> dict \<Rightarrow> bool handler" where
  "put_arming c body = limited (client c) (mono_now c) (\<lambda>w.
     let a = truthy (get_default body ''armed'' JNull) in
     (Ok a, broadcast (ArmingMessage a) (w\<lparr>armed := a\<rparr>)))"

fun send_configuration ::
  "env \<Rightarrow> context_of_step \<Rightarrow> dict \<Rightarrow> string list \<Rightarrow> (string \<times> delivery) list handler" where
  "send_configuration env c pl [] w = (Ok [], w)"
| "send_configuration env c pl (dev # devs) w =
     (case send_control (dumps_json env) (mono_ns c) (drained c) dev CONFIG_UPDATE pl (reg w) of
        (Inl e, rg) \<Rightarrow> (Err ServerError, w\<lparr>reg := rg\<rparr>)
      | (Inr dl, rg) \<Rightarrow> (case send_configuration env c pl devs (w\<lparr>reg := rg\<rparr>) of
          (Inl e, w) \<Rightarrow> (Err e, w) | (Inr dls, w) \<Rightarrow> (Ok ((dev, dl) # dls), w)))"

definition put_zones ::
  "env \<Rightarrow> context_of_step \<Rightarrow> int \<Rightarrow> json \<Rightarrow> (string \<times> delivery) list handler" where
  "put_zones env c ver value = limited (client c) (mono_now c) (\<lambda>w.
     case put_configuration (clk c 0) ''zones'' ver value (store w) of
       (Inl e, db) \<Rightarrow> (Err (if e = VersionMustIncrease then VersionConflict else ServerError), w\<lparr>store := db\<rparr>)
     | (Inr _, db) \<Rightarrow>
         (case send_configuration env c [(''kind'', JStr ''zones''), (''value'', value)]
                 (map fst (connections (reg w))) (w\<lparr>store := db\<rparr>) of
            (Inl e, w) \<Rightarrow> (Err e, w)
          | (Inr dls, w) \<Rightarrow> (Ok dls, broadcast (ConfigurationMessage value dls) w)))"

datatype provider_status = ProviderConnected | ProviderCompleted | ProviderFailed

fun status_of :: "provider_status \<Rightarrow> call_status" where
  "status_of ProviderConnected = CONNECTED"
| "status_of ProviderCompleted = COMPLETED"
| "status_of ProviderFailed = FAILED"

definition provider_call_status ::
  "env \<Rightarrow> clock \<Rightarrow> string option \<Rightarrow> string \<Rightarrow> provider_status \<Rightarrow> string option \<Rightarrow> string option
   \<Rightarrow> string option \<Rightarrow> call_status handler" where
  "provider_call_status env ck secret i st conversation sid err w =
     (case authenticate_provider_webhook (conf env) secret of
        None \<Rightarrow> (Err ServerError, w)
      | Some False \<Rightarrow> (Err InvalidWebhookSecret, w)
      | Some True \<Rightarrow>
          (case find_attempt_for_incident i (store w) of
             None \<Rightarrow> (Err CallAttemptMissing, w)
           | Some a \<Rightarrow>
               (case update_call_attempt (ck 0) (ck 1) (attempt_id a)
                       \<lparr>new_status = status_of st, new_conversation_id = conversation,
                        new_call_sid = sid, new_error_code = err,
                        new_error_message = (if st = ProviderFailed
                          then Some ''Provider reported call failure.'' else None)\<rparr> (store w) of
                  (Inl e, db) \<Rightarrow> (Err ServerError, w\<lparr>store := db\<rparr>)
                | (Inr a, db) \<Rightarrow> (Ok (status_of st), broadcast (AttemptMessage a) (w\<lparr>store := db\<rparr>)))))"

section \<open>Reads and start\<close>

definition incidents_listed :: "int \<Rightarrow> world \<Rightarrow> incident list" where
  "incidents_listed n w = list_incidents (nat (max 1 (min n 250))) (store w)"

definition incident_context :: "string \<Rightarrow> world \<Rightarrow> (http_error, context_data) result" where
  "incident_context i w = (case get_incident i (store w) of
     None \<Rightarrow> Err IncidentMissing | Some r \<Rightarrow> Ok (safe_incident_context r))"

definition incident_events :: "string \<Rightarrow> world \<Rightarrow> (http_error, event list) result" where
  "incident_events i w = (if get_incident i (store w) = None then Err IncidentMissing
     else Ok (list_events i (store w)))"

definition voice_signed_url ::
  "env \<Rightarrow> string \<Rightarrow> int \<Rightarrow> json option \<Rightarrow> world \<Rightarrow> (http_error, string \<times> context_data) result" where
  "voice_signed_url env i code url w =
     (if \<not> armed w then Err SystemUnarmed
      else case get_incident i (store w) of
        None \<Rightarrow> Err IncidentMissing
      | Some r \<Rightarrow> (case signed_url (conf env) code url of
          Inl e \<Rightarrow> Err (CallFailed e) | Inr u \<Rightarrow> Ok (u, safe_incident_context r)))"

text \<open>The part of \<^verbatim>\<open>health\<close> that is computed: the first device of the list decides.\<close>

definition health_status :: "world \<Rightarrow> string \<times> bool" where
  "health_status w = (case list_devices (store w) of
       [] \<Rightarrow> (''DEGRADED'', False)
     | d # _ \<Rightarrow>
         let h = (case health d of JObj h \<Rightarrow> h | _ \<Rightarrow> []);
             inference = get_default h ''inference'' (JStr ''UNKNOWN'')
         in (if connected d \<and> inference = JStr ''HEALTHY'' then ''HEALTHY'' else ''DEGRADED'', connected d))"

text \<open>The configurations \<^verbatim>\<open>lifespan\<close> stores when there is none.\<close>

definition ensure_configuration :: "time \<Rightarrow> string \<Rightarrow> int \<Rightarrow> json \<Rightarrow> world \<Rightarrow> world" where
  "ensure_configuration t k ver value w =
     (if get_configuration k (store w) = None
      then w\<lparr>store := snd (put_configuration t k ver value (store w))\<rparr> else w)"

end
