(* ===== verification/Steps.thy ===== *)
theory Steps
  imports Api
begin

text \<open>
  What every step of the backend keeps. The locale \<open>backend_law\<close> is the interface: a relation
  between the stored data and the requests sent before and after, which each write of the
  store satisfies, the responses the handlers write included, and each request sent. Its
  lemmas carry the relation through every handler, timer, reply and chunk of bytes. It is
  interpreted twice on the model: the store changes only by its own writes, and every request
  passed the guards on a state in between and has a new attempt of its own (\<open>sound\<close>); a cancelled
  incident stays cancelled (\<open>cancelled\<close>).
\<close>

section \<open>The law\<close>

type_synonym core = "database \<times> provider_request list"

definition core :: "world \<Rightarrow> core" where
  "core w = (store w, requests w)"

lemma core_frames [simp]:
  "core (broadcast m w) = core w" "core (drop_task i w) = core w" "core (set_task i p w) = core w"
  "core (drop_call n w) = core w" "core (observe i w) = core w" "core (w\<lparr>reg := rg\<rparr>) = core w"
  "core (w\<lparr>armed := b\<rparr>) = core w" "core (w\<lparr>action_limiter := l\<rparr>) = core w"
  "core (w\<lparr>store := db\<rparr>) = (db, requests w)" "core (w\<lparr>store := db, requests := qs, pending := ps\<rparr>) = (db, qs)"
  "core (w\<lparr>store := db, reg := rg\<rparr>) = (db, requests w)" "core (w\<lparr>reg := rg, store := db\<rparr>) = (db, requests w)"
  by (simp_all add: core_def)

lemma core_cancel_timer [simp]: "core (cancel_timer i w) = core w"
  "store (cancel_timer i w) = store w" "requests (cancel_timer i w) = requests w"
  by (simp_all add: cancel_timer_def core_def split: option.split phase.split)

text \<open>The writes other than that of a response, and the responses that respect a cancellation.\<close>

definition ordinary :: "db_write \<Rightarrow> bool" where
  "ordinary x \<longleftrightarrow> (case x of UpdateResponse t1 t2 i rs occ hz \<Rightarrow> False | _ \<Rightarrow> True)"

definition respectful :: "string \<Rightarrow> response_state \<Rightarrow> database \<Rightarrow> bool" where
  "respectful i rs db \<longleftrightarrow>
     (\<forall>r. get_incident i db = Some r \<longrightarrow> response_state r = CANCELLED \<longrightarrow> rs = CANCELLED)"

locale backend_law =
  fixes env :: env and law :: "core \<Rightarrow> core \<Rightarrow> bool"
  assumes law_refl: "law c c"
    and law_trans: "law a b \<Longrightarrow> law b c \<Longrightarrow> law a c"
    and law_write: "ordinary x \<Longrightarrow> law (db, qs) (exec x db, qs)"
    and law_respond: "respectful i rs db \<Longrightarrow>
      law (db, qs) (snd (update_incident_response t1 t2 i rs occ hz db), qs)"
    and law_send: "begin_call (conf env) (sha256 env) t i db = (Inr (n, r), db') \<Longrightarrow>
      law (db, qs) (db', qs @ [provider_request (conf env) r])"
begin

definition keeps :: "world \<Rightarrow> world \<Rightarrow> bool" where
  "keeps w w' = law (core w) (core w')"

lemma keeps_core: "core w' = core w \<Longrightarrow> keeps w w'"
  by (simp add: keeps_def law_refl)

lemma keeps_refl [simp]: "keeps w w"
  by (simp add: keeps_core)

lemma keeps_trans: "keeps a b \<Longrightarrow> keeps b c \<Longrightarrow> keeps a c"
  unfolding keeps_def by (rule law_trans)

lemma keeps_by_snd: "keeps w (snd f) \<Longrightarrow> f = (r, w') \<Longrightarrow> keeps w w'"
  by simp

lemma keeps_frames [simp]:
  "keeps w (broadcast m w') = keeps w w'" "keeps (broadcast m w') w = keeps w' w"
  "keeps w (drop_task i w') = keeps w w'" "keeps w (set_task i p w') = keeps w w'"
  "keeps w (drop_call n w') = keeps w w'" "keeps w (observe i w') = keeps w w'"
  "keeps w (cancel_timer i w') = keeps w w'" "keeps (cancel_timer i w') w = keeps w' w"
  "keeps w (w'\<lparr>reg := rg\<rparr>) = keeps w w'" "keeps w (w'\<lparr>armed := b\<rparr>) = keeps w w'"
  "keeps w (w'\<lparr>action_limiter := l\<rparr>) = keeps w w'" "keeps (w'\<lparr>action_limiter := l\<rparr>) w = keeps w' w"
  "keeps w (w\<lparr>store := db\<rparr>) = law (store w, requests w) (db, requests w)"
  "keeps w (w\<lparr>store := db, reg := rg\<rparr>) = law (store w, requests w) (db, requests w)"
  "keeps w (w\<lparr>reg := rg, store := db\<rparr>) = law (store w, requests w) (db, requests w)"
  by (simp_all add: keeps_def) (simp_all add: core_def)

lemma law_method: "ordinary x \<Longrightarrow> law a (db, qs) \<Longrightarrow> law a (exec x db, qs)"
  using law_trans law_write by blast

lemma law_methods:
  "add_event t i ty src pl ns oc db = (r2, db') \<Longrightarrow> law a (db, qs) \<Longrightarrow> law a (db', qs)"
  "reserve_call_attempt t i dest cd mx db = (r3, db') \<Longrightarrow> law a (db, qs) \<Longrightarrow> law a (db', qs)"
  "update_call_attempt t1 t2 n c db = (r4, db') \<Longrightarrow> law a (db, qs) \<Longrightarrow> law a (db', qs)"
  "put_configuration t k v x db = (r5, db') \<Longrightarrow> law a (db, qs) \<Longrightarrow> law a (db', qs)"
  "upsert_device t h cn db = (r5, db') \<Longrightarrow> law a (db, qs) \<Longrightarrow> law a (db', qs)"
  "update_health t dv j db = (r5, db') \<Longrightarrow> law a (db, qs) \<Longrightarrow> law a (db', qs)"
  "mark_device_disconnected t dv b db = (r5, db') \<Longrightarrow> law a (db, qs) \<Longrightarrow> law a (db', qs)"
  "upsert_incident t u dv b db = (r5, db') \<Longrightarrow> law a (db, qs) \<Longrightarrow> law a (db', qs)"
  using law_method [of "AddEvent t i ty src pl ns oc" a db qs]
    law_method [of "ReserveCall t i dest cd mx" a db qs] law_method [of "UpdateCall t1 t2 n c" a db qs]
    law_method [of "PutConfiguration t k v x" a db qs] law_method [of "UpsertDevice t h cn" a db qs]
    law_method [of "UpdateHealth t dv j" a db qs] law_method [of "MarkDisconnected t dv b" a db qs]
    law_method [of "UpsertIncident t u dv b" a db qs]
  by (simp_all add: exec_def ordinary_def)

lemma law_record_outcome:
  "record_outcome t1 t2 n c res db = (r, db') \<Longrightarrow> law a (db, qs) \<Longrightarrow> law a (db', qs)"
  by (auto simp: record_outcome_def intro: law_methods split: sum.splits prod.splits)

lemma law_finish_mock: "finish_mock s t1 t2 n db = (r, db') \<Longrightarrow> law a (db, qs) \<Longrightarrow> law a (db', qs)"
  by (auto simp: finish_mock_def Let_def intro: law_record_outcome)

lemma law_finish_call:
  "finish_call s repr t1 t2 n rep db = (r, db') \<Longrightarrow> law a (db, qs) \<Longrightarrow> law a (db', qs)"
  by (auto simp: finish_call_def Let_def intro: law_record_outcome split: reply.splits if_splits option.splits)

lemma law_begin_call: "begin_call s sha t i db = (r, db') \<Longrightarrow> law a (db, qs) \<Longrightarrow> law a (db', qs)"
  by (auto simp: begin_call_def intro: law_methods
      split: if_splits sum.splits option.splits prod.splits db_error.splits)

lemmas law_rules = law_methods law_record_outcome law_finish_mock law_finish_call law_begin_call law_refl

text \<open>The device side.\<close>

lemma keeps_on_frame: "keeps w (snd (on_frame env k w))"
  by (auto simp: on_frame_def Let_def split: sum.split prod.split)

lemma keeps_on_incident_update: "keeps w (snd (on_incident_update env ck hl d w))"
  by (auto simp: on_incident_update_def split: sum.split prod.split option.split intro: law_rules)

lemma keeps_on_timeline_event: "keeps w (snd (on_timeline_event env ck k d w))"
  by (auto simp: on_timeline_event_def Let_def split: sum.split prod.split option.split intro: law_rules)

lemma keeps_on_health: "keeps w (snd (on_health env ck d w))"
  by (auto simp: on_health_def Let_def split: sum.split prod.split intro: law_rules)

lemma keeps_on_ping: "keeps w (snd (on_ping env ns dr k w))"
  by (auto simp: on_ping_def split: sum.split prod.split)

lemma keeps_dispatch: "keeps w (snd (dispatch env ck ns dr hl k w))"
  by (auto simp: dispatch_def keeps_on_frame keeps_on_incident_update keeps_on_timeline_event
      keeps_on_health keeps_on_ping split: sum.split packet_type.split)

lemma keeps_authenticate: "keeps w (snd (authenticate env ck ns dr k wr w))"
  by (auto simp: authenticate_def Let_def split: sum.split prod.split intro: law_rules)

lemma keeps_on_packet: "keeps w (snd (snd (on_packet env ck ns dr k (s, w))))"
proof -
  have auth: "keeps w w'" if "authenticate env ck ns dr k wr w = (r, w')" for wr r w'
    using keeps_authenticate [of w ck ns dr k wr] that by simp
  have disp: "keeps w w'" if "dispatch env ck ns dr hl k w = (r, w')" for hl r w'
    using keeps_dispatch [of w ck ns dr hl k] that by simp
  show ?thesis
    by (auto simp: on_packet_def Let_def split: sum.split prod.split option.split dest: auth disp)
qed

lemma keeps_on_packets: "keeps w (snd (snd (on_packets env ck ns dr ks (s, w))))"
proof (induction ks arbitrary: s w)
  case (Cons k ks)
  have "keeps w w'" if "on_packet env ck ns dr k (s, w) = (r, s', w')" for r s' w'
    using keeps_on_packet [of w ck ns dr k s] that by simp
  with Cons show ?case
    by (auto split: sum.split prod.split intro: keeps_trans)
qed simp

lemma keeps_disconnect: "keeps w (snd (disconnect env ck (s, w)))"
  by (auto simp: disconnect_def Let_def split: prod.split option.split intro: law_rules)

lemma keeps_fail_session: "keeps w (snd (fail_session env ck f (s, w)))"
  using keeps_disconnect [of "broadcast DeviceProtocolError w" ck s] keeps_disconnect [of w ck s]
  by (simp add: fail_session_def)

lemma keeps_on_chunk: "keeps w (snd (on_chunk env ck ns dr chunk (s, w)))"
proof -
  have "keeps w (snd (fail_session env ck f (s', w')))"
    if "on_packets env ck ns dr ks (s'', w) = (r, s', w')" for ks s'' r s' w' f
    using keeps_trans [OF _ keeps_fail_session] keeps_on_packets [of w ck ns dr ks s''] that
    by simp
  moreover have "keeps w w'"
    if "on_packets env ck ns dr ks (s'', w) = (r, s', w')" for ks s'' r s' w'
    using keeps_on_packets [of w ck ns dr ks s''] that by simp
  ultimately show ?thesis
    by (auto simp: on_chunk_def keeps_disconnect keeps_fail_session split: sum.split prod.split)
qed

text \<open>Calls and timers.\<close>

lemma keeps_start_call_snd: "keeps w (snd (start_call env ck i org w))"
proof (cases "begin_call (conf env) (sha256 env) (ck 0) i (store w)")
  case (Pair r db)
  then have db: "law (store w, requests w) (db, requests w)" by (rule law_begin_call) (rule law_refl)
  show ?thesis
  proof (cases r)
    case (Inl e)
    with Pair db show ?thesis by (simp add: start_call_def)
  next
    case (Inr nr)
    obtain n inc where nr: "nr = (n, inc)" by (cases nr)
    note b = Pair [unfolded Inr nr]
    have "law (store w, requests w) (db', requests w)"
      if "finish_mock s t1 t2 n db = (r', db')" for s t1 t2 r' db'
      using law_finish_mock [OF that db] .
    moreover have "law (core w) (db, requests w @ [provider_request (conf env) inc])"
      using law_send [OF b] by (simp add: core_def)
    ultimately show ?thesis
      using b by (auto simp: start_call_def Let_def keeps_def core_def split: if_split sum.split prod.split)
  qed
qed

lemmas keeps_start_call = keeps_by_snd [OF keeps_start_call_snd]

lemma keeps_end_call_snd: "keeps w (snd (end_call env ck n rep w))"
  by (auto simp: end_call_def split: prod.split intro: law_rules)

lemmas keeps_end_call = keeps_by_snd [OF keeps_end_call_snd]

lemma keeps_timer_call: "keeps w (timer_call env ck i w)"
  by (auto simp: timer_call_def split: sum.split prod.split started.split dest: keeps_start_call)

text \<open>A response and the event that follows it.\<close>

lemma law_response_event:
  assumes "respectful i rs db" and "update_incident_response t1 t2 i rs occ hz db = (r1, db1)"
  shows "law (db, qs) (db1, qs)"
    and "add_event t3 j ty src pl ns oc db1 = (r2, db2) \<Longrightarrow> law (db, qs) (db2, qs)"
  using law_respond [OF assms(1), of qs t1 t2 occ hz] law_methods(1) assms(2) by simp_all

lemma keeps_on_timeout: "keeps w (on_timeout env ck i w)"
proof -
  have call: "keeps w (timer_call env ck' i (broadcast m (broadcast m' (w\<lparr>store := db\<rparr>))))"
    if "law (store w, requests w) (db, requests w)" for ck' m m' db
    using keeps_trans [OF _ keeps_timer_call] that by simp
  have "respectful i ESCALATING (store w)" if "get_incident i (store w) = Some r" "due r" for r
    using that by (simp add: respectful_def due_def)
  from law_response_event [OF this] show ?thesis
    by (auto simp: on_timeout_def split: sum.split prod.split option.split intro: call)
qed

lemma keeps_on_timer_reply: "keeps w (on_timer_reply env ck n i rep w)"
  by (auto simp: on_timer_reply_def split: sum.split prod.split dest: keeps_end_call)

text \<open>The HTTP side.\<close>

lemma keeps_limited:
  assumes "\<And>w. keeps w (snd (h w))"
  shows "keeps w (snd (limited a t h w))"
proof -
  have "keeps w (snd (h (w\<lparr>action_limiter := l\<rparr>)))" for l
    using assms [of "w\<lparr>action_limiter := l\<rparr>"] by simp
  then show ?thesis by (auto simp: limited_def require_rate_limit_def split: sum.split prod.split)
qed

lemma core_announce_action: "core (snd (announce_action env c inc ev ty pl w)) = core w"
  by (auto simp: announce_action_def split: sum.split prod.split)

lemma keeps_act:
  assumes "respectful i rs (store w)"
  shows "keeps w (snd (act env c i rs occ hz ty src pl pty ppl w))"
proof -
  have "keeps w w'" if "announce_action env c inc ev pty ppl (w\<lparr>store := db\<rparr>) = (r, w')"
    "law (store w, requests w) (db, requests w)" for inc ev db r w'
    using core_announce_action [of c inc ev pty ppl "w\<lparr>store := db\<rparr>"] that
    by (simp add: keeps_def) (simp add: core_def)
  from this law_response_event [OF assms] show ?thesis
    by (auto simp: act_def split: sum.split prod.split)
qed

lemma keeps_act_cancelling:
  "respectful i rs (store w) \<Longrightarrow> keeps w (snd (act env c i rs occ hz ty src pl pty ppl (cancel_timer i w)))"
  using keeps_act [of i rs "cancel_timer i w"] by simp

lemma keeps_actions:
  "keeps w (snd (confirm env c i src note w))"
  "keeps w (snd (cancel env c i src reason note w))"
  "keeps w (snd (reset env c i src note w))"
  unfolding confirm_def cancel_def reset_def
  by (auto intro!: keeps_limited keeps_act_cancelling keeps_act simp: respectful_def split: option.split)

lemma keeps_call_accepted_snd: "keeps w (snd (call_accepted t i res w))"
  by (auto simp: call_accepted_def split: sum.split prod.split intro: law_rules)

lemmas keeps_call_accepted = keeps_by_snd [OF keeps_call_accepted_snd]

lemma keeps_call_demo_dispatch: "keeps w (snd (call_demo_dispatch env c i w))"
  unfolding call_demo_dispatch_def
  by (rule keeps_limited)
     (auto split: sum.split prod.split started.split
       intro: keeps_trans [OF keeps_start_call keeps_call_accepted] dest: keeps_start_call)

lemma keeps_on_reply: "keeps w (on_reply env ck n rep w)"
  by (auto simp: on_reply_def on_action_reply_def keeps_on_timer_reply split: option.split origin.split
      sum.split prod.split intro: keeps_trans [OF keeps_end_call keeps_call_accepted_snd]
      dest: keeps_end_call)

lemma keeps_put_arming: "keeps w (snd (put_arming c body w))"
  unfolding put_arming_def by (rule keeps_limited) (simp add: Let_def)

lemma core_send_configuration: "core (snd (send_configuration env c pl devs w)) = core w"
proof (induction devs arbitrary: w)
  case (Cons dev devs)
  have "core (snd (send_configuration env c pl devs (w\<lparr>reg := rg\<rparr>))) = core w" for rg
    using Cons [of "w\<lparr>reg := rg\<rparr>"] by simp
  then show ?case by (simp split: sum.split prod.split) (metis snd_conv)
qed simp

lemma keeps_put_zones: "keeps w (snd (put_zones env c v x w))"
proof -
  have "keeps w w'" if "send_configuration env c pl devs (w\<lparr>store := db\<rparr>) = (r, w')"
    "law (store w, requests w) (db, requests w)" for w pl devs db r w'
    using core_send_configuration [of c pl devs "w\<lparr>store := db\<rparr>"] that
    by (simp add: keeps_def) (simp add: core_def)
  note send = this
  show ?thesis
    unfolding put_zones_def
    by (intro keeps_limited)
       (auto split: sum.split prod.split intro: law_rules elim!: send intro!: law_methods(4) [OF _ law_refl])
qed

lemma keeps_provider_call_status:
  "keeps w (snd (provider_call_status env ck sec i st conv sid err w))"
  by (auto simp: provider_call_status_def split: option.split bool.split sum.split prod.split
      intro: law_rules)

end

section \<open>Writes only, and guarded requests\<close>

definition written :: "database \<Rightarrow> database \<Rightarrow> bool" where
  "written db db' \<longleftrightarrow> (\<exists>ws. db' = writes ws db)"

lemma written_refl [simp, intro]: "written db db"
  by (auto simp: written_def writes_def intro: exI [of _ "[]"])

lemma written_trans: "written a b \<Longrightarrow> written b c \<Longrightarrow> written a c"
  unfolding written_def writes_def by (metis comp_apply fold_append)

lemma written_exec: "written db (exec w db)"
  by (auto simp: written_def writes_def intro: exI [of _ "[w]"])

lemma written_ok: "written db db' \<Longrightarrow> db_ok db \<Longrightarrow> db_ok db'"
  by (auto simp: written_def writes_def intro: database_machine.run_inv)

lemma written_preserves: "written db db' \<Longrightarrow> preserves i db db'"
  by (auto simp: written_def preserves_writes)

definition guarded_request :: "env \<Rightarrow> provider_request \<Rightarrow> bool" where
  "guarded_request env q \<longleftrightarrow> demo_calls_enabled (conf env)
     \<and> to_number q = demo_dispatch_number (conf env) \<and> is_e164 (to_number q)
     \<and> last3 (to_number q) \<notin> set emergency_numbers \<and> to_number q \<in> set (demo_allowed_numbers (conf env))"

text \<open>
  A call the guards admit on a state \<open>db\<close>, at time \<open>t\<close> for the incident \<open>i\<close> stored as \<open>r\<close>: written
  out, without the functions of the code.
\<close>

definition call_admitted :: "env \<Rightarrow> database \<Rightarrow> time \<Rightarrow> string \<Rightarrow> incident \<Rightarrow> bool" where
  "call_admitted env db t i r \<longleftrightarrow> demo_calls_enabled (conf env)
     \<and> get_incident i db = Some r \<and> confirmed_at r \<noteq> None \<and> response_state r \<noteq> CANCELLED
     \<and> active_count i db < max_calls_per_incident (conf env)
     \<and> (\<forall>a \<in> set (attempts db). active (status a) \<longrightarrow>
          requested_at a + global_call_cooldown_seconds (conf env) * 1000000 \<le> t)
     \<and> (call_provider (conf env) = ''elevenlabs'' \<longrightarrow> elevenlabs_api_key (conf env) \<noteq> []
          \<and> dispatch_agent_id (conf env) \<noteq> [] \<and> phone_number_id (conf env) \<noteq> [])"

text \<open>
  What stands behind a request between two states of the database: a state in between on which the
  call was admitted, of whose incident the request tells, and under whose next number an attempt
  is stored since, for that incident and at that time.
\<close>

definition backed :: "env \<Rightarrow> database \<Rightarrow> database \<Rightarrow> provider_request \<Rightarrow> int \<Rightarrow> bool" where
  "backed env db db' q n \<longleftrightarrow> (\<exists>d t i r. written db d \<and> written d db' \<and> call_admitted env d t i r
     \<and> q = provider_request (conf env) r \<and> n = attempt_seq d + 1
     \<and> (\<exists>a \<in> set (attempts db'). attempt_id a = n \<and> attempt_incident a = i \<and> requested_at a = t))"

definition sound_law :: "env \<Rightarrow> core \<Rightarrow> core \<Rightarrow> bool" where
  "sound_law env c c' \<longleftrightarrow> written (fst c) (fst c')
     \<and> (\<exists>qs ns. snd c' = snd c @ qs \<and> list_all (guarded_request env) qs
          \<and> list_all2 (backed env (fst c) (fst c')) qs ns \<and> sorted_wrt (<) ns
          \<and> (\<forall>n \<in> set ns. attempt_seq (fst c) < n \<and> n \<le> attempt_seq (fst c')))"

lemma written_seq: "written db db' \<Longrightarrow> attempt_seq db \<le> attempt_seq db'"
  by (auto simp: written_def seq_writes)

lemma written_key:
  assumes "written db db'" and "a \<in> set (attempts db)"
  shows "\<exists>a' \<in> set (attempts db'). attempt_id a' = attempt_id a
    \<and> attempt_incident a' = attempt_incident a \<and> requested_at a' = requested_at a"
proof -
  from assms(1) obtain ws where ws: "db' = writes ws db" by (auto simp: written_def)
  from keys_writes [of db ws] assms(2) have "attempt_key a \<in> attempt_key ` set (attempts db')"
    by (auto simp: ws)
  then show ?thesis by (auto simp: attempt_key_def)
qed

lemma backed_mono:
  assumes "backed env b c q n" and "written a b" and "written c d"
  shows "backed env a d q n"
proof -
  from assms(1) obtain e t i r where e: "written b e" "written e c" "call_admitted env e t i r"
    "q = provider_request (conf env) r" "n = attempt_seq e + 1"
    "\<exists>x \<in> set (attempts c). attempt_id x = n \<and> attempt_incident x = i \<and> requested_at x = t"
    unfolding backed_def by blast
  from e(6) written_key [OF assms(3)]
  have "\<exists>x \<in> set (attempts d). attempt_id x = n \<and> attempt_incident x = i \<and> requested_at x = t"
    by metis
  moreover have "written a e" "written e d"
    using written_trans e(1,2) assms(2,3) by blast+
  ultimately show ?thesis using e(3-5) unfolding backed_def by blast
qed

lemma sound_law_written: "written db db' \<Longrightarrow> sound_law env (db, qs) (db', qs)"
  by (simp add: sound_law_def)

lemma sound_law_trans:
  assumes "sound_law env a b" and "sound_law env b c"
  shows "sound_law env a c"
proof -
  from assms(1) obtain qs ns where w: "written (fst a) (fst b)" and q: "snd b = snd a @ qs"
    "list_all (guarded_request env) qs" "list_all2 (backed env (fst a) (fst b)) qs ns" "sorted_wrt (<) ns"
    "\<forall>n \<in> set ns. attempt_seq (fst a) < n \<and> n \<le> attempt_seq (fst b)"
    unfolding sound_law_def by blast
  from assms(2) obtain qs' ns' where w': "written (fst b) (fst c)" and q': "snd c = snd b @ qs'"
    "list_all (guarded_request env) qs'" "list_all2 (backed env (fst b) (fst c)) qs' ns'" "sorted_wrt (<) ns'"
    "\<forall>n \<in> set ns'. attempt_seq (fst b) < n \<and> n \<le> attempt_seq (fst c)"
    unfolding sound_law_def by blast
  have "list_all2 (backed env (fst a) (fst c)) qs ns"
    using q(3) by (rule list.rel_mono_strong) (rule backed_mono [OF _ written_refl w'])
  moreover have "list_all2 (backed env (fst a) (fst c)) qs' ns'"
    using q'(3) by (rule list.rel_mono_strong) (rule backed_mono [OF _ w written_refl])
  ultimately have "list_all2 (backed env (fst a) (fst c)) (qs @ qs') (ns @ ns')"
    by (rule list_all2_appendI)
  moreover have "sorted_wrt (<) (ns @ ns')" using q(4,5) q'(4,5) by (fastforce simp: sorted_wrt_append)
  moreover have "\<forall>n \<in> set (ns @ ns'). attempt_seq (fst a) < n \<and> n \<le> attempt_seq (fst c)"
    using q(5) q'(5) written_seq [OF w] written_seq [OF w'] by fastforce
  ultimately show ?thesis
    using written_trans [OF w w'] q(1,2) q'(1,2) unfolding sound_law_def
    by (intro conjI exI [of _ "qs @ qs'"] exI [of _ "ns @ ns'"]) simp_all
qed

text \<open>What the law says of the attempts: as many new ones as requests, under numbers of their own.\<close>

lemma backed_numbers: "list_all2 (backed env db db') qs ns \<Longrightarrow> set ns \<subseteq> attempt_id ` set (attempts db')"
proof (induction qs ns rule: list_all2_induct)
  case (Cons q qs n ns)
  from Cons.hyps(1) obtain a where "a \<in> set (attempts db')" "attempt_id a = n" unfolding backed_def by blast
  then have "n \<in> attempt_id ` set (attempts db')" by auto
  with Cons.IH show ?case by simp
qed simp

lemma sound_law_attempts:
  assumes "sound_law env (db, qs) (db', qs @ ps)" and "db_ok db"
  shows "length (attempts db) + length ps \<le> length (attempts db')"
proof -
  from assms(1) obtain ns where w: "written db db'" and ns: "list_all2 (backed env db db') ps ns"
    "sorted_wrt (<) ns" "\<forall>n \<in> set ns. attempt_seq db < n"
    unfolding sound_law_def by auto
  let ?ids = "\<lambda>d. attempt_id ` set (attempts d)"
  have num: "distinct (map attempt_id (attempts d))" if "db_ok d" for d
    using that by (auto simp: db_ok_def dest: numbered_distinct)
  have "set (map attempt_id (attempts db)) \<inter> set ns = {}"
    using ns(3) assms(2) by (fastforce simp: db_ok_def numbered_def)
  moreover have "distinct ns" using ns(2) by (simp add: strict_sorted_iff)
  ultimately have "distinct (map attempt_id (attempts db) @ ns)" using num [OF assms(2)] by auto
  moreover have "set (map attempt_id (attempts db) @ ns) \<subseteq> set (map attempt_id (attempts db'))"
  proof -
    have "attempt_id a \<in> attempt_id ` set (attempts db')" if "a \<in> set (attempts db)" for a
      using written_key [OF w that] by (metis image_eqI)
    with backed_numbers [OF ns(1)] show ?thesis by auto
  qed
  ultimately have "length (map attempt_id (attempts db) @ ns) \<le> length (map attempt_id (attempts db'))"
    by (metis card_length card_mono distinct_card finite_set le_trans)
  with list_all2_lengthD [OF ns(1)] show ?thesis by simp
qed

lemma guarded_provider_request:
  assumes "begin_call (conf env) sha t i db = (Inr (n, r), db')"
  shows "guarded_request env (provider_request (conf env) r)"
proof -
  note g = begin_call_Ok [OF assms]
  from g(2) have "is_e164 (demo_dispatch_number (conf env))"
    "last3 (tl (demo_dispatch_number (conf env))) \<notin> set emergency_numbers"
    "demo_dispatch_number (conf env) \<in> set (demo_allowed_numbers (conf env))"
    by (simp_all add: validate_destination_Ok)
  moreover from this(1) have "4 \<le> length (demo_dispatch_number (conf env))" by (auto dest: e164_length)
  ultimately show ?thesis
    using g(1) by (simp add: guarded_request_def provider_request_def last3_tl)
qed

lemma begin_call_exec:
  assumes "begin_call s sha t i db = (Inr (n, r), db')"
  shows "db' = exec (ReserveCall t i (sha (demo_dispatch_number s)) (global_call_cooldown_seconds s)
           (max_calls_per_incident s)) db"
  using begin_call_Ok(4,6) [OF assms] by (simp add: exec_def reserve_granted)

lemma backed_provider_request:
  assumes "begin_call (conf env) sha t i db = (Inr (n, r), db')"
  shows "backed env db db' (provider_request (conf env) r) n"
proof -
  note b = begin_call_Ok [OF assms]
  have "call_admitted env db t i r"
    using b(1,3,4,7) may_reserve_incident [OF b(4,3)] by (auto simp: call_admitted_def may_reserve_def list_all_iff)
  moreover have "written db db'" using begin_call_exec [OF assms] written_exec by metis
  ultimately show ?thesis using b(5,6) unfolding backed_def
    by (intro exI [of _ db] exI [of _ t] exI [of _ i] exI [of _ r]) (simp add: new_attempt_def)
qed

interpretation sound: backend_law env "sound_law env" for env
proof unfold_locales
  fix c show "sound_law env c c" using sound_law_written [of "fst c" "fst c" env "snd c"] by simp
next
  fix i rs db qs t1 t2 occ hz
  have "written db (snd (update_incident_response t1 t2 i rs occ hz db))"
    using written_exec [of db "UpdateResponse t1 t2 i rs occ hz"] by (simp add: exec_def)
  then show "sound_law env (db, qs) (snd (update_incident_response t1 t2 i rs occ hz db), qs)"
    by (rule sound_law_written)
next
  fix t i db n r db' qs
  assume b: "begin_call (conf env) (sha256 env) t i db = (Inr (n, r), db')"
  then have "written db db'" using begin_call_exec written_exec by metis
  with guarded_provider_request [OF b] backed_provider_request [OF b] begin_call_Ok(5,6) [OF b]
  show "sound_law env (db, qs) (db', qs @ [provider_request (conf env) r])"
    unfolding sound_law_def by (intro conjI exI [of _ "[provider_request (conf env) r]"] exI [of _ "[n]"]) simp_all
qed (blast intro: sound_law_trans sound_law_written written_exec)+

section \<open>A cancellation lasts\<close>

text \<open>An incident that is cancelled and has no call attempt.\<close>

definition called_off :: "string \<Rightarrow> database \<Rightarrow> bool" where
  "called_off i db \<longleftrightarrow> db_ok db \<and> i \<notin> attempt_incident ` set (attempts db)
     \<and> (case get_incident i db of None \<Rightarrow> False | Some r \<Rightarrow> response_state r = CANCELLED)"

definition cancelled_law :: "string \<Rightarrow> core \<Rightarrow> core \<Rightarrow> bool" where
  "cancelled_law i c c' \<longleftrightarrow> (called_off i (fst c) \<longrightarrow> called_off i (fst c'))"

lemma called_offI:
  assumes "called_off i db" and "db_ok db \<Longrightarrow> db_ok db'"
    and "i \<notin> attempt_incident ` set (attempts db) \<Longrightarrow> i \<notin> attempt_incident ` set (attempts db')"
    and "\<And>r. get_incident i db = Some r \<Longrightarrow> response_state r = CANCELLED \<Longrightarrow>
      \<exists>r'. get_incident i db' = Some r' \<and> response_state r' = CANCELLED"
  shows "called_off i db'"
proof -
  from assms(1) obtain r where "get_incident i db = Some r" "response_state r = CANCELLED"
    by (auto simp: called_off_def split: option.splits)
  from assms(4) [OF this] assms(1-3) show ?thesis by (auto simp: called_off_def)
qed

lemma called_off_same:
  assumes "called_off i db" and "db_ok db \<Longrightarrow> db_ok db'" and "incidents db' = incidents db"
    and "attempts db' = attempts db"
  shows "called_off i db'"
  using assms by (simp add: called_off_def get_incident_def)

lemma called_off_reserve:
  assumes "called_off i db"
  shows "called_off i (exec (ReserveCall t j dest cd mx) db)"
proof (cases "may_reserve t j cd mx db")
  case True
  with assms have "j \<noteq> i" by (auto simp: called_off_def may_reserve_def split: option.splits)
  moreover have "get_incident i (reserved t j dest db) = get_incident i db" if "j \<noteq> i"
    using that by (simp add: reserved_def get_incident_set) (simp add: get_incident_def)
  ultimately show ?thesis
    using True db_ok_exec [of db "ReserveCall t j dest cd mx"]
    by (intro called_offI [OF assms]) (auto simp: exec_def reserve_granted new_attempt_def)
next
  case False
  from reserve_refused [OF this, of dest] assms show ?thesis by (auto simp: exec_def)
qed

lemma called_off_update_call:
  assumes "called_off i db"
  shows "called_off i (exec (UpdateCall t1 t2 n c) db)"
proof (cases "get_attempt n db")
  case None
  with assms show ?thesis by (simp add: exec_def update_call_attempt_eq)
next
  case (Some a)
  then have "a \<in> set (attempts db)" by (auto simp: get_attempt_def dest: find_row_Some)
  with assms have j: "attempt_incident a \<noteq> i" by (auto simp: called_off_def)
  show ?thesis
  proof (rule called_offI [OF assms])
    show "db_ok db \<Longrightarrow> db_ok (exec (UpdateCall t1 t2 n c) db)" by (rule db_ok_exec)
  next
    assume "i \<notin> attempt_incident ` set (attempts db)"
    with Some show "i \<notin> attempt_incident ` set (attempts (exec (UpdateCall t1 t2 n c) db))"
      by (auto simp: exec_def update_call_attempt_eq Let_def attempts_write set_update_where
          split: option.splits if_splits)
  next
    fix r assume "get_incident i db = Some r" "response_state r = CANCELLED"
    moreover have "get_incident i (exec (UpdateCall t1 t2 n c) db) = get_incident i db"
      using j Some by (auto simp: exec_def update_call_attempt_eq Let_def get_incident_set
          get_incident_frame [of "write_attempt t1 n c db" db] split: option.splits)
    ultimately show "\<exists>r'. get_incident i (exec (UpdateCall t1 t2 n c) db) = Some r' \<and> response_state r' = CANCELLED"
      by simp
  qed
qed

lemma called_off_exec: "ordinary x \<Longrightarrow> called_off i db \<Longrightarrow> called_off i (exec x db)"
proof (cases x)
  case (UpsertIncident t u d b)
  assume off: "called_off i db"
  show ?thesis
    unfolding UpsertIncident
  proof (rule called_offI [OF off])
    fix r assume r: "get_incident i db = Some r" "response_state r = CANCELLED"
    then have "response_guarded (response_state r)" by (simp add: response_guarded_def)
    with r merge_guarded [of r] show "\<exists>r'. get_incident i (exec (UpsertIncident t u d b) db) = Some r'
        \<and> response_state r' = CANCELLED"
      by (auto simp: exec_def upsert_incident_def tx_def get_incident_upsert)
  qed (simp_all add: db_ok_exec, simp add: exec_def upsert_incident_def tx_def)
next
  case (AddEvent t j ty src pl ns oc)
  assume "called_off i db"
  then show ?thesis unfolding AddEvent by (rule called_off_same) (simp_all add: db_ok_exec, simp_all add: exec_def)
next
  case (PutConfiguration t k v y)
  assume "called_off i db"
  then show ?thesis unfolding PutConfiguration
    by (rule called_off_same) (simp_all add: db_ok_exec, auto simp: exec_def put_configuration_def tx_def
        split: option.splits if_splits)
next
  case (UpsertDevice t h c)
  assume "called_off i db"
  then show ?thesis unfolding UpsertDevice by (rule called_off_same) (simp_all add: db_ok_exec, simp_all add: exec_def)
next
  case (MarkDisconnected t d b)
  assume "called_off i db"
  then show ?thesis unfolding MarkDisconnected by (rule called_off_same) (simp_all add: db_ok_exec, simp_all add: exec_def)
next
  case (UpdateHealth t d h)
  assume "called_off i db"
  then show ?thesis unfolding UpdateHealth by (rule called_off_same) (simp_all add: db_ok_exec, simp_all add: exec_def)
qed (simp_all add: called_off_reserve called_off_update_call ordinary_def)

lemma called_off_respond:
  assumes "called_off i db" and "respectful j rs db"
  shows "called_off i (snd (update_incident_response t1 t2 j rs occ hz db))"
proof (rule called_offI [OF assms(1)])
  fix r assume "get_incident i db = Some r" "response_state r = CANCELLED"
  with assms(2) show "\<exists>r'. get_incident i (snd (update_incident_response t1 t2 j rs occ hz db)) = Some r'
      \<and> response_state r' = CANCELLED"
    by (cases hz; cases "hz = Some RESOLVED")
       (auto simp: update_incident_response_Ok Let_def get_incident_set respectful_def split: option.split)
qed (simp add: db_ok_update_response, auto simp: update_incident_response_Ok Let_def split: option.splits)

interpretation cancelled: backend_law env "cancelled_law i" for env i
proof unfold_locales
  fix t j db n r db' qs
  assume b: "begin_call (conf env) (sha256 env) t j db = (Inr (n, r), db')"
  have "ordinary (ReserveCall t j dest cd mx)" for dest cd mx by (simp add: ordinary_def)
  from called_off_exec [OF this] show "cancelled_law i (db, qs) (db', qs @ [provider_request (conf env) r])"
    unfolding cancelled_law_def begin_call_exec [OF b] by simp
qed (auto simp: cancelled_law_def called_off_exec called_off_respond)

end
