(* ===== verification/System.thy ===== *)
theory System
  imports Steps
begin

text \<open>
  The whole backend as a state machine: its world and its device connections, driven by bytes
  from devices, timers that fire, replies of the provider, and HTTP requests, in any order. It
  starts as \<^verbatim>\<open>lifespan\<close> does, from whatever database an earlier run has left. The theorems are
  about every such sequence of inputs; the findings are concrete ones.
\<close>

section \<open>Inputs\<close>

record system =
  world_of :: world
  sessions :: "(nat \<times> session) list"

datatype input =
  OpenConnection nat
| DeviceBytes nat clock int bool bytes
| TimerFires clock string
| ProviderReplies clock int reply
| Confirm context_of_step string string string
| Cancel context_of_step string string string string
| Reset context_of_step string string string
| CallDispatch context_of_step string
| PutArming context_of_step dict
| PutZones context_of_step int json
| CallStatus clock "string option" string provider_status "string option" "string option" "string option"

text \<open>\<open>zones\<close> and \<open>thresholds\<close> are the example files of the repository, with their versions.\<close>

definition start_system ::
  "env \<Rightarrow> clock \<Rightarrow> int \<times> json \<Rightarrow> int \<times> json \<Rightarrow> database \<Rightarrow> system" where
  "start_system env ck zones thresholds db =
     \<lparr>world_of = ensure_configuration (ck 1) ''thresholds'' (fst thresholds) (snd thresholds)
        (ensure_configuration (ck 0) ''zones'' (fst zones) (snd zones)
          ((new_world env)\<lparr>store := db\<rparr>)),
      sessions = []\<rparr>"

definition on_bytes :: "env \<Rightarrow> nat \<Rightarrow> clock \<Rightarrow> int \<Rightarrow> bool \<Rightarrow> bytes \<Rightarrow> system \<Rightarrow> system" where
  "on_bytes env n ck ns dr bs sys = (case map_of (sessions sys) n of
     None \<Rightarrow> sys
   | Some s \<Rightarrow> (case on_chunk env ck ns dr bs (s, world_of sys) of
       (s, w) \<Rightarrow> \<lparr>world_of = w, sessions = AList.update n s (sessions sys)\<rparr>))"

text \<open>The inputs other than a device's.\<close>

fun world_step :: "env \<Rightarrow> input \<Rightarrow> world \<Rightarrow> world" where
  "world_step env (TimerFires ck i) w = on_timeout env ck i w"
| "world_step env (ProviderReplies ck n rep) w = on_reply env ck n rep w"
| "world_step env (Confirm c i src note) w = snd (confirm env c i src note w)"
| "world_step env (Cancel c i src reason note) w = snd (cancel env c i src reason note w)"
| "world_step env (Reset c i src note) w = snd (reset env c i src note w)"
| "world_step env (CallDispatch c i) w = snd (call_demo_dispatch env c i w)"
| "world_step env (PutArming c body) w = snd (put_arming c body w)"
| "world_step env (PutZones c v x) w = snd (put_zones env c v x w)"
| "world_step env (CallStatus ck sec i st conv sid err) w =
     snd (provider_call_status env ck sec i st conv sid err w)"
| "world_step env _ w = w"

text \<open>A connection's number is that of its writer.\<close>

fun sys_step :: "env \<Rightarrow> input \<Rightarrow> system \<Rightarrow> system" where
  "sys_step env (OpenConnection n) sys =
     (if map_of (sessions sys) n = None
      then sys\<lparr>sessions := AList.update n (new_session env n) (sessions sys)\<rparr> else sys)"
| "sys_step env (DeviceBytes n ck ns dr bs) sys = on_bytes env n ck ns dr bs sys"
| "sys_step env inp sys = sys\<lparr>world_of := world_step env inp (world_of sys)\<rparr>"

definition sys_run :: "env \<Rightarrow> input list \<Rightarrow> system \<Rightarrow> system" where
  "sys_run env inps sys = fold (sys_step env) inps sys"

definition data_of :: "system \<Rightarrow> database" where
  "data_of sys = store (world_of sys)"

definition sent_by :: "system \<Rightarrow> provider_request list" where
  "sent_by sys = requests (world_of sys)"

section \<open>The law over runs\<close>

context backend_law begin

lemma keeps_world_step: "keeps w (world_step env inp w)"
  by (cases inp)
     (simp_all add: keeps_on_timeout keeps_on_reply keeps_actions keeps_call_demo_dispatch keeps_put_arming
       keeps_put_zones keeps_provider_call_status)

lemma keeps_on_bytes: "keeps (world_of sys) (world_of (on_bytes env n ck ns dr bs sys))"
  using keeps_by_snd [OF keeps_on_chunk]
  by (auto simp: on_bytes_def split: option.split prod.split)

lemma keeps_sys_step: "keeps (world_of sys) (world_of (sys_step env inp sys))"
  by (cases inp) (simp_all add: keeps_on_bytes keeps_world_step del: world_step.simps)

lemma keeps_sys_run: "keeps (world_of sys) (world_of (sys_run env inps sys))"
  unfolding sys_run_def
  by (induction inps arbitrary: sys) (auto intro: keeps_trans keeps_sys_step)

lemma law_sys_run: "law (data_of sys, sent_by sys) (data_of (sys_run env inps sys), sent_by (sys_run env inps sys))"
  using keeps_sys_run [of sys inps] by (simp add: keeps_def core_def data_of_def sent_by_def)

end

section \<open>Unarmed\<close>

text \<open>No timer, no call in flight, nothing sent, not armed.\<close>

definition quiet :: "world \<Rightarrow> bool" where
  "quiet w \<longleftrightarrow> \<not> armed w \<and> tasks w = [] \<and> pending w = [] \<and> requests w = []"

lemma quiet_frames [simp]:
  "quiet (broadcast m w) = quiet w" "quiet (w\<lparr>reg := rg\<rparr>) = quiet w" "quiet (w\<lparr>store := db\<rparr>) = quiet w"
  "quiet (w\<lparr>action_limiter := l\<rparr>) = quiet w" "quiet (w\<lparr>store := db, reg := rg\<rparr>) = quiet w"
  by (simp_all add: quiet_def broadcast_def)

lemma quiet_cancel_timer: "quiet w \<Longrightarrow> cancel_timer i w = w"
  by (simp add: quiet_def cancel_timer_def)

lemma quiet_announce_action: "quiet w \<Longrightarrow> announce_action env c inc ev ty pl w = (r, w') \<Longrightarrow> quiet w'"
  by (auto simp: announce_action_def split: sum.splits prod.splits)

lemma quiet_act: "quiet w \<Longrightarrow> quiet (snd (act env c i rs occ hz ty src pl pty ppl w))"
  by (auto simp: act_def split: sum.split prod.split dest: quiet_announce_action [rotated])

lemma quiet_limited: "(\<And>w. quiet w \<Longrightarrow> quiet (snd (h w))) \<Longrightarrow> quiet w \<Longrightarrow> quiet (snd (limited a t h w))"
  by (auto simp: limited_def require_rate_limit_def split: sum.split prod.split)

lemma quiet_send_configuration:
  "quiet w \<Longrightarrow> send_configuration env c pl devs w = (r, w') \<Longrightarrow> quiet w'"
  by (induction devs arbitrary: w r w') (auto split: sum.splits prod.splits, (metis quiet_frames(2))+)

lemma quiet_on_chunk: "quiet w \<Longrightarrow> on_chunk env ck ns dr bs (s, w) = (s', w') \<Longrightarrow> quiet w'"
  using step_on_chunk [of w env ck ns dr bs s] by (simp add: quiet_def device_step_def)

fun arms :: "input \<Rightarrow> bool" where
  "arms (PutArming c body) = truthy (get_default body ''armed'' JNull)"
| "arms _ = False"

lemma quiet_world_step: "quiet w \<Longrightarrow> \<not> arms inp \<Longrightarrow> quiet (world_step env inp w)"
proof (cases inp)
  case (TimerFires ck i)
  assume "quiet w"
  then show ?thesis unfolding TimerFires by (auto simp: quiet_def on_timeout_def)
next
  case (ProviderReplies ck n rep)
  assume "quiet w"
  then show ?thesis unfolding ProviderReplies
    by (auto simp: quiet_def on_reply_def find_call_def)
next
  case (Confirm c i src nt)
  assume "quiet w"
  then show ?thesis unfolding Confirm
    by (auto simp: confirm_def quiet_cancel_timer intro!: quiet_limited quiet_act split: option.split)
next
  case (Cancel c i src reason nt)
  assume "quiet w"
  then show ?thesis unfolding Cancel
    by (auto simp: cancel_def quiet_cancel_timer intro!: quiet_limited quiet_act split: option.split)
next
  case (Reset c i src nt)
  assume "quiet w"
  then show ?thesis unfolding Reset
    by (auto simp: reset_def intro!: quiet_limited quiet_act split: option.split)
next
  case (CallDispatch c i)
  assume "quiet w"
  then show ?thesis unfolding CallDispatch
    by (auto simp: call_demo_dispatch_def quiet_def intro!: quiet_limited [unfolded quiet_def])
next
  case (PutArming c body)
  assume "quiet w" "\<not> arms inp"
  then show ?thesis unfolding PutArming
    by (auto simp: put_arming_def quiet_def Let_def intro!: quiet_limited [unfolded quiet_def])
next
  case (PutZones c v x)
  assume "quiet w"
  then show ?thesis unfolding PutZones
    by (auto simp: put_zones_def intro!: quiet_limited split: sum.split prod.split)
       (metis quiet_send_configuration quiet_frames(3))+
next
  case (CallStatus ck sec i st conv sid err)
  assume "quiet w"
  then show ?thesis unfolding CallStatus
    by (auto simp: provider_call_status_def split: option.split bool.split sum.split prod.split)
qed simp_all

lemma quiet_sys_step: "quiet (world_of sys) \<Longrightarrow> \<not> arms inp \<Longrightarrow> quiet (world_of (sys_step env inp sys))"
  by (cases inp) (auto simp: on_bytes_def quiet_world_step split: option.split prod.split
      dest: quiet_on_chunk [rotated] simp del: world_step.simps)

section \<open>Actions and timeouts\<close>

lemma act_Ok:
  assumes "act env c i rs occ hz ty src pl pty ppl w = (Inr res, w')"
  shows "get_incident i (store w') = Some (updated_incident res)"
    and "response_state (updated_incident res) = rs"
    and "hz = None \<Longrightarrow> \<exists>r. get_incident i (store w) = Some r
      \<and> occupant_response (updated_incident res) = coalesce occ (occupant_response r)
      \<and> hazard_state (updated_incident res) = hazard_state r"
    and "tasks w' = tasks w" and "requests w' = requests w"
proof -
  have ann: "store w2 = store w1 \<and> tasks w2 = tasks w1 \<and> requests w2 = requests w1"
    if "announce_action env c inc ev pty ppl w1 = (r, w2)" for inc ev w1 r w2
    using that by (auto simp: announce_action_def split: sum.splits prod.splits)
  have frame: "get_incident i db2 = get_incident i db1"
    if "add_event t i ty src pl2 ns oc db1 = (r, db2)" for t pl2 ns oc db1 r db2
    using add_event_frame(1) [of t i ty src pl2 ns oc db1] that by (simp add: get_incident_def)
  have up: "get_incident i db1 = Some inc \<and> response_state inc = rs \<and> (hz2 = None \<longrightarrow>
      (\<exists>r. get_incident i db = Some r \<and> hazard_state inc = hazard_state r
         \<and> occupant_response inc = coalesce occ (occupant_response r)))"
    if "update_incident_response t1 t2 i rs occ hz2 db = (Inr inc, db1)" for t1 t2 hz2 db inc db1
    using that by (cases hz2; cases "hz2 = Some RESOLVED")
      (auto simp: update_incident_response_Ok Let_def get_incident_set split: option.splits)
  from assms show "get_incident i (store w') = Some (updated_incident res)"
    "response_state (updated_incident res) = rs" "tasks w' = tasks w" "requests w' = requests w"
    "hz = None \<Longrightarrow> \<exists>r. get_incident i (store w) = Some r
      \<and> occupant_response (updated_incident res) = coalesce occ (occupant_response r)
      \<and> hazard_state (updated_incident res) = hazard_state r"
    by (auto simp: act_def split: sum.splits prod.splits dest!: ann frame up)
qed

lemma begin_call_cancelled:
  assumes "get_incident i db = Some r" and "response_state r = CANCELLED"
  shows "\<exists>e. begin_call s sha t i db = (Inl e, db)"
proof (cases "begin_call s sha t i db")
  case (Pair x db')
  show ?thesis
  proof (cases x)
    case (Inl e)
    with Pair begin_call_Err show ?thesis by blast
  next
    case (Inr nr)
    with Pair obtain n r' where "begin_call s sha t i db = (Inr (n, r'), db')" by (cases nr) auto
    from may_reserve_incident [OF begin_call_Ok(4) [OF this] assms(1)] assms(2) show ?thesis by simp
  qed
qed

lemma limited_Ok:
  "limited a t h w = (Inr x, w') \<Longrightarrow> \<exists>l. h (w\<lparr>action_limiter := l\<rparr>) = (Inr x, w')"
  by (auto simp: limited_def require_rate_limit_def split: sum.splits prod.splits if_splits)

lemma get_incident_reserved:
  "get_incident i db = Some r \<Longrightarrow> get_incident i (reserved t i dest db)
   = Some (r\<lparr>response_state := CALL_REQUESTED, call_status := Some REQUESTED, updated_at := t\<rparr>)"
  by (simp add: reserved_def get_incident_set) (simp add: get_incident_def)

lemma events_reserved [simp]: "events (reserved t i dest db) = events db"
  by (simp add: reserved_def)

text \<open>What starting a call does to its incident, whatever its outcome.\<close>

definition call_advances :: "string \<Rightarrow> database \<Rightarrow> database \<Rightarrow> bool" where
  "call_advances i db db' \<longleftrightarrow> events db' = events db \<and>
     (\<forall>r. get_incident i db = Some r \<longrightarrow> (\<exists>r'. get_incident i db' = Some r'
        \<and> occupant_response r' = occupant_response r
        \<and> response_state r' \<in> {response_state r, CALL_REQUESTED, CALL_INITIATED}))"

lemma start_call_advances:
  assumes "db_ok (store w)"
  shows "call_advances i (store w) (store (snd (start_call env ck i org w)))"
proof (cases "begin_call (conf env) (sha256 env) (ck 0) i (store w)")
  case (Pair x db)
  show ?thesis
  proof (cases x)
    case (Inl e)
    with Pair begin_call_Err have "db = store w" by blast
    with Pair Inl show ?thesis by (simp add: start_call_def call_advances_def)
  next
    case (Inr nr)
    with Pair obtain n r where b: "begin_call (conf env) (sha256 env) (ck 0) i (store w) = (Inr (n, r), db)"
      by (cases nr) auto
    let ?a = "new_attempt (ck 0) i (sha256 env (demo_dispatch_number (conf env))) (store w)"
    have db: "db = reserved (ck 0) i (sha256 env (demo_dispatch_number (conf env))) (store w)"
      and n: "n = attempt_seq (store w) + 1" and r: "get_incident i (store w) = Some r"
      using begin_call_Ok(3,5,6) [OF b] by simp_all
    have a: "get_attempt n db = Some ?a" "attempt_incident ?a = i"
      unfolding db n using get_attempt_reserved [OF assms] by (simp_all add: new_attempt_def)
    note inc = get_incident_reserved [OF r, of "ck 0" "sha256 env (demo_dispatch_number (conf env))", folded db]
    have w: "get_incident i (write_attempt t n c db) = get_incident i db" for t c
      by (simp add: get_incident_def)
    have ev: "events db = events (store w)" by (simp add: db)
    show ?thesis
      using b inc ev r a
      by (auto simp: start_call_def finish_mock_def record_outcome_eq Let_def call_advances_def
          get_incident_set w incident_call_update_def)
  qed
qed

lemma timer_call_advances:
  assumes "db_ok (store w)"
  shows "call_advances i (store w) (store (timer_call env ck i w))"
proof -
  have "store (timer_call env ck i w) = store (snd (start_call env ck i FromTimer w)) \<or>
      store (timer_call env ck i w) = store w"
    by (auto simp: timer_call_def split: prod.split sum.split started.split)
  with start_call_advances [OF assms, of i env ck FromTimer] show ?thesis
    by (auto simp: call_advances_def)
qed

text \<open>What a timer writes before it calls.\<close>

definition unanswered :: "time \<Rightarrow> incident \<Rightarrow> incident" where
  "unanswered t r = r\<lparr>response_state := ESCALATING, occupant_response := Some ''no_response'', updated_at := t\<rparr>"

lemma timeout_due:
  assumes "map_of (tasks w) i = Some Sleeping" and "get_incident i (store w) = Some r" and "due r"
  shows "\<exists>db e m m'. (db_ok (store w) \<longrightarrow> db_ok db) \<and> get_incident i db = Some (unanswered (ck 1) r)
    \<and> attempts db = attempts (store w) \<and> attempt_seq db = attempt_seq (store w)
    \<and> events db = events (store w) @ [e] \<and> event_incident e = i
    \<and> event_type e = ''NO_OCCUPANT_RESPONSE'' \<and> source e = ''backend_timeout''
    \<and> on_timeout env ck i w
        = timer_call env (\<lambda>k. ck (k + 3)) i (broadcast m (broadcast m' (w\<lparr>store := db\<rparr>)))"
proof -
  obtain db1 where up: "update_incident_response (ck 0) (ck 1) i ESCALATING (Some ''no_response'') None (store w)
      = (Inr (unanswered (ck 1) r), db1)" and inc: "get_incident i db1 = Some (unanswered (ck 1) r)"
    and ev: "events db1 = events (store w)" "attempts db1 = attempts (store w)"
      "attempt_seq db1 = attempt_seq (store w)"
    using assms(2) by (auto simp: update_incident_response_Ok Let_def get_incident_set coalesce_def unanswered_def)
  obtain e db2 where add: "add_event (ck 2) i ''NO_OCCUPANT_RESPONSE'' ''backend_timeout'' (timeout_payload env)
      None JNull db1 = (Inr e, db2)" "event_incident e = i"
    "event_type e = ''NO_OCCUPANT_RESPONSE''" "source e = ''backend_timeout''"
    "events db2 = events (store w) @ [e]" "get_incident i db2 = Some (unanswered (ck 1) r)"
    "attempts db2 = attempts (store w)" "attempt_seq db2 = attempt_seq (store w)"
    using inc ev by (simp add: add_event_def tx_def Let_def) (simp add: get_incident_def)
  have "on_timeout env ck i w = timer_call env (\<lambda>k. ck (k + 3)) i
      (broadcast (IncidentMessage (Some (unanswered (ck 1) r))) (broadcast (TimelineMessage e) (w\<lparr>store := db2\<rparr>)))"
    using assms up add(1) by (simp add: on_timeout_def)
  moreover have "db_ok db2" if "db_ok (store w)"
  proof -
    from db_ok_update_response [OF that] up have "db_ok db1" by (metis snd_conv)
    with db_ok_exec [of db1 "AddEvent (ck 2) i ''NO_OCCUPANT_RESPONSE'' ''backend_timeout''
        (timeout_payload env) None JNull"] add(1) show ?thesis by (simp add: exec_def)
  qed
  ultimately show ?thesis using add(2-8) by blast
qed

lemma timeout_requests:
  assumes "map_of (tasks w) i = Some Sleeping" and "get_incident i (store w) = Some r" and "due r"
    and "demo_calls_enabled (conf env)" and "call_provider (conf env) = ''elevenlabs''"
    and "elevenlabs_api_key (conf env) \<noteq> []" "dispatch_agent_id (conf env) \<noteq> []" "phone_number_id (conf env) \<noteq> []"
    and "validate_destination (demo_dispatch_number (conf env)) (demo_allowed_numbers (conf env)) = Ok ()"
    and "may_reserve (ck 3) i (global_call_cooldown_seconds (conf env)) (max_calls_per_incident (conf env)) (store w)"
  shows "(\<exists>q. requests (on_timeout env ck i w) = requests w @ [q])
       \<and> map_of (tasks (on_timeout env ck i w)) i = Some (Calling (attempt_seq (store w) + 1))"
proof -
  from timeout_due [OF assms(1-3), where env = env and ck = ck] obtain db m m' where
    d: "get_incident i db = Some (unanswered (ck 1) r)" "attempts db = attempts (store w)"
    "attempt_seq db = attempt_seq (store w)" and
    t: "on_timeout env ck i w = timer_call env (\<lambda>k. ck (k + 3)) i (broadcast m (broadcast m' (w\<lparr>store := db\<rparr>)))"
    by metis
  have "may_reserve (ck 3) i (global_call_cooldown_seconds (conf env)) (max_calls_per_incident (conf env)) db"
    using assms(2,3,10) d by (simp add: may_reserve_def active_count_def unanswered_def due_def)
  from reserve_granted [OF this] have "\<exists>db'. begin_call (conf env) (sha256 env) (ck 3) i db
      = (Inr (attempt_seq (store w) + 1, unanswered (ck 1) r), db')"
    using assms(4-9) d may_reserve_incident [OF \<open>may_reserve _ _ _ _ db\<close> d(1)] by (simp add: begin_call_def)
  then obtain db' where b: "begin_call (conf env) (sha256 env) (ck 3) i db
      = (Inr (attempt_seq (store w) + 1, unanswered (ck 1) r), db')" by blast
  with assms(4,5) t show ?thesis by (simp add: timer_call_def start_call_def Let_def)
qed

section \<open>Properties\<close>

lemma start_written: "written db (data_of (start_system env ck z th db))"
proof -
  have "written (store w) (store (ensure_configuration t k v x w))" for t k v x w
    using written_exec [of "store w" "PutConfiguration t k v x"]
    by (simp add: ensure_configuration_def exec_def)
  from written_trans [OF this this] show ?thesis
    by (simp add: start_system_def data_of_def)
       (metis (no_types, lifting) world.select_convs(1) world.surjective world.update_convs(1))
qed

lemma start_quiet: "quiet (world_of (start_system env ck z th db))"
  by (simp add: start_system_def ensure_configuration_def quiet_def new_world_def)

lemma start_sent_nothing: "sent_by (start_system env ck z th db) = []"
  using start_quiet [of env ck z th db] by (simp add: quiet_def sent_by_def)

text \<open>A run only applies writes of the store, so the invariant of the store holds after it.\<close>

lemma run_written: "written db (data_of (sys_run env inps (start_system env ck z th db)))"
  using sound.law_sys_run [of env "start_system env ck z th db" inps] start_sent_nothing
  by (auto simp: sound_law_def intro: written_trans [OF start_written])

text \<open>
  The backend is safe over every sequence of inputs, from any well-formed database: the stored
  data stays well-formed, every request to the provider went out with calls enabled, to the
  configured and allow-listed number that is no emergency number, there are at least as many
  new call attempts stored as requests sent, and every incident stored before is still there
  and has only evolved.
\<close>

theorem system_safe:
  assumes "db_ok db" and "sys = sys_run env inps (start_system env ck zones thresholds db)"
  shows "db_ok (data_of sys)
       \<and> (\<forall>q \<in> set (sent_by sys). guarded_request env q)
       \<and> length (attempts db) + length (sent_by sys) \<le> length (attempts (data_of sys))
       \<and> (get_incident i db = Some r \<longrightarrow>
            (\<exists>r'. get_incident i (data_of sys) = Some r' \<and> evolves r r'))"
proof -
  let ?start = "start_system env ck zones thresholds db"
  have law: "sound_law env (data_of ?start, []) (data_of sys, [] @ sent_by sys)"
    using sound.law_sys_run [of env ?start inps] assms(2) by (simp add: start_sent_nothing)
  then have q: "list_all (guarded_request env) (sent_by sys)" by (auto simp: sound_law_def)
  have w: "written db (data_of ?start)" by (rule start_written)
  then have n: "length (attempts db) \<le> length (attempts (data_of ?start))"
    using sound_law_attempts [of env db "[]" "data_of ?start" "[]"] assms(1) sound_law_written by simp
  have w': "written db (data_of sys)" unfolding assms(2) by (rule run_written)
  show ?thesis
    using written_ok [OF w' assms(1)] q n sound_law_attempts [OF law written_ok [OF w assms(1)]]
      written_preserves [OF w', of i]
    by (auto simp: list_all_iff preserves_def)
qed

definition demo_step :: "time \<Rightarrow> context_of_step" where
  "demo_step t = \<lparr>clk = (\<lambda>k. t + int k), client = ''ui'', mono_now = 0, mono_ns = 0, drained = True\<rparr>"

definition demo_start :: system where
  "demo_start = start_system demo_env (\<lambda>_. 0) (1, JObj []) (1, JObj []) flame_db"

definition demo_call :: "input list" where
  "demo_call = [PutArming (demo_step 1000) [(''armed'', JBool True)], CallDispatch (demo_step 2000) ''a-1'']"

lemma demo_call_sent: "length (sent_by (sys_run demo_env demo_call demo_start)) = 1"
  by code_simp

theorem system_safe_witness:
  "\<exists>q. sent_by (sys_run demo_env demo_call demo_start) = [q] \<and> guarded_request demo_env q
     \<and> 1 \<le> length (attempts (data_of (sys_run demo_env demo_call demo_start)))"
proof -
  obtain q where q: "sent_by (sys_run demo_env demo_call demo_start) = [q]"
    using demo_call_sent by (auto simp: length_Suc_conv)
  note safe = system_safe [OF flame_db_ok refl, of demo_env demo_call "\<lambda>_. 0" "(1, JObj [])" "(1, JObj [])",
    folded demo_start_def]
  from safe have "length (attempts flame_db) + length (sent_by (sys_run demo_env demo_call demo_start))
      \<le> length (attempts (data_of (sys_run demo_env demo_call demo_start)))" by blast
  with q have "1 \<le> length (attempts (data_of (sys_run demo_env demo_call demo_start)))" by simp
  moreover from safe q have "guarded_request demo_env q" by simp
  ultimately show ?thesis using q by blast
qed

text \<open>
  C5. Nothing is dialled while the system is not armed: as long as no request arms it, whatever
  else arrives, no timer runs, no call is in flight and no request to the provider is sent.
\<close>

theorem never_armed_never_calls:
  assumes "\<forall>inp \<in> set inps. \<not> arms inp"
    and "w = world_of (sys_run env inps (start_system env ck zones thresholds db))"
  shows "requests w = [] \<and> pending w = [] \<and> tasks w = [] \<and> \<not> armed w"
proof -
  have "quiet (world_of (fold (sys_step env) inps sys))" if "quiet (world_of sys)" for sys
    using assms(1) that by (induction inps arbitrary: sys) (auto intro: quiet_sys_step)
  from this [OF start_quiet] show ?thesis by (simp add: assms(2) sys_run_def quiet_def)
qed

theorem never_armed_never_calls_witness:
  "requests (world_of (sys_run demo_env [PutArming (demo_step 1000) [], CallDispatch (demo_step 2000) ''a-1'']
     demo_start)) = []"
  using never_armed_never_calls
    [of "[PutArming (demo_step 1000) [], CallDispatch (demo_step 2000) ''a-1'']", OF _ refl,
     of demo_env "\<lambda>_. 0" "(1, JObj [])" "(1, JObj [])" flame_db]
  by (simp add: demo_start_def get_default_def)

text \<open>
  A cancellation lasts: once an incident is cancelled and no call attempt of it is stored,
  no sequence of inputs, timers and late device updates included, changes its response or
  makes a call attempt for it.
\<close>

theorem cancellation_lasts:
  assumes "db_ok (data_of sys)" and "get_incident i (data_of sys) = Some r" and "response_state r = CANCELLED"
    and "\<forall>a \<in> set (attempts (data_of sys)). attempt_incident a \<noteq> i"
    and "sys' = sys_run env inps sys"
  shows "(\<exists>r'. get_incident i (data_of sys') = Some r' \<and> response_state r' = CANCELLED)
       \<and> (\<forall>a \<in> set (attempts (data_of sys')). attempt_incident a \<noteq> i)"
proof -
  have "called_off i (data_of sys)" using assms(1-4) by (auto simp: called_off_def)
  with cancelled.law_sys_run [of i sys env inps] assms(5) have "called_off i (data_of sys')"
    by (simp add: cancelled_law_def)
  then show ?thesis by (auto simp: called_off_def split: option.splits)
qed

definition cancelled_start :: system where
  "cancelled_start = sys_run demo_env [Cancel (demo_step 1000) ''a-1'' ''manual'' ''testing'' []] demo_start"

theorem cancellation_lasts_witness:
  "\<exists>r. get_incident ''a-1'' (data_of (sys_run demo_env demo_call cancelled_start)) = Some r
     \<and> response_state r = CANCELLED"
proof -
  have ok: "db_ok (data_of cancelled_start)"
    unfolding cancelled_start_def demo_start_def by (rule written_ok [OF run_written flame_db_ok])
  have c: "map_option response_state (get_incident ''a-1'' (data_of cancelled_start)) = Some CANCELLED"
    "attempts (data_of cancelled_start) = []"
    by code_simp+
  then obtain r where "get_incident ''a-1'' (data_of cancelled_start) = Some r" "response_state r = CANCELLED"
    by auto
  from cancellation_lasts [OF ok this _ refl, of demo_env demo_call] c(2) show ?thesis by simp
qed

text \<open>
  C14. A successful cancellation takes effect at once: the incident it returns is the stored one,
  cancelled with the given reason, its timer is gone, nothing was sent, and any call started in
  this state is refused and changes nothing.
\<close>

theorem cancel_effective:
  assumes "cancel env c i src reason nt w = (Ok res, w')"
  shows "get_incident i (store w') = Some (updated_incident res)
       \<and> response_state (updated_incident res) = CANCELLED
       \<and> occupant_response (updated_incident res) = Some reason
       \<and> map_of (tasks w') i = None \<and> requests w' = requests w
       \<and> (\<forall>ck org. \<exists>e. start_call env ck i org w' = (Err e, w'))"
proof -
  obtain l where a: "act env c i CANCELLED (Some reason) None ''ESCALATION_CANCELLED'' src
      [(''reason'', JStr reason), (''note'', JStr nt)] OCCUPANT_CANCEL
      [(''incident_id'', JStr i), (''reason'', JStr reason), (''source'', JStr src)]
      (cancel_timer i (w\<lparr>action_limiter := l\<rparr>)) = (Inr res, w')"
    using limited_Ok [OF assms [unfolded cancel_def]] by (auto split: option.splits if_splits)
  have t: "map_of (tasks (cancel_timer i w)) i = None" for w
    by (auto simp: cancel_timer_def split: option.splits phase.splits)
  have "\<exists>e. start_call env ck i org w' = (Err e, w')" for ck org
    using begin_call_cancelled [OF act_Ok(1,2) [OF a], of "conf env" "sha256 env" "ck 0"]
    by (auto simp: start_call_def)
  with act_Ok [OF a] t show ?thesis by (auto simp: coalesce_def)
qed

theorem cancel_effective_witness:
  "\<exists>res w'. cancel demo_env (demo_step 1000) ''a-1'' ''manual'' ''testing'' [] (world_of demo_start) = (Ok res, w')
     \<and> response_state (updated_incident res) = CANCELLED"
proof -
  have "is_ok (fst (cancel demo_env (demo_step 1000) ''a-1'' ''manual'' ''testing'' [] (world_of demo_start)))"
    by code_simp
  then obtain res w' where r: "cancel demo_env (demo_step 1000) ''a-1'' ''manual'' ''testing'' [] (world_of demo_start)
      = (Ok res, w')"
    unfolding is_ok_iff by (metis prod.collapse)
  from cancel_effective [OF r] r show ?thesis by blast
qed

text \<open>
  C15. When the timer of an incident fires: if the incident is still confirmed and unanswered, the
  missing response is recorded, the response escalates and exactly one event, the missing
  response, is added to its timeline; otherwise the stored data is untouched, nothing is sent
  and the timer is gone.
\<close>

theorem timeout_outcome:
  assumes "db_ok (store w)" and "map_of (tasks w) i = Some Sleeping" and "get_incident i (store w) = Some r"
    and "w' = on_timeout env ck i w"
  shows "if due r then
       (\<exists>r' e. get_incident i (store w') = Some r' \<and> occupant_response r' = Some ''no_response''
          \<and> response_state r' \<in> {ESCALATING, CALL_REQUESTED, CALL_INITIATED}
          \<and> list_events i (store w') = list_events i (store w) @ [e]
          \<and> event_type e = ''NO_OCCUPANT_RESPONSE'' \<and> source e = ''backend_timeout'')
     else store w' = store w \<and> requests w' = requests w \<and> map_of (tasks w') i = None"
proof (cases "due r")
  case False
  with assms show ?thesis by (simp add: on_timeout_def)
next
  case True
  from timeout_due [OF assms(2,3) True, where env = env and ck = ck] obtain db e m m' where
    d: "db_ok (store w) \<Longrightarrow> db_ok db" "get_incident i db = Some (unanswered (ck 1) r)"
    "events db = events (store w) @ [e]" "event_incident e = i"
    "event_type e = ''NO_OCCUPANT_RESPONSE''" "source e = ''backend_timeout''" and
    w': "on_timeout env ck i w = timer_call env (\<lambda>k. ck (k + 3)) i (broadcast m (broadcast m' (w\<lparr>store := db\<rparr>)))"
    by metis
  have "db_ok (store (broadcast m (broadcast m' (w\<lparr>store := db\<rparr>))))" using d(1) assms(1) by simp
  from timer_call_advances [OF this, of i env "\<lambda>k. ck (k + 3)", folded w'] assms(4) d(2-6)
  show ?thesis using True by (auto simp: call_advances_def list_events_def unanswered_def)
qed

definition waiting_world :: world where
  "waiting_world = (new_world demo_env)\<lparr>store := flame_db, tasks := [(''a-1'', Sleeping)]\<rparr>"

lemma waiting_world:
  "store waiting_world = flame_db" "tasks waiting_world = [(''a-1'', Sleeping)]"
  "due (new_incident t (flame_update i CONFIRMED x) d b)"
  by (simp_all add: waiting_world_def due_def new_incident_def flame_update_def)

theorem timeout_outcome_witness:
  "\<exists>r'. get_incident ''a-1'' (store (on_timeout demo_env (\<lambda>_. 200) ''a-1'' waiting_world)) = Some r'
     \<and> occupant_response r' = Some ''no_response''"
  using timeout_outcome [OF _ _ _ refl, of waiting_world "''a-1''" _ demo_env "\<lambda>_. 200"]
  by (auto simp: waiting_world flame_db_ok get_flame_db)

text \<open>
  The timeout dials, armed or not: when the timer of a confirmed, unanswered incident fires and
  the policy admits a call, one request leaves for the provider and the timer waits for its
  reply. Whether the system is armed plays no part, although the same call asked for by an
  operator is refused while the system is not armed.
\<close>

theorem timeout_dials:
  assumes "map_of (tasks w) i = Some Sleeping" and "get_incident i (store w) = Some r" and "due r"
    and "demo_calls_enabled (conf env)" and "call_provider (conf env) = ''elevenlabs''"
    and "elevenlabs_api_key (conf env) \<noteq> []" "dispatch_agent_id (conf env) \<noteq> []" "phone_number_id (conf env) \<noteq> []"
    and "validate_destination (demo_dispatch_number (conf env)) (demo_allowed_numbers (conf env)) = Ok ()"
    and "may_reserve (ck 3) i (global_call_cooldown_seconds (conf env)) (max_calls_per_incident (conf env)) (store w)"
    and "w' = on_timeout env ck i w"
  shows "(\<exists>q. requests w' = requests w @ [q])
       \<and> map_of (tasks w') i = Some (Calling (attempt_seq (store w) + 1))
       \<and> (\<not> armed w \<longrightarrow> fst (call_demo_dispatch env c i w) \<in> {Err SystemUnarmed, Err RateLimitExceeded})"
  using timeout_requests [where ck = ck, OF assms(1-10)] assms(11)
  by (auto simp: call_demo_dispatch_def limited_def require_rate_limit_def split: prod.splits sum.splits)

theorem timeout_dials_witness:
  "length (requests (on_timeout demo_env (\<lambda>_. 200) ''a-1'' waiting_world)) = 1"
proof -
  have may: "may_reserve 200 ''a-1'' (global_call_cooldown_seconds (conf demo_env))
      (max_calls_per_incident (conf demo_env)) (store waiting_world)"
    and val: "validate_destination (demo_dispatch_number (conf demo_env)) (demo_allowed_numbers (conf demo_env)) = Ok ()"
    by code_simp+
  have cfg: "demo_calls_enabled (conf demo_env)" "call_provider (conf demo_env) = ''elevenlabs''"
    "elevenlabs_api_key (conf demo_env) \<noteq> []" "dispatch_agent_id (conf demo_env) \<noteq> []"
    "phone_number_id (conf demo_env) \<noteq> []"
    by (simp_all add: demo_env_def call_settings_def default_settings_def)
  have "map_of (tasks waiting_world) ''a-1'' = Some Sleeping" by (simp add: waiting_world)
  from timeout_dials [OF this _ waiting_world(3) cfg val may refl] get_flame_db
  have "\<exists>q. requests (on_timeout demo_env (\<lambda>_. 200) ''a-1'' waiting_world) = requests waiting_world @ [q]"
    by (simp add: waiting_world)
  then show ?thesis by (auto simp: waiting_world_def new_world_def)
qed

text \<open>
  A fire reported late is not dialled: when the first update of an incident the backend sees
  already says that the visual signature is lost (the device had confirmed it while it was
  offline), the incident awaits a response and its timer runs, but no confirmation time is
  stored. When the timer fires the incident is set to escalating, and the call is refused.
\<close>

theorem late_report_not_dialled:
  assumes "armed w" and "check_update env d = Some u" and "u_hazard_state u = VISUAL_SIGNATURE_LOST"
    and "u_response_state u = AWAITING_RESPONSE" and "u_incident_id u = i"
    and "get_incident i (store w) = None" and "map_of (tasks w) i = None"
    and "on_incident_update env ck hl d w = (Ok (), w1)" and "w2 = on_timeout env ck' i w1"
  shows "map_of (tasks w1) i = Some Sleeping \<and> requests w2 = requests w
       \<and> (\<exists>r. get_incident i (store w2) = Some r \<and> response_state r = ESCALATING)"
proof -
  let ?b = "field_of hl ''boot_id''" and ?dev = "expected_device_id (conf env)"
  from assms(1,2,8) obtain x db where up: "upsert_incident (ck 0) u ?dev ?b (store w) = (Inr x, db)"
    and w1: "w1 = observe i (broadcast (IncidentMessage (get_incident i db)) (w\<lparr>store := db\<rparr>))"
    by (auto simp: on_incident_update_def assms(5) split: sum.splits prod.splits)
  let ?r = "new_incident (ck 0) u ?dev ?b"
  have r: "get_incident i db = Some ?r"
    using get_incident_upsert_incident [of "ck 0" u ?dev ?b "store w" i] up assms(5,6) by simp
  have fields: "response_state ?r = AWAITING_RESPONSE" "incident.hazard_state ?r = VISUAL_SIGNATURE_LOST"
    "confirmed_at ?r = None"
    using assms(3,4) by (simp_all add: new_incident_def)
  have task: "map_of (tasks w1) i = Some Sleeping"
    using assms(7) r fields by (simp add: w1 observe_def)
  have stored: "get_incident i (store w1) = Some ?r" "requests w1 = requests w"
    using r by (simp_all add: w1)
  have "due ?r" using fields by (simp add: due_def)
  from timeout_due [OF task stored(1) this, where env = env and ck = ck'] obtain db' m m' where
    d: "get_incident i db' = Some (unanswered (ck' 1) ?r)" and
    t: "on_timeout env ck' i w1 = timer_call env (\<lambda>k. ck' (k + 3)) i (broadcast m (broadcast m' (w1\<lparr>store := db'\<rparr>)))"
    by metis
  have "\<exists>e. begin_call (conf env) (sha256 env) t i db' = (Inl e, db')" for t
    using d fields by (auto simp: begin_call_def unanswered_def split: sum.split)
  then obtain e where b: "begin_call (conf env) (sha256 env) (ck' 3) i db' = (Inl e, db')" by blast
  have "store w2 = db' \<and> requests w2 = requests w1"
    unfolding assms(9) t by (simp add: timer_call_def start_call_def b)
  with d task stored show ?thesis by (simp add: unanswered_def)
qed

definition lost_update :: "dict \<Rightarrow> incident_update option" where
  "lost_update d = Some (flame_update ''a-1'' VISUAL_SIGNATURE_LOST (8/10))"

theorem late_report_not_dialled_witness:
  "(let env = demo_env\<lparr>check_update := lost_update\<rparr>;
        w1 = snd (on_incident_update env (\<lambda>_. 100) [] [] armed_world);
        w2 = on_timeout env (\<lambda>_. 200) ''a-1'' w1
    in map_of (tasks w1) ''a-1'' = Some Sleeping \<and> requests w2 = [])"
proof -
  let ?env = "demo_env\<lparr>check_update := lost_update\<rparr>"
  let ?w1 = "snd (on_incident_update ?env (\<lambda>_. 100) [] [] armed_world)"
  have "fst (on_incident_update ?env (\<lambda>_. 100) [] [] armed_world) = Ok ()" by code_simp
  then have "on_incident_update ?env (\<lambda>_. 100) [] [] armed_world = (Ok (), ?w1)" by (metis prod.collapse)
  from late_report_not_dialled [OF _ _ _ _ _ _ _ this refl, where u = "flame_update ''a-1'' VISUAL_SIGNATURE_LOST (8/10)"
      and i = "''a-1''" and ck' = "\<lambda>_. 200"]
  have "map_of (tasks ?w1) ''a-1'' = Some Sleeping
      \<and> requests (on_timeout ?env (\<lambda>_. 200) ''a-1'' ?w1) = requests armed_world"
    by (simp add: lost_update_def flame_update_def armed_world_def new_world_def)
  then show ?thesis by (simp add: Let_def armed_world_def new_world_def)
qed

text \<open>
  A cancellation does not hold back a call in flight: the operator's call is waiting for the
  provider when the incident is cancelled; the reply then overwrites the cancellation, in a
  run from a fresh start.
\<close>

theorem cancelled_call_resumes:
  "(let run = (\<lambda>inps. sys_run demo_env inps demo_start);
        response = (\<lambda>sys. map_option response_state (get_incident ''a-1'' (data_of sys)));
        cancelling = demo_call @ [Cancel (demo_step 3000) ''a-1'' ''manual'' ''false_alarm'' []]
    in response (run cancelling) = Some CANCELLED
     \<and> response (run (cancelling @ [ProviderReplies (\<lambda>_. 4000) 1
           (Response 200 (Some [(''conversation_id'', JStr ''c'')]))])) = Some CALL_INITIATED)"
  by code_simp

text \<open>
  Confirming an incident whose call is over reopens its escalation: the response goes back from
  completed to escalating, and the incident can then no longer be reset.
\<close>

theorem confirm_reopens_completed:
  assumes "get_incident i (store w) = Some r" and "response_state r = CALL_COMPLETED"
    and "confirm env c i src nt w = (Ok res, w')"
  shows "response_state (updated_incident res) = ESCALATING
       \<and> get_incident i (store w') = Some (updated_incident res)
       \<and> fst (reset env c' i src' nt' w') \<in> {Err NotReadyForReset, Err RateLimitExceeded}"
proof -
  obtain l where "act env c i ESCALATING (Some ''confirmed'') None ''OCCUPANT_CONFIRMED'' src
      [(''note'', JStr nt)] OCCUPANT_CONFIRM [(''incident_id'', JStr i), (''source'', JStr src)]
      (cancel_timer i (w\<lparr>action_limiter := l\<rparr>)) = (Inr res, w')"
    using limited_Ok [OF assms(3) [unfolded confirm_def]] by (auto split: option.splits if_splits)
  from act_Ok(1,2) [OF this] show ?thesis
    by (auto simp: reset_def limited_def require_rate_limit_def split: prod.splits sum.splits)
qed

definition completed_world :: world where
  "completed_world = (new_world demo_env)\<lparr>store := snd (update_incident_response 0 500 ''a-1'' CALL_COMPLETED None None flame_db)\<rparr>"

theorem confirm_reopens_completed_witness:
  "\<exists>res w'. confirm demo_env (demo_step 1000) ''a-1'' ''manual'' [] completed_world = (Ok res, w')
     \<and> response_state (updated_incident res) = ESCALATING"
proof -
  have "is_ok (fst (confirm demo_env (demo_step 1000) ''a-1'' ''manual'' [] completed_world))" by code_simp
  then obtain res w' where c: "confirm demo_env (demo_step 1000) ''a-1'' ''manual'' [] completed_world = (Ok res, w')"
    unfolding is_ok_iff by (metis prod.collapse)
  have "map_option response_state (get_incident ''a-1'' (store completed_world)) = Some CALL_COMPLETED" by code_simp
  then obtain r where "get_incident ''a-1'' (store completed_world) = Some r" "response_state r = CALL_COMPLETED"
    by auto
  from confirm_reopens_completed [OF this c] c show ?thesis by blast
qed

text \<open>
  The webhook without a conversation id clears the one the attempt has, while the incident
  keeps its own: after an accepted call, a status that only says \<open>connected\<close>.
\<close>

lemma webhook_clears_conversation:
  "(let db = snd (update_call_attempt 500 501 1 \<lparr>new_status = INITIATED, new_conversation_id = Some ''c'',
          new_call_sid = None, new_error_code = None, new_error_message = None\<rparr>
          (reserved 400 ''a-1'' ''h'' flame_db));
        db' = snd (update_call_attempt 600 601 1 \<lparr>new_status = CONNECTED, new_conversation_id = None,
          new_call_sid = None, new_error_code = None, new_error_message = None\<rparr> db)
    in map_option provider_conversation_id (get_attempt 1 db) = Some (Some ''c'')
     \<and> map_option provider_conversation_id (get_attempt 1 db') = Some None
     \<and> map_option call_conversation_id (get_incident ''a-1'' db') = Some (Some ''c''))"
  by code_simp

end
