(* ===== verification/Models.thy ===== *)
theory Models
  imports Observations "HOL-Library.Monad_Syntax" "HOL-Library.Sublist"
begin

text \<open>
  The message models of \<^verbatim>\<open>src/backend/app/models.py\<close>: what the validated classes accept. Pydantic
  is not under \<^verbatim>\<open>src/\<close>; these definitions read a decoded JSON object whose fields already have
  the declared types (an integer also counts as a float, as in Pydantic's strict mode), with
  the declared bounds and the validators of the source, and return the fields or \<open>None\<close>. What
  Pydantic does with values of other types, its conversions, is left open: the law \<open>validates\<close>
  only says that the typed ones are accepted unchanged.
\<close>

section \<open>Enumerations\<close>

fun hazard_text :: "hazard_state \<Rightarrow> string" where
  "hazard_text CLEAR = ''CLEAR''"
| "hazard_text SUSPECTED = ''SUSPECTED''"
| "hazard_text VERIFYING = ''VERIFYING''"
| "hazard_text CONFIRMED = ''CONFIRMED''"
| "hazard_text VISUAL_SIGNATURE_LOST = ''VISUAL_SIGNATURE_LOST''"
| "hazard_text RESOLVED = ''RESOLVED''"
| "hazard_text DEGRADED = ''DEGRADED''"

definition hazard_states :: "hazard_state list" where
  "hazard_states = [CLEAR, SUSPECTED, VERIFYING, CONFIRMED, VISUAL_SIGNATURE_LOST, RESOLVED, DEGRADED]"

definition hazard_of :: "string \<Rightarrow> hazard_state option" where
  "hazard_of s = find (\<lambda>h. hazard_text h = s) hazard_states"

fun response_text :: "response_state \<Rightarrow> string" where
  "response_text IDLE = ''IDLE''"
| "response_text AWAITING_RESPONSE = ''AWAITING_RESPONSE''"
| "response_text CANCELLED = ''CANCELLED''"
| "response_text ESCALATING = ''ESCALATING''"
| "response_text CALL_REQUESTED = ''CALL_REQUESTED''"
| "response_text CALL_INITIATED = ''CALL_INITIATED''"
| "response_text CALL_CONNECTED = ''CALL_CONNECTED''"
| "response_text CALL_COMPLETED = ''CALL_COMPLETED''"
| "response_text CALL_FAILED = ''CALL_FAILED''"

definition response_states :: "response_state list" where
  "response_states = [IDLE, AWAITING_RESPONSE, CANCELLED, ESCALATING, CALL_REQUESTED, CALL_INITIATED,
     CALL_CONNECTED, CALL_COMPLETED, CALL_FAILED]"

definition response_state_of :: "string \<Rightarrow> response_state option" where
  "response_state_of s = find (\<lambda>h. response_text h = s) response_states"

section \<open>Fields\<close>

text \<open>A field of an object: its default when the key is missing, else what the reader makes of it.\<close>

definition field_or :: "'a option \<Rightarrow> (json \<Rightarrow> 'a option) \<Rightarrow> dict \<Rightarrow> string \<Rightarrow> 'a option" where
  "field_or dflt reader d k = (case get d k of None \<Rightarrow> dflt | Some v \<Rightarrow> reader v)"

fun text_within :: "nat \<Rightarrow> nat \<Rightarrow> json \<Rightarrow> string option" where
  "text_within lo hi (JStr s) = (if lo \<le> length s \<and> length s \<le> hi then Some s else None)"
| "text_within lo hi _ = None"

fun text_in :: "string list \<Rightarrow> json \<Rightarrow> string option" where
  "text_in xs (JStr s) = (if s \<in> set xs then Some s else None)"
| "text_in xs _ = None"

fun int_from :: "int \<Rightarrow> json \<Rightarrow> int option" where
  "int_from lo (JInt i) = (if lo \<le> i then Some i else None)"
| "int_from lo _ = None"

fun number :: "json \<Rightarrow> rat option" where
  "number (JNum x) = Some x"
| "number (JInt i) = Some (fl (of_int i))"
| "number _ = None"

definition number_where :: "(rat \<Rightarrow> bool) \<Rightarrow> json \<Rightarrow> rat option" where
  "number_where P v = (case number v of None \<Rightarrow> None | Some x \<Rightarrow> if P x then Some x else None)"

fun truth :: "json \<Rightarrow> bool option" where
  "truth (JBool b) = Some b"
| "truth _ = None"

fun all_of :: "('a \<Rightarrow> 'b option) \<Rightarrow> 'a list \<Rightarrow> 'b list option" where
  "all_of f [] = Some []"
| "all_of f (x # xs) = do { y \<leftarrow> f x; ys \<leftarrow> all_of f xs; Some (y # ys) }"

fun numbers :: "json \<Rightarrow> rat list option" where
  "numbers (JArr vs) = all_of number vs"
| "numbers _ = None"

definition optional :: "(json \<Rightarrow> 'a option) \<Rightarrow> json \<Rightarrow> 'a option option" where
  "optional reader v = (if v = JNull then Some None else map_option Some (reader v))"

section \<open>Action bodies\<close>

definition manual_confirmation :: "dict \<Rightarrow> (string \<times> string) option" where
  "manual_confirmation d = do {
     src \<leftarrow> field_or (Some ''manual'') (text_in [''manual'', ''voice_agent'']) d ''source'';
     nt \<leftarrow> field_or (Some ''Occupant confirmed visible fire'') (text_within 0 240) d ''note'';
     Some (src, nt) }"

definition cancellation :: "dict \<Rightarrow> (string \<times> string \<times> string) option" where
  "cancellation d = do {
     src \<leftarrow> field_or (Some ''manual'') (text_in [''manual'', ''voice_agent'']) d ''source'';
     reason \<leftarrow> field_or None (text_in [''controlled_flame'', ''false_alarm'', ''testing'', ''other'']) d ''reason'';
     nt \<leftarrow> field_or (Some []) (text_within 0 240) d ''note'';
     Some (src, reason, nt) }"

definition reset_request :: "dict \<Rightarrow> (string \<times> string) option" where
  "reset_request d = do {
     src \<leftarrow> field_or (Some ''manual'') (text_in [''manual'']) d ''source'';
     nt \<leftarrow> field_or (Some []) (text_within 0 240) d ''note'';
     Some (src, nt) }"

record provider_report =
  report_incident :: string
  report_status :: string
  report_conversation :: "string option"
  report_call_sid :: "string option"
  report_error :: "string option"

definition provider_report_of :: "dict \<Rightarrow> provider_report option" where
  "provider_report_of d = do {
     i \<leftarrow> field_or None (text_within 1 160) d ''incident_id'';
     st \<leftarrow> field_or None (text_in [''connected'', ''completed'', ''failed'']) d ''status'';
     conv \<leftarrow> field_or (Some None) (optional (text_within 0 160)) d ''conversation_id'';
     sid \<leftarrow> field_or (Some None) (optional (text_within 0 160)) d ''call_sid'';
     err \<leftarrow> field_or (Some None) (optional (text_within 0 80)) d ''error_code'';
     Some \<lparr>report_incident = i, report_status = st, report_conversation = conv, report_call_sid = sid,
           report_error = err\<rparr> }"

section \<open>Zones\<close>

text \<open>\<^verbatim>\<open>Point.from_pair\<close>, then the coordinates, which must lie in the unit interval.\<close>

fun point_fields :: "json \<Rightarrow> dict option" where
  "point_fields (JArr [x, y]) = Some [(''x'', x), (''y'', y)]"
| "point_fields (JObj d) = Some d"
| "point_fields _ = None"

definition point :: "json \<Rightarrow> (rat \<times> rat) option" where
  "point v = do {
     d \<leftarrow> point_fields v;
     x \<leftarrow> field_or None number d ''x'';
     y \<leftarrow> field_or None number d ''y'';
     if 0 \<le> x \<and> x \<le> 1 \<and> 0 \<le> y \<and> y \<le> 1 then Some (x, y) else None }"

text \<open>
  \<^verbatim>\<open>_polygon_area\<close>: the terms over the edges and Python's \<open>sum\<close> of floats, which since 3.12
  (the version of the backend's image) carries the error of each addition along (Neumaier's
  algorithm); it adds the first term to 0, which is exact.
\<close>

definition cross_term :: "rat \<times> rat \<Rightarrow> rat \<times> rat \<Rightarrow> rat" where
  "cross_term p q = fsub (fmul (fst p) (snd q)) (fmul (fst q) (snd p))"

definition cross_terms :: "(rat \<times> rat) list \<Rightarrow> rat list" where
  "cross_terms ps = map2 cross_term ps (rotate1 ps)"

fun sum_loop :: "rat \<Rightarrow> rat \<Rightarrow> rat list \<Rightarrow> rat" where
  "sum_loop acc c [] = (if c = 0 then acc else fadd acc c)"
| "sum_loop acc c (x # xs) =
     (let t = fadd acc x in
      sum_loop t (if \<bar>x\<bar> \<le> \<bar>acc\<bar> then fadd c (fadd (fsub acc t) x) else fadd c (fadd (fsub x t) acc)) xs)"

fun py_sum :: "rat list \<Rightarrow> rat" where
  "py_sum [] = 0"
| "py_sum (x # xs) = sum_loop x 0 xs"

definition polygon_area :: "(rat \<times> rat) list \<Rightarrow> rat" where
  "polygon_area ps = \<bar>fdiv (py_sum (cross_terms ps)) 2\<bar>"

record zone =
  zone_id :: string
  zone_name :: string
  points :: "(rat \<times> rat) list"

text \<open>The pattern \<^verbatim>\<open>[a-zA-Z0-9][a-zA-Z0-9_-]{0,63}\<close> on the whole text.\<close>

definition alnum :: "char \<Rightarrow> bool" where
  "alnum c \<longleftrightarrow> between 65 90 c \<or> between 97 122 c \<or> is_digit c"

definition zone_id_ok :: "string \<Rightarrow> bool" where
  "zone_id_ok s = (case s of [] \<Rightarrow> False
     | c # cs \<Rightarrow> alnum c \<and> length cs \<le> 63 \<and> list_all (\<lambda>c. alnum c \<or> c \<in> set ''_-'') cs)"

definition sanitize_name :: "string \<Rightarrow> string option" where
  "sanitize_name value = (let clean = strip (filter safe_char value) in if clean = [] then None else Some clean)"

fun items_within :: "nat \<Rightarrow> nat \<Rightarrow> json \<Rightarrow> json list option" where
  "items_within lo hi (JArr vs) = (if lo \<le> length vs \<and> length vs \<le> hi then Some vs else None)"
| "items_within lo hi _ = None"

fun zone_of :: "json \<Rightarrow> zone option" where
  "zone_of (JObj d) = do {
     i \<leftarrow> field_or None (text_within 0 64) d ''id'';
     nm \<leftarrow> field_or None (text_within 1 48) d ''name'';
     nm \<leftarrow> sanitize_name nm;
     vs \<leftarrow> field_or None (items_within 3 32) d ''points'';
     ps \<leftarrow> all_of point vs;
     if \<not> zone_id_ok i \<or> polygon_area ps < fl (1/10000) then None
     else Some \<lparr>zone_id = i, zone_name = nm, points = ps\<rparr> }"
| "zone_of _ = None"

record zone_configuration =
  configuration_version :: int
  frame_aspect_ratio :: rat
  zones :: "zone list"

text \<open>\<open>casefold\<close> on the sanitized names, which are ASCII, is \<open>lower\<close>.\<close>

definition zone_configuration_of :: "dict \<Rightarrow> zone_configuration option" where
  "zone_configuration_of d = do {
     s \<leftarrow> field_or (Some 1) (int_from 1) d ''schema_version'';
     v \<leftarrow> field_or None (int_from 1) d ''configuration_version'';
     a \<leftarrow> field_or None (number_where (\<lambda>x. 0 < x \<and> x \<le> 10)) d ''frame_aspect_ratio'';
     vs \<leftarrow> field_or None (items_within 0 32) d ''zones'';
     zs \<leftarrow> all_of zone_of vs;
     if s \<noteq> 1 \<or> \<not> distinct (map zone_id zs) \<or> \<not> distinct (map (\<lambda>z. lower (zone_name z)) zs) then None
     else Some \<lparr>configuration_version = v, frame_aspect_ratio = a, zones = zs\<rparr> }"

text \<open>The stored value of \<^verbatim>\<open>put_zones\<close> in \<^verbatim>\<open>main.py\<close>: the dumped model with its points as pairs.\<close>

definition zone_json :: "zone \<Rightarrow> json" where
  "zone_json z = JObj [(''id'', JStr (zone_id z)), (''name'', JStr (zone_name z)),
     (''points'', JArr (map (\<lambda>(x, y). JArr [JNum x, JNum y]) (points z)))]"

definition zones_value :: "zone_configuration \<Rightarrow> dict" where
  "zones_value z = [(''schema_version'', JInt 1), (''configuration_version'', JInt (configuration_version z)),
     (''frame_aspect_ratio'', JNum (frame_aspect_ratio z)), (''zones'', JArr (map zone_json (zones z)))]"

section \<open>Incident updates\<close>

abbreviation "unit_interval \<equiv> number_where (\<lambda>x. 0 \<le> x \<and> x \<le> 1)"

definition incident_update_of :: "dict \<Rightarrow> incident_update option" where
  "incident_update_of d = do {
     i \<leftarrow> field_or None (text_within 1 160) d ''incident_id'';
     dev \<leftarrow> field_or (Some None) (optional (text_within 0 80)) d ''device_id'';
     boot \<leftarrow> field_or (Some None) (optional (text_within 0 80)) d ''boot_id'';
     h \<leftarrow> field_or None (\<lambda>v. case v of JStr s \<Rightarrow> hazard_of s | _ \<Rightarrow> None) d ''hazard_state'';
     r \<leftarrow> field_or None (\<lambda>v. case v of JStr s \<Rightarrow> response_state_of s | _ \<Rightarrow> None) d ''response_state'';
     t0 \<leftarrow> field_or None (int_from 0) d ''first_detection_monotonic_ns'';
     t1 \<leftarrow> field_or None (int_from 0) d ''updated_monotonic_ns'';
     fire \<leftarrow> field_or (Some 0) unit_interval d ''fire_confidence'';
     smoke \<leftarrow> field_or (Some 0) unit_interval d ''smoke_confidence'';
     secs \<leftarrow> field_or (Some 0) (number_where (\<lambda>x. 0 \<le> x)) d ''seconds_persistent'';
     z0 \<leftarrow> field_or (Some ''Unconfigured area'') (text_within 0 48) d ''first_zone'';
     z1 \<leftarrow> field_or (Some ''Unconfigured area'') (text_within 0 48) d ''current_zone'';
     fb \<leftarrow> field_or (Some None) (optional numbers) d ''primary_fire_bbox'';
     sb \<leftarrow> field_or (Some None) (optional numbers) d ''primary_smoke_bbox'';
     gr \<leftarrow> field_or (Some None) (optional number) d ''fire_region_growth_percent'';
     sf \<leftarrow> field_or (Some None) (optional truth) d ''smoke_first'';
     dl \<leftarrow> field_or (Some None) (optional number) d ''smoke_to_fire_delay_seconds'';
     occ \<leftarrow> field_or (Some None) (optional truth) d ''occupant_visible'';
     cam \<leftarrow> field_or (Some ''UNKNOWN'') (text_within 0 32) d ''camera_health'';
     inf \<leftarrow> field_or (Some ''UNKNOWN'') (text_within 0 32) d ''inference_health'';
     Some \<lparr>u_incident_id = i, u_device_id = dev, u_boot_id = boot, u_hazard_state = h,
       u_response_state = r, u_first_detection_monotonic_ns = t0, u_updated_monotonic_ns = t1,
       u_fire_confidence = fire, u_smoke_confidence = smoke, u_seconds_persistent = secs,
       u_first_zone = z0, u_current_zone = z1, u_primary_fire_bbox = fb, u_primary_smoke_bbox = sb,
       u_fire_region_growth_percent = gr, u_smoke_first = sf, u_smoke_to_fire_delay_seconds = dl,
       u_occupant_visible = occ, u_camera_health = cam, u_inference_health = inf\<rparr> }"

text \<open>What the backend relies on of Pydantic: a typed update is accepted as it is.\<close>

definition validates :: "(dict \<Rightarrow> incident_update option) \<Rightarrow> bool" where
  "validates check \<longleftrightarrow> (\<forall>d u. incident_update_of d = Some u \<longrightarrow> check d = Some u)"

section \<open>Facts\<close>

lemma hazard_of_text [simp]: "hazard_of (hazard_text h) = Some h"
  by (cases h) (simp_all add: hazard_of_def hazard_states_def)

lemma response_state_of_text [simp]: "response_state_of (response_text r) = Some r"
  by (cases r) (simp_all add: response_state_of_def response_states_def)

lemma all_of_Some: "all_of f xs = Some ys \<longleftrightarrow> list_all2 (\<lambda>x y. f x = Some y) xs ys"
proof (induction xs arbitrary: ys)
  case (Cons x xs)
  then show ?case by (cases ys) (auto simp: bind_eq_Some_conv)
qed auto

lemma all_of_elements: "all_of f xs = Some ys \<Longrightarrow> y \<in> set ys \<Longrightarrow> \<exists>x \<in> set xs. f x = Some y"
  by (auto simp: all_of_Some list_all2_conv_all_nth in_set_conv_nth) (metis nth_mem)

lemma all_of_length: "all_of f xs = Some ys \<Longrightarrow> length ys = length xs"
  by (simp add: all_of_Some list_all2_lengthD)

lemma dropWhile_head: "dropWhile P xs = [] \<or> \<not> P (hd (dropWhile P xs))"
  using hd_dropWhile [of P xs] by blast

lemma dropWhile_id: "xs = [] \<or> \<not> P (hd xs) \<Longrightarrow> dropWhile P xs = xs"
  by (cases xs) auto

lemma strip_strip: "strip (strip s) = strip s"
proof -
  define a where "a = dropWhile is_space s"
  define b where "b = rev (dropWhile is_space (rev a))"
  have s: "strip s = b" by (simp add: strip_def a_def b_def)
  have "suffix (dropWhile is_space (rev a)) (rev a)" by (rule suffix_dropWhile)
  then have pre: "prefix b a" unfolding b_def by (metis rev_rev_ident suffix_to_prefix)
  have "b = [] \<or> \<not> is_space (hd b)"
  proof (cases b)
    case (Cons c cs)
    with pre have "hd a = c" "a \<noteq> []" by (auto simp: prefix_def)
    with dropWhile_head [of is_space s] Cons show ?thesis by (auto simp: a_def)
  qed simp
  then have b1: "dropWhile is_space b = b" by (rule dropWhile_id)
  have "rev b = dropWhile is_space (rev a)" by (simp add: b_def)
  then have "dropWhile is_space (rev b) = rev b" using dropWhile_head by (simp add: dropWhile_id)
  then show ?thesis unfolding s using b1 by (simp add: strip_def)
qed

lemma sanitize_name_Some:
  assumes "sanitize_name v = Some nm"
  shows "nm \<noteq> []" and "\<forall>c \<in> set nm. safe_char c" and "length nm \<le> length v" and "strip nm = nm"
proof -
  from assms have nm: "nm = strip (filter safe_char v)" "nm \<noteq> []"
    by (auto simp: sanitize_name_def Let_def split: if_splits)
  then show "nm \<noteq> []" by simp
  show "\<forall>c \<in> set nm. safe_char c" using set_strip [of "filter safe_char v"] by (auto simp: nm(1))
  show "length nm \<le> length v"
    unfolding nm(1) using length_strip [of "filter safe_char v"] length_filter_le [of safe_char v] by linarith
  show "strip nm = nm" unfolding nm(1) by (rule strip_strip)
qed

definition good_zone :: "zone \<Rightarrow> bool" where
  "good_zone z \<longleftrightarrow> zone_id_ok (zone_id z) \<and> zone_name z \<noteq> [] \<and> length (zone_name z) \<le> 48
     \<and> (\<forall>c \<in> set (zone_name z). safe_char c) \<and> 3 \<le> length (points z) \<and> length (points z) \<le> 32
     \<and> (\<forall>(x, y) \<in> set (points z). 0 \<le> x \<and> x \<le> 1 \<and> 0 \<le> y \<and> y \<le> 1)
     \<and> fl (1/10000) \<le> polygon_area (points z)"

lemma point_unit: "point v = Some (x, y) \<Longrightarrow> 0 \<le> x \<and> x \<le> 1 \<and> 0 \<le> y \<and> y \<le> 1"
  by (auto simp: point_def bind_eq_Some_conv split: if_splits)

lemma text_within_Some: "field_or None (text_within lo hi) d k = Some s \<Longrightarrow> lo \<le> length s \<and> length s \<le> hi"
  by (auto simp: field_or_def split: option.splits if_splits elim!: text_within.elims)

lemma items_within_Some: "field_or None (items_within lo hi) d k = Some vs \<Longrightarrow> lo \<le> length vs \<and> length vs \<le> hi"
  by (auto simp: field_or_def split: option.splits if_splits elim!: items_within.elims)

lemma zone_of_good:
  assumes "zone_of v = Some z"
  shows "good_zone z" and "strip (zone_name z) = zone_name z"
proof -
  from assms obtain d i raw nm vs ps where z: "field_or None (text_within 1 48) d ''name'' = Some raw"
    "sanitize_name raw = Some nm" "field_or None (items_within 3 32) d ''points'' = Some vs"
    "all_of point vs = Some ps" "zone_id_ok i" "fl (1/10000) \<le> polygon_area ps"
    "z = \<lparr>zone_id = i, zone_name = nm, points = ps\<rparr>"
    by (cases v) (auto simp: bind_eq_Some_conv not_less split: if_splits)
  note nm = sanitize_name_Some [OF z(2)] and raw = text_within_Some [OF z(1)] and vs = items_within_Some [OF z(3)]
  have "0 \<le> x \<and> x \<le> 1 \<and> 0 \<le> y \<and> y \<le> 1" if "(x, y) \<in> set ps" for x y
    using all_of_elements [OF z(4) that] point_unit by blast
  with z nm raw vs all_of_length [OF z(4)] show "good_zone z" "strip (zone_name z) = zone_name z"
    by (auto simp: good_zone_def)
qed

lemma accepted_zones_facts:
  assumes "zone_configuration_of d = Some z"
  shows "1 \<le> configuration_version z" "0 < frame_aspect_ratio z" "frame_aspect_ratio z \<le> 10"
    "length (zones z) \<le> 32" "distinct (map zone_id (zones z))"
    "distinct (map (\<lambda>x. lower (zone_name x)) (zones z))"
    "\<And>x. x \<in> set (zones z) \<Longrightarrow> good_zone x \<and> strip (zone_name x) = zone_name x"
proof -
  from assms obtain v a vs zs where z: "field_or None (int_from 1) d ''configuration_version'' = Some v"
    "field_or None (number_where (\<lambda>x. 0 < x \<and> x \<le> 10)) d ''frame_aspect_ratio'' = Some a"
    "field_or None (items_within 0 32) d ''zones'' = Some vs" "all_of zone_of vs = Some zs"
    "distinct (map zone_id zs)" "distinct (map (\<lambda>z. lower (zone_name z)) zs)"
    "z = \<lparr>configuration_version = v, frame_aspect_ratio = a, zones = zs\<rparr>"
    by (auto simp: zone_configuration_of_def bind_eq_Some_conv split: if_splits)
  have v: "1 \<le> v" using z(1) by (auto simp: field_or_def split: option.splits if_splits elim!: int_from.elims)
  have a: "0 < a" "a \<le> 10"
    using z(2) by (auto simp: field_or_def number_where_def split: option.splits if_splits)
  have "good_zone x \<and> strip (zone_name x) = zone_name x" if "x \<in> set zs" for x
    using all_of_elements [OF z(4) that] zone_of_good by blast
  with z v a items_within_Some [OF z(3)] all_of_length [OF z(4)] show "1 \<le> configuration_version z" "0 < frame_aspect_ratio z" "frame_aspect_ratio z \<le> 10"
    "length (zones z) \<le> 32" "distinct (map zone_id (zones z))"
    "distinct (map (\<lambda>x. lower (zone_name x)) (zones z))"
    "\<And>x. x \<in> set (zones z) \<Longrightarrow> good_zone x \<and> strip (zone_name x) = zone_name x"
    by simp_all
qed

section \<open>Properties\<close>

text \<open>
  C31. An accepted zone configuration is sound: a positive version, an aspect ratio in (0, 10], at
  most 32 zones with distinct ids and with names distinct up to case, and each zone has an id of
  the pattern, a name of 1 to 48 safe characters, 3 to 32 points in the unit square and at least
  the least area. The name of such a zone reaches the agents unchanged by the sanitizer of the
  observation formatter.
\<close>

theorem accepted_zones_sound:
  assumes "zone_configuration_of d = Some z"
  shows "1 \<le> configuration_version z \<and> 0 < frame_aspect_ratio z \<and> frame_aspect_ratio z \<le> 10
       \<and> length (zones z) \<le> 32 \<and> distinct (map zone_id (zones z))
       \<and> distinct (map (\<lambda>x. lower (zone_name x)) (zones z))
       \<and> (\<forall>x \<in> set (zones z). good_zone x \<and> sanitize_zone (Some (zone_name x)) = zone_name x)"
proof -
  note sound = accepted_zones_facts [OF assms]
  have "sanitize_zone (Some (zone_name x)) = zone_name x" if "x \<in> set (zones z)" for x
    using sound(7) [OF that] by (auto simp: good_zone_def sanitize_zone_def Let_def filter_True)
  with sound show ?thesis by simp
qed

definition kitchen :: dict where
  "kitchen = [(''id'', JStr ''zone_1''), (''name'', JStr '' Kitchen! ''),
     (''points'', JArr [JArr [JInt 0, JInt 0], JArr [JInt 1, JInt 0], JArr [JInt 1, JNum (1/2)]])]"

definition kitchen_zones :: dict where
  "kitchen_zones = [(''configuration_version'', JInt 3), (''frame_aspect_ratio'', JNum (4/3)),
     (''zones'', JArr [JObj kitchen])]"

theorem accepted_zones_sound_witness:
  "\<exists>z. zone_configuration_of kitchen_zones = Some z \<and> map zone_name (zones z) = [''Kitchen'']
     \<and> (\<forall>x \<in> set (zones z). sanitize_zone (Some (zone_name x)) = zone_name x)"
proof -
  have "map_option (\<lambda>z. map zone_name (zones z)) (zone_configuration_of kitchen_zones) = Some [''Kitchen'']"
    by code_simp
  then obtain z where z: "zone_configuration_of kitchen_zones = Some z" "map zone_name (zones z) = [''Kitchen'']"
    by auto
  from accepted_zones_sound [OF z(1)] z show ?thesis by (intro exI [of _ z]) simp
qed

lemma zone_again:
  assumes "good_zone z" and "strip (zone_name z) = zone_name z"
  shows "zone_of (zone_json z) = Some z"
proof -
  have ps: "all_of point (map (\<lambda>(x, y). JArr [JNum x, JNum y]) (points z)) = Some (points z)"
    using assms(1)
    by (auto simp: all_of_Some list_all2_conv_all_nth good_zone_def point_def field_or_def split: prod.splits)
      (metis nth_mem)+
  have "length (zone_id z) \<le> 64" using assms(1) by (auto simp: good_zone_def zone_id_ok_def split: list.splits)
  moreover have "sanitize_name (zone_name z) = Some (zone_name z)"
    using assms by (simp add: sanitize_name_def good_zone_def filter_True)
  ultimately show ?thesis
    using assms(1) ps by (cases z) (auto simp: zone_json_def field_or_def good_zone_def Suc_le_eq)
qed

text \<open>
  What is stored for an accepted zone configuration, and sent to the devices, is accepted
  again and read as the same configuration.
\<close>

theorem stored_zones_accepted_again:
  assumes "zone_configuration_of d = Some z"
  shows "zone_configuration_of (zones_value z) = Some z"
proof -
  note sound = accepted_zones_facts [OF assms]
  have "all_of zone_of (map zone_json (zones z)) = Some (zones z)"
    using sound(7) zone_again by (auto simp: all_of_Some list_all2_conv_all_nth)
  with sound show ?thesis
    by (cases z) (simp add: zone_configuration_of_def zones_value_def field_or_def number_where_def)
qed

theorem stored_zones_accepted_again_witness:
  "\<exists>z. zone_configuration_of kitchen_zones = Some z \<and> zone_configuration_of (zones_value z) = Some z"
proof -
  have "zone_configuration_of kitchen_zones \<noteq> None" by code_simp
  then obtain z where z: "zone_configuration_of kitchen_zones = Some z" by auto
  with stored_zones_accepted_again [OF z] show ?thesis by blast
qed

end
