(* ===== verification/Rows.thy ===== *)
theory Rows
  imports Models "HOL-Library.List_Lexorder"
begin

text \<open>
  How the store keeps its rows in SQLite and reads them back, \<^verbatim>\<open>src/backend/app/database.py\<close>:
  the columns the statements write, with JSON in the columns named \<^verbatim>\<open>..._json\<close>, truth values
  as integers and times as the texts of \<^verbatim>\<open>utc_now\<close>, and \<^verbatim>\<open>_decode_row\<close>, which makes of a row
  the dictionary the API returns. The lemmas justify the records of theory \<open>Database\<close>: every
  row is read back as the record that was written, and the texts of times order as the times.
  The text of JSON is behind the arguments \<open>json_text\<close> and \<open>json_of\<close>.
\<close>

section \<open>Columns\<close>

datatype cell = SqlNull | SqlInt int | SqlReal rat | SqlText string

type_synonym columns = "(string \<times> cell) list"

text \<open>The Python value of a cell.\<close>

fun plain :: "cell \<Rightarrow> json" where
  "plain SqlNull = JNull"
| "plain (SqlInt i) = JInt i"
| "plain (SqlReal x) = JNum x"
| "plain (SqlText s) = JStr s"

section \<open>Reading a row\<close>

text \<open>
  One key of the first loop of \<^verbatim>\<open>_decode_row\<close>: \<open>json.loads\<close> of a text that is no JSON gives
  None, of a number it raises a TypeError, here \<open>None\<close> of the option type.
\<close>

definition is_json :: "string \<Rightarrow> bool" where
  "is_json key \<longleftrightarrow> drop (length key - 5) key = ''_json''"

definition decode_key :: "(string \<Rightarrow> json option) \<Rightarrow> string \<Rightarrow> dict \<Rightarrow> dict option" where
  "decode_key json_of key row =
     (if is_json key
      then let target = take (length key - 5) key; rest = pop key row in
        (case get_default row key JNull of
           JNull \<Rightarrow> Some (set_key target JNull rest)
         | JStr raw \<Rightarrow> Some (set_key target (case json_of raw of None \<Rightarrow> JNull | Some v \<Rightarrow> v) rest)
         | _ \<Rightarrow> None)
      else Some row)"

fun decode_keys :: "(string \<Rightarrow> json option) \<Rightarrow> string list \<Rightarrow> dict \<Rightarrow> dict option" where
  "decode_keys json_of [] row = Some row"
| "decode_keys json_of (k # ks) row =
     (case decode_key json_of k row of None \<Rightarrow> None | Some row \<Rightarrow> decode_keys json_of ks row)"

definition decode_flag :: "string \<Rightarrow> dict \<Rightarrow> dict" where
  "decode_flag key row = (case get row key of
     None \<Rightarrow> row | Some v \<Rightarrow> if v = JNull then row else set_key key (JBool (truthy v)) row)"

definition decode_row :: "(string \<Rightarrow> json option) \<Rightarrow> columns \<Rightarrow> dict option" where
  "decode_row json_of cells =
     map_option (fold decode_flag [''connected'', ''smoke_first'', ''occupant_visible''])
       (decode_keys json_of (map fst cells) (map (\<lambda>kc. (fst kc, plain (snd kc))) cells))"

section \<open>What the statements write\<close>

definition opt_cell :: "('a \<Rightarrow> cell) \<Rightarrow> 'a option \<Rightarrow> cell" where
  "opt_cell f x = (case x of None \<Rightarrow> SqlNull | Some v \<Rightarrow> f v)"

definition bool_cell :: "bool \<Rightarrow> cell" where
  "bool_cell b = SqlInt (if b then 1 else 0)"

text \<open>A scalar in a column of type TEXT: numbers become their text.\<close>

fun text_cell :: "(rat \<Rightarrow> string) \<Rightarrow> json \<Rightarrow> cell" where
  "text_cell real_text (JStr s) = SqlText s"
| "text_cell real_text (JInt i) = SqlText (str_int i)"
| "text_cell real_text (JBool b) = SqlText (if b then ''1'' else ''0'')"
| "text_cell real_text (JNum x) = SqlText (real_text x)"
| "text_cell real_text _ = SqlNull"

fun status_text :: "call_status \<Rightarrow> string" where
  "status_text REQUESTED = ''REQUESTED''"
| "status_text INITIATED = ''INITIATED''"
| "status_text UNKNOWN = ''UNKNOWN''"
| "status_text CONNECTED = ''CONNECTED''"
| "status_text COMPLETED = ''COMPLETED''"
| "status_text FAILED = ''FAILED''"

text \<open>\<open>stamp\<close> is the text of a time, \<open>json_text\<close> the function \<^verbatim>\<open>_json\<close>.\<close>

definition device_columns ::
  "(json \<Rightarrow> string) \<Rightarrow> (time \<Rightarrow> string) \<Rightarrow> (rat \<Rightarrow> string) \<Rightarrow> device_row \<Rightarrow> columns" where
  "device_columns json_text stamp real_text d =
     [(''device_id'', SqlText (device_id d)), (''boot_id'', text_cell real_text (boot_id d)),
      (''software_version'', text_cell real_text (software_version d)),
      (''connected'', bool_cell (connected d)),
      (''connected_at'', opt_cell (SqlText \<circ> stamp) (connected_at d)),
      (''disconnected_at'', opt_cell (SqlText \<circ> stamp) (disconnected_at d)),
      (''last_seen_at'', SqlText (stamp (last_seen_at d))),
      (''capabilities_json'', SqlText (json_text (capabilities d))),
      (''health_json'', SqlText (json_text (health d)))]"

definition box_value :: "rat list \<Rightarrow> json" where
  "box_value b = JArr (map JNum b)"

definition incident_columns ::
  "(json \<Rightarrow> string) \<Rightarrow> (time \<Rightarrow> string) \<Rightarrow> (rat \<Rightarrow> string) \<Rightarrow> incident \<Rightarrow> columns" where
  "incident_columns json_text stamp real_text r =
     [(''incident_id'', SqlText (incident_id r)), (''device_id'', SqlText (inc_device_id r)),
      (''boot_id'', text_cell real_text (inc_boot_id r)),
      (''hazard_state'', SqlText (hazard_text (hazard_state r))),
      (''response_state'', SqlText (response_text (response_state r))),
      (''first_detection_monotonic_ns'', opt_cell SqlInt (first_detection_monotonic_ns r)),
      (''updated_monotonic_ns'', opt_cell SqlInt (updated_monotonic_ns r)),
      (''first_detected_at'', opt_cell (SqlText \<circ> stamp) (first_detected_at r)),
      (''confirmed_at'', opt_cell (SqlText \<circ> stamp) (confirmed_at r)),
      (''resolved_at'', opt_cell (SqlText \<circ> stamp) (resolved_at r)),
      (''first_zone'', opt_cell SqlText (first_zone r)), (''current_zone'', opt_cell SqlText (current_zone r)),
      (''peak_fire_confidence'', SqlReal (peak_fire_confidence r)),
      (''peak_smoke_confidence'', SqlReal (peak_smoke_confidence r)),
      (''max_growth_percent'', opt_cell SqlReal (max_growth_percent r)),
      (''smoke_first'', opt_cell bool_cell (smoke_first r)),
      (''smoke_to_fire_delay_seconds'', opt_cell SqlReal (smoke_to_fire_delay_seconds r)),
      (''seconds_persistent'', SqlReal (seconds_persistent r)),
      (''occupant_visible'', opt_cell bool_cell (occupant_visible r)),
      (''occupant_response'', opt_cell SqlText (occupant_response r)),
      (''call_status'', opt_cell (SqlText \<circ> status_text) (call_status r)),
      (''call_conversation_id'', opt_cell SqlText (call_conversation_id r)),
      (''call_sid'', opt_cell SqlText (call_sid r)),
      (''primary_fire_bbox_json'', opt_cell (SqlText \<circ> json_text \<circ> box_value) (primary_fire_bbox r)),
      (''primary_smoke_bbox_json'', opt_cell (SqlText \<circ> json_text \<circ> box_value) (primary_smoke_bbox r)),
      (''evidence_path'', opt_cell SqlText (evidence_path r)),
      (''camera_health'', SqlText (camera_health r)), (''inference_health'', SqlText (inference_health r)),
      (''created_at'', SqlText (stamp (created_at r))), (''updated_at'', SqlText (stamp (updated_at r)))]"

definition event_columns ::
  "(json \<Rightarrow> string) \<Rightarrow> (time \<Rightarrow> string) \<Rightarrow> (rat \<Rightarrow> string) \<Rightarrow> event \<Rightarrow> columns" where
  "event_columns json_text stamp real_text e =
     [(''id'', SqlInt (event_id e)), (''incident_id'', SqlText (event_incident e)),
      (''event_type'', SqlText (event_type e)), (''source'', SqlText (source e)),
      (''device_monotonic_ns'', opt_cell SqlInt (device_monotonic_ns e)),
      (''occurred_at'', text_cell real_text (occurred_at e)), (''received_at'', SqlText (stamp (received_at e))),
      (''payload_json'', SqlText (json_text (payload e)))]"

definition configuration_columns ::
  "(json \<Rightarrow> string) \<Rightarrow> (time \<Rightarrow> string) \<Rightarrow> configuration \<Rightarrow> columns" where
  "configuration_columns json_text stamp c =
     [(''key'', SqlText (config_key c)), (''version'', SqlInt (version c)),
      (''value_json'', SqlText (json_text (config_value c))), (''updated_at'', SqlText (stamp (config_updated_at c)))]"

section \<open>Times\<close>

text \<open>The fields of a \<open>datetime\<close> in UTC, and its \<open>isoformat\<close>.\<close>

datatype moment = Moment (year: nat) (month: nat) (day: nat) (hour: nat) (minute: nat) (second: nat)
  (microsecond: nat)

fun padded :: "nat \<Rightarrow> nat \<Rightarrow> string" where
  "padded 0 n = []"
| "padded (Suc w) n = padded w (n div 10) @ [digit_char (n mod 10)]"

definition isoformat :: "moment \<Rightarrow> string" where
  "isoformat m = padded 4 (year m) @ ''-'' @ padded 2 (month m) @ ''-'' @ padded 2 (day m) @ ''T'' @
     padded 2 (hour m) @ '':'' @ padded 2 (minute m) @ '':'' @ padded 2 (second m) @
     (if microsecond m = 0 then [] else ''.'' @ padded 6 (microsecond m)) @ ''+00:00''"

definition moment_ok :: "moment \<Rightarrow> bool" where
  "moment_ok m \<longleftrightarrow> year m < 10000 \<and> month m < 100 \<and> day m < 100 \<and> hour m < 100 \<and> minute m < 100 \<and>
     second m < 100 \<and> microsecond m < 1000000"

text \<open>The order of two \<open>datetime\<close>s: field by field.\<close>

definition fields :: "moment \<Rightarrow> nat list" where
  "fields m = [year m, month m, day m, hour m, minute m, second m, microsecond m]"

lemma fields_inject [simp]: "fields a = fields b \<longleftrightarrow> a = b"
  by (cases a; cases b) (simp add: fields_def)

instantiation moment :: linorder
begin

definition less_eq_moment :: "moment \<Rightarrow> moment \<Rightarrow> bool" where
  "less_eq_moment a b \<longleftrightarrow> fields a \<le> fields b"

definition less_moment :: "moment \<Rightarrow> moment \<Rightarrow> bool" where
  "less_moment a b \<longleftrightarrow> fields a < fields b"

instance
  by standard (auto simp: less_eq_moment_def less_moment_def less_le_not_le)

end

section \<open>The order of texts\<close>

lemma length_padded [simp]: "length (padded w n) = w"
  by (induction w arbitrary: n) simp_all

lemma str_le_refl [simp]: "str_le s s"
  by (induction s) simp_all

lemma str_le_same [simp]: "str_le (p @ r) (p @ s) = str_le r s"
  by (induction p) simp_all

lemma str_le_append:
  "length p = length q \<Longrightarrow> str_le (p @ r) (q @ s) = (if p = q then str_le r s else str_le p q)"
proof (induction p q rule: list_induct2)
  case (Cons x xs y ys)
  then show ?case by (cases "x = y") simp_all
qed simp

lemma digit_char_eq: "a < 10 \<Longrightarrow> b < 10 \<Longrightarrow> digit_char a = digit_char b \<longleftrightarrow> a = b"
  by (metis add_left_cancel of_char_digit_char)

text \<open>A number is its last digit and the rest, and compares first by the rest.\<close>

lemma digits_compare:
  "x < 10 \<Longrightarrow> y < 10 \<Longrightarrow> 10 * a + x \<le> 10 * b + y \<longleftrightarrow> a < b \<or> a = b \<and> x \<le> y" for x y a b :: nat
  by (cases a b rule: linorder_cases) auto

lemma split_digit_eq: "m = n \<longleftrightarrow> m div 10 = n div 10 \<and> m mod 10 = n mod 10" for m n :: nat
  by (metis div_mult_mod_eq)

lemma split_digit_le:
  "m \<le> n \<longleftrightarrow> m div 10 < n div 10 \<or> m div 10 = n div 10 \<and> m mod 10 \<le> n mod 10" for m n :: nat
  using digits_compare [of "m mod 10" "n mod 10" "m div 10" "n div 10"] by simp

lemma padded_eq: "m < 10 ^ w \<Longrightarrow> n < 10 ^ w \<Longrightarrow> padded w m = padded w n \<longleftrightarrow> m = n"
proof (induction w arbitrary: m n)
  case (Suc w)
  then have "m div 10 < 10 ^ w" "n div 10 < 10 ^ w" by (simp_all add: less_mult_imp_div_less mult.commute)
  from Suc.IH [OF this] show ?case using split_digit_eq [of m n] by (simp add: digit_char_eq)
qed simp

lemma padded_le: "m < 10 ^ w \<Longrightarrow> n < 10 ^ w \<Longrightarrow> str_le (padded w m) (padded w n) \<longleftrightarrow> m \<le> n"
proof (induction w arbitrary: m n)
  case (Suc w)
  have d: "m div 10 < 10 ^ w" "n div 10 < 10 ^ w" using Suc.prems by (simp_all add: less_mult_imp_div_less mult.commute)
  have l: "str_le [digit_char (m mod 10)] [digit_char (n mod 10)] \<longleftrightarrow> m mod 10 \<le> n mod 10"
    by (auto simp: of_char_digit_char)
  show ?case
    using Suc.IH [OF d] padded_eq [OF d] split_digit_le [of m n] l by (auto simp: str_le_append)
qed simp

lemma padded_step:
  "m < 10 ^ w \<Longrightarrow> n < 10 ^ w \<Longrightarrow> str_le (padded w m @ r) (padded w n @ s) \<longleftrightarrow> m < n \<or> m = n \<and> str_le r s"
  using padded_le [of m w n] padded_eq [of m w n] by (auto simp: str_le_append)

text \<open>A whole second is written without a fraction, and still comes before its fractions: + before the dot.\<close>

lemma fraction_le:
  assumes "m < 1000000" and "n < 1000000"
  shows "str_le ((if m = 0 then [] else ''.'' @ padded 6 m) @ ''+00:00'')
      ((if n = 0 then [] else ''.'' @ padded 6 n) @ ''+00:00'') \<longleftrightarrow> m \<le> n"
  using assms padded_step [of m 6 n "''+00:00''" "''+00:00''"] by auto

lemma isoformat_le:
  assumes "moment_ok a" and "moment_ok b"
  shows "str_le (isoformat a) (isoformat b) \<longleftrightarrow> a \<le> b"
  using assms
  by (simp add: isoformat_def moment_ok_def padded_step fraction_le less_eq_moment_def fields_def del: append_assoc append.simps)
    (simp only: le_less [of "microsecond a" "microsecond b"])

section \<open>Rows read back\<close>

text \<open>
  What the API shows of a record: every column under its name, JSON decoded and truth values
  as such; the decoded columns come last.
\<close>

definition opt_json :: "('a \<Rightarrow> json) \<Rightarrow> 'a option \<Rightarrow> json" where
  "opt_json f x = (case x of None \<Rightarrow> JNull | Some v \<Rightarrow> f v)"

text \<open>
  What becomes of a value in a column declared TEXT: a text is kept, and so is a missing value; a whole
  number comes back as its decimal text, a truth value as the text of 1 or 0, any other number as
  the text SQLite has for it.
\<close>

definition shown_as_text :: "(rat \<Rightarrow> string) \<Rightarrow> json \<Rightarrow> json" where
  "shown_as_text real_text v = (case v of
     JStr s \<Rightarrow> JStr s | JInt i \<Rightarrow> JStr (str_int i) | JBool b \<Rightarrow> JStr (if b then ''1'' else ''0'')
   | JNum x \<Rightarrow> JStr (real_text x) | _ \<Rightarrow> JNull)"

lemma plain_text_cell [simp]: "plain (text_cell real_text v) = shown_as_text real_text v"
  by (cases v) (simp_all add: shown_as_text_def)

definition device_shown :: "(time \<Rightarrow> string) \<Rightarrow> (rat \<Rightarrow> string) \<Rightarrow> device_row \<Rightarrow> dict" where
  "device_shown stamp real_text d =
     [(''device_id'', JStr (device_id d)), (''boot_id'', shown_as_text real_text (boot_id d)),
      (''software_version'', shown_as_text real_text (software_version d)),
      (''connected'', JBool (connected d)),
      (''connected_at'', opt_json (JStr \<circ> stamp) (connected_at d)),
      (''disconnected_at'', opt_json (JStr \<circ> stamp) (disconnected_at d)),
      (''last_seen_at'', JStr (stamp (last_seen_at d))),
      (''capabilities'', capabilities d), (''health'', health d)]"

definition incident_shown :: "(time \<Rightarrow> string) \<Rightarrow> (rat \<Rightarrow> string) \<Rightarrow> incident \<Rightarrow> dict" where
  "incident_shown stamp real_text r =
     [(''incident_id'', JStr (incident_id r)), (''device_id'', JStr (inc_device_id r)),
      (''boot_id'', shown_as_text real_text (inc_boot_id r)),
      (''hazard_state'', JStr (hazard_text (hazard_state r))),
      (''response_state'', JStr (response_text (response_state r))),
      (''first_detection_monotonic_ns'', opt_json JInt (first_detection_monotonic_ns r)),
      (''updated_monotonic_ns'', opt_json JInt (updated_monotonic_ns r)),
      (''first_detected_at'', opt_json (JStr \<circ> stamp) (first_detected_at r)),
      (''confirmed_at'', opt_json (JStr \<circ> stamp) (confirmed_at r)),
      (''resolved_at'', opt_json (JStr \<circ> stamp) (resolved_at r)),
      (''first_zone'', opt_json JStr (first_zone r)), (''current_zone'', opt_json JStr (current_zone r)),
      (''peak_fire_confidence'', JNum (peak_fire_confidence r)),
      (''peak_smoke_confidence'', JNum (peak_smoke_confidence r)),
      (''max_growth_percent'', opt_json JNum (max_growth_percent r)),
      (''smoke_first'', opt_json JBool (smoke_first r)),
      (''smoke_to_fire_delay_seconds'', opt_json JNum (smoke_to_fire_delay_seconds r)),
      (''seconds_persistent'', JNum (seconds_persistent r)),
      (''occupant_visible'', opt_json JBool (occupant_visible r)),
      (''occupant_response'', opt_json JStr (occupant_response r)),
      (''call_status'', opt_json (JStr \<circ> status_text) (call_status r)),
      (''call_conversation_id'', opt_json JStr (call_conversation_id r)),
      (''call_sid'', opt_json JStr (call_sid r)), (''evidence_path'', opt_json JStr (evidence_path r)),
      (''camera_health'', JStr (camera_health r)), (''inference_health'', JStr (inference_health r)),
      (''created_at'', JStr (stamp (created_at r))), (''updated_at'', JStr (stamp (updated_at r))),
      (''primary_fire_bbox'', opt_json box_value (primary_fire_bbox r)),
      (''primary_smoke_bbox'', opt_json box_value (primary_smoke_bbox r))]"

definition event_shown :: "(time \<Rightarrow> string) \<Rightarrow> (rat \<Rightarrow> string) \<Rightarrow> event \<Rightarrow> dict" where
  "event_shown stamp real_text e =
     [(''id'', JInt (event_id e)), (''incident_id'', JStr (event_incident e)),
      (''event_type'', JStr (event_type e)), (''source'', JStr (source e)),
      (''device_monotonic_ns'', opt_json JInt (device_monotonic_ns e)),
      (''occurred_at'', shown_as_text real_text (occurred_at e)), (''received_at'', JStr (stamp (received_at e))),
      (''payload'', payload e)]"

definition configuration_shown :: "(time \<Rightarrow> string) \<Rightarrow> configuration \<Rightarrow> dict" where
  "configuration_shown stamp c =
     [(''key'', JStr (config_key c)), (''version'', JInt (version c)),
      (''updated_at'', JStr (stamp (config_updated_at c))), (''value'', config_value c)]"

lemma plain_opt [simp]:
  "plain (opt_cell SqlInt i) = opt_json JInt i" "plain (opt_cell SqlReal x) = opt_json JNum x"
  "plain (opt_cell SqlText s) = opt_json JStr s" "plain (opt_cell (SqlText \<circ> f) v) = opt_json (JStr \<circ> f) v"
  "plain (bool_cell b) = JInt (if b then 1 else 0)"
  by (simp_all add: opt_cell_def opt_json_def bool_cell_def split: option.splits)

text \<open>
  Reading goes through the columns in order: of those not read yet and those read, the JSON
  ones move to the end under their new name.
\<close>

definition readable :: "string \<times> cell \<Rightarrow> bool" where
  "readable kc \<longleftrightarrow> (case kc of (k, c) \<Rightarrow> is_json k \<longrightarrow> (case c of SqlNull \<Rightarrow> True | SqlText _ \<Rightarrow> True | _ \<Rightarrow> False))"

definition target_of :: "string \<Rightarrow> string" where
  "target_of k = (if is_json k then take (length k - 5) k else k)"

definition decoded :: "(string \<Rightarrow> json option) \<Rightarrow> string \<times> cell \<Rightarrow> string \<times> json" where
  "decoded json_of kc = (case kc of (k, c) \<Rightarrow> (target_of k,
     case c of SqlText raw \<Rightarrow> (case json_of raw of None \<Rightarrow> JNull | Some v \<Rightarrow> v) | _ \<Rightarrow> JNull))"

abbreviation plain_column :: "string \<times> cell \<Rightarrow> string \<times> json" where
  "plain_column kc \<equiv> (fst kc, plain (snd kc))"

lemma set_key_fresh: "k \<notin> fst ` set d \<Longrightarrow> set_key k v d = d @ [(k, v)]"
  by (induction d) (auto simp: set_key_def)

lemma pop_fresh: "k \<notin> fst ` set d \<Longrightarrow> pop k d = d"
  by (auto simp: pop_def filter_id_conv image_iff)

lemma pop_append: "pop k (d @ e) = pop k d @ pop k e"
  by (simp add: pop_def)

lemma map_of_fresh: "k \<notin> fst ` set d \<Longrightarrow> map_of (d @ (k, v) # e) k = Some v"
  by (induction d) auto

lemma decode_keys_columns:
  assumes "distinct (map fst done1 @ map fst todo @ map target_of (filter is_json (map fst todo)) @ map fst done2)"
    and "list_all readable todo"
  shows "decode_keys json_of (map fst todo) (done1 @ map plain_column todo @ done2) =
    Some (done1 @ map plain_column (filter (\<lambda>kc. \<not> is_json (fst kc)) todo) @ done2 @
      map (decoded json_of) (filter (\<lambda>kc. is_json (fst kc)) todo))"
  using assms
proof (induction todo arbitrary: done1 done2)
  case (Cons kc todo)
  obtain k c where kc: "kc = (k, c)" by force
  show ?case
  proof (cases "is_json k")
    case False
    with Cons.IH [of "done1 @ [(k, plain c)]" done2] Cons.prems show ?thesis
      by (simp add: kc decode_key_def)
  next
    case True
    let ?d = "decoded json_of (k, c)"
    have fresh: "k \<notin> fst ` set done1" "k \<notin> fst ` set (map plain_column todo)" "k \<notin> fst ` set done2"
      "target_of k \<notin> fst ` set (done1 @ map plain_column todo @ done2)"
      using Cons.prems(1) True by (auto simp: kc image_iff)
    have "get_default (done1 @ (k, plain c) # map plain_column todo @ done2) k JNull = plain c"
      using map_of_fresh [OF fresh(1)] unfolding get_default_def by (simp only: option.case)
    moreover have "pop k (done1 @ (k, plain c) # map plain_column todo @ done2) = done1 @ map plain_column todo @ done2"
      using pop_fresh [OF fresh(1)] pop_fresh [OF fresh(2)] pop_fresh [OF fresh(3)]
        pop_append [of k done1 "(k, plain c) # map plain_column todo @ done2"]
        pop_append [of k "[(k, plain c)]" "map plain_column todo @ done2"]
        pop_append [of k "map plain_column todo" done2]
      by (simp add: pop_def)
    ultimately have "decode_key json_of k (done1 @ (k, plain c) # map plain_column todo @ done2)
        = Some (set_key (target_of k) (snd ?d) (done1 @ map plain_column todo @ done2))"
      using Cons.prems(2) True
      by (auto simp: kc decode_key_def decoded_def target_of_def readable_def Let_def split: cell.splits option.splits)
    also have "\<dots> = Some (done1 @ map plain_column todo @ done2 @ [?d])"
      using set_key_fresh [OF fresh(4)] by (simp add: decoded_def)
    finally have step: "decode_key json_of k (done1 @ (k, plain c) # map plain_column todo @ done2)
        = Some (done1 @ map plain_column todo @ done2 @ [?d])" .
    from Cons.IH [of done1 "done2 @ [?d]"] Cons.prems True step show ?thesis
      by (simp add: kc decoded_def)
  qed
qed simp

text \<open>What the columns are read as, when their names, old and new, are all different.\<close>

lemma decode_row_columns:
  assumes "distinct (map fst cells @ map target_of (filter is_json (map fst cells)))" and "list_all readable cells"
  shows "decode_row json_of cells = Some (fold decode_flag [''connected'', ''smoke_first'', ''occupant_visible'']
    (map plain_column (filter (\<lambda>kc. \<not> is_json (fst kc)) cells) @
     map (decoded json_of) (filter (\<lambda>kc. is_json (fst kc)) cells)))"
  using decode_keys_columns [of "[]" cells "[]" json_of] assms by (simp add: decode_row_def)

lemmas column_defs = is_json_def target_of_def readable_def decoded_def
lemmas flag_defs = decode_flag_def set_key_def bool_cell_def opt_cell_def opt_json_def

lemma device_read_back:
  assumes "json_of (json_text (capabilities d)) = Some (capabilities d)" "json_of (json_text (health d)) = Some (health d)"
  shows "decode_row json_of (device_columns json_text stamp real_text d) = Some (device_shown stamp real_text d)"
  by (subst decode_row_columns) (simp_all add: device_columns_def device_shown_def column_defs decode_flag_def set_key_def assms)

lemma event_read_back:
  assumes "json_of (json_text (payload e)) = Some (payload e)"
  shows "decode_row json_of (event_columns json_text stamp real_text e) = Some (event_shown stamp real_text e)"
  by (subst decode_row_columns) (simp_all add: event_columns_def event_shown_def column_defs decode_flag_def assms)

lemma configuration_read_back:
  assumes "json_of (json_text (config_value c)) = Some (config_value c)"
  shows "decode_row json_of (configuration_columns json_text stamp c) = Some (configuration_shown stamp c)"
  by (subst decode_row_columns) (simp_all add: configuration_columns_def configuration_shown_def column_defs decode_flag_def assms)

lemma decoded_option:
  "(\<And>x. b = Some x \<Longrightarrow> json_of (f (g x)) = Some (g x)) \<Longrightarrow>
   (case opt_cell (SqlText \<circ> f \<circ> g) b of SqlText raw \<Rightarrow> (case json_of raw of None \<Rightarrow> JNull | Some v \<Rightarrow> v) | _ \<Rightarrow> JNull)
     = opt_json g b"
  by (simp add: opt_cell_def opt_json_def split: option.splits)

lemma incident_read_back:
  assumes "\<And>b. primary_fire_bbox r = Some b \<or> primary_smoke_bbox r = Some b \<Longrightarrow> json_of (json_text (box_value b)) = Some (box_value b)"
  shows "decode_row json_of (incident_columns json_text stamp real_text r) = Some (incident_shown stamp real_text r)"
proof -
  have "distinct (map fst (incident_columns json_text stamp real_text r)
      @ map target_of (filter is_json (map fst (incident_columns json_text stamp real_text r))))"
    by (simp add: incident_columns_def is_json_def target_of_def)
  moreover have "list_all readable (incident_columns json_text stamp real_text r)"
    by (simp add: incident_columns_def is_json_def target_of_def readable_def opt_cell_def split: option.splits)
  ultimately have "decode_row json_of (incident_columns json_text stamp real_text r) =
    Some (fold decode_flag [''connected'', ''smoke_first'', ''occupant_visible'']
      (map plain_column (filter (\<lambda>kc. \<not> is_json (fst kc)) (incident_columns json_text stamp real_text r)) @
       map (decoded json_of) (filter (\<lambda>kc. is_json (fst kc)) (incident_columns json_text stamp real_text r))))"
    by (rule decode_row_columns)
  also have "\<dots> = Some (incident_shown stamp real_text r)"
    by (simp add: incident_columns_def is_json_def target_of_def decoded_def decoded_option assms)
      (simp add: incident_shown_def flag_defs split: option.splits)
  finally show ?thesis .
qed

section \<open>Properties\<close>

text \<open>
  C21. Rows are read back as they were stored: when \<open>json.loads\<close> inverts \<open>json.dumps\<close> on the stored
  JSON, the dictionary \<^verbatim>\<open>_decode_row\<close> makes of the columns of a device, an incident, an event
  or a configuration has the fields of the record, each under its name and in the type of its
  column. Truth values, JSON and numbers of the typed columns come back as themselves. The three columns the
  code fills with values it has not checked, \<^verbatim>\<open>boot_id\<close>, \<^verbatim>\<open>software_version\<close> and \<^verbatim>\<open>occurred_at\<close>, are
  declared TEXT: a text comes back as itself, but a number a device has sent there comes back as a text.
\<close>

theorem stored_rows_read_back:
  assumes "\<And>v. v \<in> set [capabilities d, health d, payload e, config_value c]
      \<union> box_value ` (set_option (primary_fire_bbox r) \<union> set_option (primary_smoke_bbox r))
      \<Longrightarrow> json_of (json_text v) = Some v"
  shows "decode_row json_of (device_columns json_text stamp real_text d) = Some (device_shown stamp real_text d) \<and>
    decode_row json_of (incident_columns json_text stamp real_text r) = Some (incident_shown stamp real_text r) \<and>
    decode_row json_of (event_columns json_text stamp real_text e) = Some (event_shown stamp real_text e) \<and>
    decode_row json_of (configuration_columns json_text stamp c) = Some (configuration_shown stamp c)"
  using device_read_back incident_read_back event_read_back configuration_read_back assms by simp

definition demo_device :: device_row where
  "demo_device = new_device 5 \<lparr>hello_device_id = ''qnx'', hello_boot_id = JInt 3,
     hello_software_version = JStr ''1.0'', hello_capabilities = JArr []\<rparr> True"

definition demo_update :: incident_update where
  "demo_update = \<lparr>u_incident_id = ''i'', u_device_id = None, u_boot_id = None, u_hazard_state = CONFIRMED,
     u_response_state = AWAITING_RESPONSE, u_first_detection_monotonic_ns = 1, u_updated_monotonic_ns = 2,
     u_fire_confidence = 1, u_smoke_confidence = 0, u_seconds_persistent = 4, u_first_zone = ''Stovetop'',
     u_current_zone = ''Stovetop'', u_primary_fire_bbox = Some [0, 0, 1, 1], u_primary_smoke_bbox = None,
     u_fire_region_growth_percent = None, u_smoke_first = Some True, u_smoke_to_fire_delay_seconds = None,
     u_occupant_visible = None, u_camera_health = ''HEALTHY'', u_inference_health = ''HEALTHY''\<rparr>"

definition demo_event :: event where
  "demo_event = \<lparr>event_id = 1, event_incident = ''i'', event_type = ''T'', source = ''device'',
     device_monotonic_ns = None, occurred_at = JNull, received_at = 7, payload = JObj []\<rparr>"

definition demo_configuration :: configuration where
  "demo_configuration = \<lparr>config_key = ''zones'', version = 2, config_value = JObj [], config_updated_at = 9\<rparr>"

text \<open>A text for the four JSON values of these records.\<close>

definition demo_json_text :: "json \<Rightarrow> string" where
  "demo_json_text v = (if v = JArr [] then ''[]'' else if v = JObj [] then ''{}'' else ''[0,0,1,1]'')"

definition demo_json_of :: "string \<Rightarrow> json option" where
  "demo_json_of s = (if s = ''[]'' then Some (JArr []) else if s = ''{}'' then Some (JObj [])
     else if s = ''[0,0,1,1]'' then Some (box_value [0, 0, 1, 1]) else None)"

theorem stored_rows_read_back_witness:
  "decode_row demo_json_of (device_columns demo_json_text (\<lambda>t. ''t'') (\<lambda>x. ''x'') demo_device)
     = Some [(''device_id'', JStr ''qnx''), (''boot_id'', JStr ''3''), (''software_version'', JStr ''1.0''),
         (''connected'', JBool True), (''connected_at'', JStr ''t''), (''disconnected_at'', JNull),
         (''last_seen_at'', JStr ''t''), (''capabilities'', JArr []), (''health'', JObj [])]"
proof -
  let ?r = "new_incident 5 demo_update ''qnx'' (JInt 3)"
  have "demo_json_of (demo_json_text v) = Some v"
    if "v \<in> set [capabilities demo_device, health demo_device, payload demo_event, config_value demo_configuration]
      \<union> box_value ` (set_option (primary_fire_bbox ?r) \<union> set_option (primary_smoke_bbox ?r))" for v
    using that by (auto simp: demo_device_def new_device_def demo_event_def demo_configuration_def
        new_incident_def demo_update_def nonempty_def demo_json_of_def demo_json_text_def box_value_def)
  from stored_rows_read_back [OF this, where stamp = "\<lambda>t. ''t''" and real_text = "\<lambda>x. ''x''"]
  have "decode_row demo_json_of (device_columns demo_json_text (\<lambda>t. ''t'') (\<lambda>x. ''x'') demo_device)
      = Some (device_shown (\<lambda>t. ''t'') (\<lambda>x. ''x'') demo_device)" by blast
  moreover have "str_int 3 = ''3''" by code_simp
  ultimately show ?thesis by (simp add: device_shown_def demo_device_def new_device_def opt_json_def shown_as_text_def)
qed

text \<open>
  Times compare as their texts: the statements order and compare the texts of times, and for
  any two times the text of one is at most that of the other exactly when the times are so,
  although a whole second is written without a fraction.
\<close>

theorem texts_order_as_times:
  assumes "moment_ok a" and "moment_ok b"
  shows "str_le (isoformat a) (isoformat b) \<longleftrightarrow> a \<le> b"
  using assms by (rule isoformat_le)

definition whole_second :: moment where
  "whole_second = Moment 2026 3 1 12 0 59 0"

lemma digit_chars:
  "digit_char 0 = CHR ''0''" "digit_char 1 = CHR ''1''" "digit_char (Suc 0) = CHR ''1''"
  "digit_char 2 = CHR ''2''" "digit_char 3 = CHR ''3''" "digit_char 5 = CHR ''5''"
  "digit_char 6 = CHR ''6''" "digit_char 9 = CHR ''9''"
  by code_simp+

lemma padded_2_4:
  "padded 2 n = [digit_char (n div 10 mod 10), digit_char (n mod 10)]"
  "padded 4 n = padded 2 (n div 100) @ padded 2 n"
proof -
  have s: "(2 :: nat) = Suc (Suc 0)" "(4 :: nat) = Suc (Suc (Suc (Suc 0)))" by simp_all
  show two: "padded 2 n = [digit_char (n div 10 mod 10), digit_char (n mod 10)]" for n
    unfolding s by simp
  show "padded 4 n = padded 2 (n div 100) @ padded 2 n"
    unfolding two unfolding s by (simp add: div_mult2_eq [symmetric])
qed

theorem texts_order_as_times_witness:
  "str_le (isoformat whole_second) (isoformat (Moment 2026 3 1 12 0 59 1)) \<and>
   isoformat whole_second = ''2026-03-01T12:00:59+00:00''"
proof -
  have "moment_ok whole_second" "moment_ok (Moment 2026 3 1 12 0 59 1)"
    "whole_second \<le> Moment 2026 3 1 12 0 59 1"
    by (simp_all add: moment_ok_def less_eq_moment_def fields_def whole_second_def)
  with texts_order_as_times have "str_le (isoformat whole_second) (isoformat (Moment 2026 3 1 12 0 59 1))"
    by blast
  moreover have "isoformat whole_second = ''2026-03-01T12:00:59+00:00''"
    by (simp add: isoformat_def whole_second_def padded_2_4 digit_chars)
  ultimately show ?thesis ..
qed

text \<open>
  With the conversion of the model's times to fields in their order, the incidents are listed
  in the order of their texts, newest first.
\<close>

lemma listed_in_text_order:
  assumes "\<And>t. moment_ok (moment_of t)" and "mono moment_of"
  shows "sorted_wrt (\<lambda>a b. str_le (isoformat (moment_of (updated_at b))) (isoformat (moment_of (updated_at a))))
    (list_incidents n db)"
proof -
  have "sorted (map (\<lambda>i. - updated_at i) (sort_key (\<lambda>i. - updated_at i) (incidents db)))" by simp
  then have "sorted_wrt (\<lambda>a b. updated_at b \<le> updated_at a) (list_incidents n db)"
    unfolding list_incidents_def sorted_map by (auto intro: sorted_wrt_take elim!: sorted_wrt_mono_rel [rotated])
  then show ?thesis
    by (rule sorted_wrt_mono_rel [rotated]) (use assms isoformat_le in \<open>auto dest: monoD\<close>)
qed

end
