(* ===== verification/Edge.thy ===== *)
theory Edge
  imports Models Detector Frames
begin

text \<open>
  The program on the device, \<^verbatim>\<open>src/poc/pi/ignis_poc/edge.py\<close>: the connection to the backend
  (\<^verbatim>\<open>BackendStream\<close>), the frame loop of \<^verbatim>\<open>run\<close> with its packets and its local log, and the
  reading of one camera frame from the helper process. Clock readings, what the network does
  and what the camera and the detector return are inputs. An exception that is not caught
  stops the loop.
\<close>

section \<open>The connection\<close>

text \<open>
  What the network does during \<^verbatim>\<open>connect\<close>: the connection is refused, or an \<^verbatim>\<open>OSError\<close> with
  its text comes while the HELLO is sent or its answer is read (a timeout), or the HELLO is
  sent and the backend's bytes arrive in segments. During \<^verbatim>\<open>sendall\<close>: everything is sent, or
  an error comes after a part of the bytes.
\<close>

datatype dial = Refused string | HelloLost string | Answers "bytes list"

datatype transfer = Sent | Broken nat string

record network =
  now :: rat
  hello_ns :: int
  dialled :: dial
  failed_at :: rat
  transferred :: transfer

text \<open>
  \<open>link\<close> tells whether \<^verbatim>\<open>self.connection\<close> is set; \<open>wire\<close> are the bytes written on the
  connection, one entry per packet, and \<open>last_sent\<close> the packets, both kept for the theorems.
\<close>

record stream =
  s_device :: string
  s_token :: string
  s_boot :: string
  link :: bool
  next_sequence :: int
  next_reconnect :: rat
  last_error :: string
  wire :: "bytes list"
  last_sent :: "edge_packet_type message list"

definition new_stream :: "string \<Rightarrow> string \<Rightarrow> string \<Rightarrow> stream" where
  "new_stream dev tok boot = \<lparr>s_device = dev, s_token = tok, s_boot = boot, link = False,
     next_sequence = 1, next_reconnect = 0, last_error = [], wire = [], last_sent = []\<rparr>"

text \<open>Uncaught exceptions: \<open>struct.error\<close>, a ValueError of \<open>json.loads\<close>, a camera that fails.\<close>

datatype crash = PackError | BadAckJson | CameraFailed

definition hello_payload :: "stream \<Rightarrow> dict" where
  "hello_payload s = [(''device_id'', JStr (s_device s)), (''boot_id'', JStr (s_boot s)),
     (''protocol_version'', JInt 1), (''software_version'', JStr ''poc-0.1.0''),
     (''device_token'', JStr (s_token s)),
     (''capabilities'', JArr [JStr ''poc_camera'', JStr ''tflite_fire_detection'', JStr ''jpeg_stream''])]"

text \<open>\<^verbatim>\<open>packet\<close>: the encoding with the next sequence number, which advances unless it raises.\<close>

definition next_packet ::
  "edge_packet_type \<Rightarrow> bytes \<Rightarrow> int \<Rightarrow> stream \<Rightarrow> (crash, bytes) result \<times> stream" where
  "next_packet ty pl ns s = (case edge_encode_packet ty pl (next_sequence s) ns of
     Inl e \<Rightarrow> (Err PackError, s)
   | Inr bs \<Rightarrow> (Ok bs, s\<lparr>next_sequence := next_sequence s + 1\<rparr>))"

definition close_stream :: "stream \<Rightarrow> stream" where
  "close_stream s = s\<lparr>link := False\<rparr>"

definition connect_failed :: "rat \<Rightarrow> string \<Rightarrow> stream \<Rightarrow> stream" where
  "connect_failed later msg s =
     (close_stream s)\<lparr>next_reconnect := fadd later 2, last_error := msg\<rparr>"

text \<open>The texts of the \<^verbatim>\<open>ConnectionError\<close>s of \<^verbatim>\<open>receive_ack\<close>.\<close>

fun error_text :: "connection_error \<Rightarrow> string" where
  "error_text BackendClosed = ''backend closed the connection''"
| "error_text InvalidAck = ''backend returned an invalid HELLO_ACK''"
| "error_text AckCrc = ''HELLO_ACK CRC failed''"
| "error_text AckNotJson = []"
| "error_text BackendRejected = ''backend rejected the POC device''"

definition connect :: "dumps \<Rightarrow> loads \<Rightarrow> network \<Rightarrow> stream \<Rightarrow> (crash, bool) result \<times> stream" where
  "connect dumps loads net s =
     (if now net < next_reconnect s then (Ok False, s)
      else case dialled net of
        Refused msg \<Rightarrow> (Ok False, connect_failed (failed_at net) msg s)
      | d \<Rightarrow>
          (case next_packet E_HELLO (dumps (hello_payload s)) (hello_ns net) s of
             (Inl e, s) \<Rightarrow> (Err e, s)
           | (Inr bs, s) \<Rightarrow>
               (case d of
                  HelloLost msg \<Rightarrow> (Ok False, connect_failed (failed_at net) msg s)
                | Answers segments \<Rightarrow>
                    (case fst (receive_ack loads segments) of
                       Inl AckNotJson \<Rightarrow> (Err BadAckJson, s)
                     | Inl e \<Rightarrow> (Ok False, connect_failed (failed_at net) (error_text e) s)
                     | Inr ack \<Rightarrow> (Ok True, s\<lparr>link := True, last_error := [], wire := [bs],
                         last_sent := [(E_HELLO, dumps (hello_payload s), next_sequence s - 1, hello_ns net)]\<rparr>)))))"

definition send_on_link ::
  "edge_packet_type \<Rightarrow> bytes \<Rightarrow> int \<Rightarrow> network \<Rightarrow> stream \<Rightarrow> (crash, bool) result \<times> stream" where
  "send_on_link ty pl ns net s = (case next_packet ty pl ns s of
     (Inl e, s) \<Rightarrow> (Err e, s)
   | (Inr bs, s) \<Rightarrow> (case transferred net of
       Sent \<Rightarrow> (Ok True, s\<lparr>wire := wire s @ [bs],
                  last_sent := last_sent s @ [(ty, pl, next_sequence s - 1, ns)]\<rparr>)
     | Broken n msg \<Rightarrow> (Ok False, (close_stream s)\<lparr>next_reconnect := fadd (failed_at net) 2,
         last_error := msg, wire := wire s @ [take n bs]\<rparr>)))"

definition send_packet ::
  "dumps \<Rightarrow> loads \<Rightarrow> edge_packet_type \<Rightarrow> bytes \<Rightarrow> int \<Rightarrow> network \<Rightarrow> stream \<Rightarrow> (crash, bool) result \<times> stream"
  where
  "send_packet dumps loads ty pl ns net s =
     (if link s then send_on_link ty pl ns net s
      else case connect dumps loads net s of
        (Inl e, s) \<Rightarrow> (Err e, s)
      | (Inr up, s) \<Rightarrow> if up then send_on_link ty pl ns net s else (Ok False, s))"

section \<open>One frame\<close>

record edge_args =
  a_device :: string
  a_jpeg_quality :: int
  a_has_lcd :: bool

record camera_frame =
  c_ns :: int
  c_detections :: "detection list"
  c_inference_ms :: rat
  c_jpeg :: bytes
  c_width :: int
  c_height :: int
  c_unix :: rat
  c_unix_late :: rat
  c_health :: "rat \<times> rat"
  c_log :: "rat \<times> rat"
  c_network :: "nat \<Rightarrow> network"

text \<open>
  The local variables of \<^verbatim>\<open>run\<close>; \<open>alert\<close> is the flag of the display, \<open>local_log\<close> the
  entries of the log file. The pairs of \<open>camera_frame\<close> are the readings of the monotonic clock
  before and after the checks of the two intervals.
\<close>

record edge =
  link_of :: stream
  gate :: verifier
  boot :: string
  frame_sequence :: int
  last_health :: rat
  last_local_log :: rat
  last_state :: hazard_state
  alert :: bool
  local_log :: "dict list"

definition new_edge :: "edge_args \<Rightarrow> string \<Rightarrow> string \<Rightarrow> edge" where
  "new_edge args tok bid = \<lparr>link_of = new_stream (a_device args) tok bid,
     gate = default_verifier (a_device args) bid, boot = bid, frame_sequence = 0, last_health = 0,
     last_local_log = 0, last_state = CLEAR, alert = False, local_log = []\<rparr>"

text \<open>\<open>round(x, n)\<close> rounds the exact value of the double to n decimals and reads the result back.\<close>

definition round_to :: "nat \<Rightarrow> rat \<Rightarrow> rat" where
  "round_to n x = fl (of_int (rne (x * 10 ^ n)) / 10 ^ n)"

definition as_json :: "detection \<Rightarrow> json" where
  "as_json d = (case bbox d of (x1, y1, x2, y2) \<Rightarrow>
     JObj [(''class_name'', JStr (class_name d)), (''class_id'', JInt (class_id d)),
       (''confidence'', JNum (round_to 5 (confidence d))),
       (''bbox'', JObj [(''x_min'', JNum x1), (''y_min'', JNum y1), (''x_max'', JNum x2), (''y_max'', JNum y2)])])"

text \<open>\<open>max\<close> with a key returns the first of the largest.\<close>

fun best_of :: "detection \<Rightarrow> detection list \<Rightarrow> detection" where
  "best_of b [] = b"
| "best_of b (d # ds) = best_of (if confidence b < confidence d then d else b) ds"

definition primary_box :: "detection list \<Rightarrow> string \<Rightarrow> json" where
  "primary_box dets c = (case filter (\<lambda>d. class_name d = c) dets of
       [] \<Rightarrow> JNull
     | d # ds \<Rightarrow> (case bbox (best_of d ds) of (x1, y1, x2, y2) \<Rightarrow> JArr [JNum x1, JNum y1, JNum x2, JNum y2]))"

definition frame_metadata :: "edge_args \<Rightarrow> int \<Rightarrow> camera_frame \<Rightarrow> dict" where
  "frame_metadata args n f = [(''device_id'', JStr (a_device args)), (''frame_sequence'', JInt n),
     (''width'', JInt (c_width f)), (''height'', JInt (c_height f)),
     (''jpeg_quality'', JInt (a_jpeg_quality args)), (''detections_reference'', JInt n),
     (''source_mode'', JStr ''QNX_POC'')]"

definition detections_payload :: "int \<Rightarrow> camera_frame \<Rightarrow> dict" where
  "detections_payload n f = [(''frame_sequence'', JInt n), (''monotonic_ns'', JInt (c_ns f)),
     (''inference_duration_ms'', JNum (round_to 2 (c_inference_ms f))),
     (''detections'', JArr (map as_json (c_detections f)))]"

definition update_payload :: "edge_args \<Rightarrow> string \<Rightarrow> string \<Rightarrow> fire_state \<Rightarrow> camera_frame \<Rightarrow> dict" where
  "update_payload args bid i s f = [(''incident_id'', JStr i), (''device_id'', JStr (a_device args)),
     (''boot_id'', JStr bid), (''hazard_state'', JStr (hazard_text (fire_state.hazard_state s))),
     (''response_state'', JStr (if confirmed s then ''AWAITING_RESPONSE'' else ''IDLE'')),
     (''first_detection_monotonic_ns'', JInt (first_detection_ns s)),
     (''updated_monotonic_ns'', JInt (c_ns f)), (''fire_confidence'', JNum (fire_confidence s)),
     (''smoke_confidence'', JNum (smoke_confidence s)),
     (''seconds_persistent'', JNum (fire_state.seconds_persistent s)), (''first_zone'', JStr ''Bahen Centre''),
     (''current_zone'', JStr ''Bahen Centre''), (''primary_fire_bbox'', primary_box (c_detections f) ''fire''),
     (''primary_smoke_bbox'', primary_box (c_detections f) ''smoke''),
     (''fire_region_growth_percent'', JNull), (''smoke_first'', JNull),
     (''smoke_to_fire_delay_seconds'', JNull), (''occupant_visible'', JNull),
     (''camera_health'', JStr ''HEALTHY''), (''inference_health'', JStr ''HEALTHY'')]"

definition state_entry :: "string \<Rightarrow> fire_state \<Rightarrow> camera_frame \<Rightarrow> dict" where
  "state_entry i s f = [(''time_unix'', JNum (c_unix f)), (''monotonic_ns'', JInt (c_ns f)),
     (''incident_id'', JStr i), (''hazard_state'', JStr (hazard_text (fire_state.hazard_state s))),
     (''fire_confidence'', JNum (fire_confidence s)), (''smoke_confidence'', JNum (smoke_confidence s))]"

definition timeline_payload :: "string \<Rightarrow> fire_state \<Rightarrow> dict" where
  "timeline_payload i s = [(''incident_id'', JStr i),
     (''event_type'', JStr (''POC_'' @ hazard_text (fire_state.hazard_state s))),
     (''hazard_state'', JStr (hazard_text (fire_state.hazard_state s)))]"

definition health_payload :: "camera_frame \<Rightarrow> dict" where
  "health_payload f = [(''status'', JStr ''HEALTHY''), (''camera'', JStr ''HEALTHY''),
     (''inference'', JStr ''HEALTHY''), (''incident_engine'', JStr ''POC''), (''stream'', JStr ''HEALTHY''),
     (''inference_latency_ms'', JNum (round_to 2 (c_inference_ms f))), (''watchdog_restart_count'', JInt 0),
     (''source_mode'', JStr ''QNX_POC'')]"

definition health_entry :: "camera_frame \<Rightarrow> bool \<Rightarrow> dict" where
  "health_entry f up = [(''time_unix'', JNum (c_unix_late f)), (''monotonic_ns'', JInt (c_ns f)),
     (''event'', JStr ''POC_HEALTH''), (''camera'', JStr ''HEALTHY''), (''inference'', JStr ''HEALTHY''),
     (''inference_latency_ms'', JNum (round_to 2 (c_inference_ms f))), (''laptop_connected'', JBool up)]"

text \<open>A statement of the loop: it goes on or stops with an exception.\<close>

type_synonym statement = "edge \<Rightarrow> (crash, unit) result \<times> edge"

definition followed_by :: "statement \<Rightarrow> statement \<Rightarrow> statement" where
  "followed_by a b e = (case a e of (Inl x, e) \<Rightarrow> (Err x, e) | (Inr _, e) \<Rightarrow> b e)"

definition assign :: "(edge \<Rightarrow> edge) \<Rightarrow> statement" where
  "assign g e = (Ok (), g e)"

definition send_bytes ::
  "dumps \<Rightarrow> loads \<Rightarrow> edge_packet_type \<Rightarrow> bytes \<Rightarrow> camera_frame \<Rightarrow> nat \<Rightarrow> statement" where
  "send_bytes dumps loads ty pl f k e =
     (case send_packet dumps loads ty pl (c_ns f) (c_network f k) (link_of e) of
        (Inl x, s) \<Rightarrow> (Err x, e\<lparr>link_of := s\<rparr>) | (Inr _, s) \<Rightarrow> (Ok (), e\<lparr>link_of := s\<rparr>))"

definition see :: "edge_args \<Rightarrow> camera_frame \<Rightarrow> statement" where
  "see args f = assign (\<lambda>e. let v = update (c_ns f) (c_detections f) (gate e) in
     e\<lparr>gate := v, frame_sequence := frame_sequence e + 1,
       alert := (if a_has_lcd args then confirmed (state v) else alert e)\<rparr>)"

definition send_frame :: "dumps \<Rightarrow> loads \<Rightarrow> edge_args \<Rightarrow> camera_frame \<Rightarrow> statement" where
  "send_frame dumps loads args f e =
     (case edge_frame_payload dumps (frame_metadata args (frame_sequence e) f) (c_jpeg f) of
        Inl x \<Rightarrow> (Err PackError, e) | Inr pl \<Rightarrow> send_bytes dumps loads E_FRAME pl f 0 e)"

definition send_detections :: "dumps \<Rightarrow> loads \<Rightarrow> camera_frame \<Rightarrow> statement" where
  "send_detections dumps loads f e =
     send_bytes dumps loads E_DETECTIONS (dumps (detections_payload (frame_sequence e) f)) f 1 e"

definition report_change :: "dumps \<Rightarrow> loads \<Rightarrow> string \<Rightarrow> camera_frame \<Rightarrow> statement" where
  "report_change dumps loads i f e = (let s = state (gate e) in
     if fire_state.hazard_state s = last_state e then (Ok (), e)
     else followed_by (assign (\<lambda>e. e\<lparr>local_log := local_log e @ [state_entry i s f]\<rparr>))
       (followed_by (send_bytes dumps loads E_INCIDENT_TIMELINE_EVENT (dumps (timeline_payload i s)) f 3)
         (assign (\<lambda>e. e\<lparr>last_state := fire_state.hazard_state s\<rparr>))) e)"

definition report_incident :: "dumps \<Rightarrow> loads \<Rightarrow> edge_args \<Rightarrow> camera_frame \<Rightarrow> statement" where
  "report_incident dumps loads args f e = (case fire_state.incident_id (state (gate e)) of
       Some (c # cs) \<Rightarrow>
         followed_by
           (send_bytes dumps loads E_INCIDENT_UPDATE
             (dumps (update_payload args (boot e) (c # cs) (state (gate e)) f)) f 2)
           (report_change dumps loads (c # cs) f) e
     | _ \<Rightarrow> (Ok (), e))"

definition report_health :: "dumps \<Rightarrow> loads \<Rightarrow> camera_frame \<Rightarrow> statement" where
  "report_health dumps loads f e =
     (if 1 \<le> fsub (fst (c_health f)) (last_health e)
      then send_bytes dumps loads E_HEALTH_UPDATE (dumps (health_payload f)) f 4
             (e\<lparr>last_health := snd (c_health f)\<rparr>)
      else (Ok (), e))"

definition log_health :: "camera_frame \<Rightarrow> statement" where
  "log_health f e =
     (if 10 \<le> fsub (fst (c_log f)) (last_local_log e)
      then (Ok (), e\<lparr>last_local_log := snd (c_log f),
                    local_log := local_log e @ [health_entry f (link (link_of e))]\<rparr>)
      else (Ok (), e))"

text \<open>The body of the loop; \<open>None\<close> is a camera or detector that fails.\<close>

definition frame_step :: "dumps \<Rightarrow> loads \<Rightarrow> edge_args \<Rightarrow> camera_frame option \<Rightarrow> statement" where
  "frame_step dumps loads args input e = (case input of
       None \<Rightarrow> (Err CameraFailed, e)
     | Some f \<Rightarrow>
         followed_by (see args f)
           (followed_by (send_frame dumps loads args f)
             (followed_by (send_detections dumps loads f)
               (followed_by (report_incident dumps loads args f)
                 (followed_by (report_health dumps loads f) (log_health f))))) e)"

fun frames_loop :: "dumps \<Rightarrow> loads \<Rightarrow> edge_args \<Rightarrow> camera_frame option list \<Rightarrow> statement" where
  "frames_loop dumps loads args [] = (\<lambda>e. (Ok (), e))"
| "frames_loop dumps loads args (f # fs) = followed_by (frame_step dumps loads args f) (frames_loop dumps loads args fs)"

text \<open>
  \<^verbatim>\<open>run\<close>: no token is an exit; otherwise a first attempt to connect and the loop; the
  connection is closed however the loop ends.
\<close>

definition edge_loop ::
  "dumps \<Rightarrow> loads \<Rightarrow> edge_args \<Rightarrow> string \<Rightarrow> string \<Rightarrow> network \<Rightarrow> camera_frame option list
   \<Rightarrow> (crash, unit) result \<times> edge" where
  "edge_loop dumps loads args tok bid net fs =
     (let e = new_edge args tok bid in case connect dumps loads net (link_of e) of
        (Inl x, s) \<Rightarrow> (Err x, e\<lparr>link_of := s\<rparr>)
      | (Inr _, s) \<Rightarrow> frames_loop dumps loads args fs (e\<lparr>link_of := s\<rparr>))"

definition run_edge ::
  "dumps \<Rightarrow> loads \<Rightarrow> edge_args \<Rightarrow> string \<Rightarrow> string \<Rightarrow> network \<Rightarrow> camera_frame option list
   \<Rightarrow> ((crash, unit) result \<times> edge) option" where
  "run_edge dumps loads args tok bid net fs =
     (if tok = [] then None
      else case edge_loop dumps loads args tok bid net fs of
        (r, e) \<Rightarrow> Some (r, e\<lparr>link_of := close_stream (link_of e)\<rparr>))"

section \<open>The packets on the link\<close>

definition link_ok :: "stream \<Rightarrow> bool" where
  "link_ok s \<longleftrightarrow> (link s \<longrightarrow> encodes edge_encode_packet (last_sent s) (wire s)
     \<and> sorted_wrt (<) (map msg_seq (last_sent s)) \<and> (\<forall>m \<in> set (last_sent s). msg_seq m < next_sequence s)
     \<and> last_sent s \<noteq> [] \<and> fst (hd (last_sent s)) = E_HELLO \<and> (\<forall>m \<in> set (tl (last_sent s)). fst m \<noteq> E_HELLO))"

lemma link_ok_closed [simp]: "\<not> link s \<Longrightarrow> link_ok s"
  by (simp add: link_ok_def)

lemma link_ok_connect: "link_ok s \<Longrightarrow> \<not> link s \<Longrightarrow> link_ok (snd (connect dumps loads net s))"
  by (auto simp: connect_def next_packet_def connect_failed_def close_stream_def link_ok_def msg_seq_def
      hello_payload_def split: dial.split sum.split prod.split connection_error.split)

lemma link_ok_send_on_link:
  assumes "link_ok s" and "link s" and "ty \<noteq> E_HELLO"
  shows "link_ok (snd (send_on_link ty pl ns net s))"
proof (cases "edge_encode_packet ty pl (next_sequence s) ns")
  case (Inl e)
  with assms show ?thesis by (simp add: send_on_link_def next_packet_def)
next
  case (Inr bs)
  have "link_ok (s\<lparr>next_sequence := next_sequence s + 1, wire := wire s @ [bs],
      last_sent := last_sent s @ [(ty, pl, next_sequence s, ns)]\<rparr>)"
    using assms encodes_snoc [where enc = edge_encode_packet, OF _ Inr, of "last_sent s" "wire s"]
    by (auto simp: link_ok_def sorted_wrt_append msg_seq_def)
  with Inr show ?thesis
    by (auto simp: send_on_link_def next_packet_def close_stream_def split: transfer.split)
qed

lemma connect_link: "connect dumps loads net s = (Inr True, s') \<Longrightarrow> link s'"
  by (auto simp: connect_def next_packet_def split: if_splits dial.splits sum.splits prod.splits connection_error.splits)

lemma link_ok_send_packet:
  assumes "link_ok s" and "ty \<noteq> E_HELLO"
  shows "link_ok (snd (send_packet dumps loads ty pl ns net s))"
proof (cases "link s")
  case True
  with assms link_ok_send_on_link show ?thesis by (simp add: send_packet_def)
next
  case False
  from link_ok_connect [OF assms(1) False] have
    "connect dumps loads net s = (r, s') \<Longrightarrow> link_ok s'" for r s' by (metis snd_conv)
  with False link_ok_send_on_link [OF _ connect_link assms(2)] show ?thesis
    by (auto simp: send_packet_def split: sum.split prod.split)
qed

text \<open>A property of the state every statement keeps is kept by the loop.\<close>

definition keeps_true :: "(edge \<Rightarrow> bool) \<Rightarrow> statement \<Rightarrow> bool" where
  "keeps_true P a \<longleftrightarrow> (\<forall>e. P e \<longrightarrow> P (snd (a e)))"

lemma keeps_true_followed: "keeps_true P a \<Longrightarrow> keeps_true P b \<Longrightarrow> keeps_true P (followed_by a b)"
  by (auto simp: keeps_true_def followed_by_def split: sum.split prod.split)

lemma keeps_true_loop:
  "(\<And>f. keeps_true P (frame_step dumps loads args f)) \<Longrightarrow> keeps_true P (frames_loop dumps loads args fs)"
  by (induction fs) (auto intro: keeps_true_followed simp: keeps_true_def [of P "\<lambda>e. (Inr (), e)"])

lemma keeps_true_frame_step:
  assumes "\<And>f. keeps_true P (see args f)" "\<And>f. keeps_true P (send_frame dumps loads args f)"
    "\<And>f. keeps_true P (send_detections dumps loads f)" "\<And>f. keeps_true P (report_incident dumps loads args f)"
    "\<And>f. keeps_true P (report_health dumps loads f)" "\<And>f. keeps_true P (log_health f)"
  shows "keeps_true P (frame_step dumps loads args input)"
proof (cases input)
  case None
  then show ?thesis by (simp add: keeps_true_def frame_step_def)
next
  case (Some f)
  have "keeps_true P (followed_by (see args f) (followed_by (send_frame dumps loads args f)
      (followed_by (send_detections dumps loads f) (followed_by (report_incident dumps loads args f)
        (followed_by (report_health dumps loads f) (log_health f))))))"
    by (intro keeps_true_followed assms)
  then show ?thesis by (simp add: Some frame_step_def keeps_true_def)
qed

definition edge_link_ok :: "edge \<Rightarrow> bool" where
  "edge_link_ok e \<longleftrightarrow> link_ok (link_of e)"

lemma edge_link_ok_frames [simp]:
  "edge_link_ok (e\<lparr>gate := v\<rparr>) = edge_link_ok e" "edge_link_ok (e\<lparr>last_health := x\<rparr>) = edge_link_ok e"
  "edge_link_ok (e\<lparr>local_log := l\<rparr>) = edge_link_ok e" "edge_link_ok (e\<lparr>last_state := h\<rparr>) = edge_link_ok e"
  "edge_link_ok (e\<lparr>last_local_log := x\<rparr>) = edge_link_ok e"
  "edge_link_ok (e\<lparr>last_local_log := x, local_log := l\<rparr>) = edge_link_ok e"
  "edge_link_ok (e\<lparr>gate := v, frame_sequence := n, alert := a\<rparr>) = edge_link_ok e"
  "edge_link_ok (e\<lparr>link_of := s\<rparr>) = link_ok s"
  by (simp_all add: edge_link_ok_def)

lemma send_bytes_link_ok:
  assumes "ty \<noteq> E_HELLO"
  shows "keeps_true edge_link_ok (send_bytes dumps loads ty pl f k)"
  unfolding keeps_true_def
proof (intro allI impI)
  fix e assume "edge_link_ok e"
  then have "link_ok (snd (send_packet dumps loads ty pl (c_ns f) (c_network f k) (link_of e)))"
    using assms by (simp add: edge_link_ok_def link_ok_send_packet)
  then show "edge_link_ok (snd (send_bytes dumps loads ty pl f k e))"
    by (auto simp: send_bytes_def split: sum.split prod.split)
qed

lemma assign_link_ok: "(\<And>e. edge_link_ok (g e) = edge_link_ok e) \<Longrightarrow> keeps_true edge_link_ok (assign g)"
  by (simp add: keeps_true_def assign_def)

lemma report_change_link_ok: "keeps_true edge_link_ok (report_change dumps loads i f)"
proof -
  have "keeps_true edge_link_ok (followed_by (assign (\<lambda>e. e\<lparr>local_log := local_log e @ [x]\<rparr>))
      (followed_by (send_bytes dumps loads E_INCIDENT_TIMELINE_EVENT pl f 3) (assign (\<lambda>e. e\<lparr>last_state := h\<rparr>))))"
    for x pl h
    by (intro keeps_true_followed send_bytes_link_ok assign_link_ok) simp_all
  then show ?thesis by (auto simp: keeps_true_def report_change_def Let_def)
qed

lemma frame_step_link_ok: "keeps_true edge_link_ok (frame_step dumps loads args input)"
proof (rule keeps_true_frame_step)
  note sends = send_bytes_link_ok [unfolded keeps_true_def, rule_format]
  fix f
  show "keeps_true edge_link_ok (see args f)"
    by (auto simp: see_def Let_def intro: assign_link_ok)
  show "keeps_true edge_link_ok (send_frame dumps loads args f)"
    by (auto simp: keeps_true_def send_frame_def sends split: sum.split)
  show "keeps_true edge_link_ok (send_detections dumps loads f)"
    by (auto simp: keeps_true_def send_detections_def sends)
  have "keeps_true edge_link_ok (followed_by (send_bytes dumps loads E_INCIDENT_UPDATE pl f 2)
      (report_change dumps loads i f))" for pl i
    by (intro keeps_true_followed send_bytes_link_ok report_change_link_ok) simp
  then show "keeps_true edge_link_ok (report_incident dumps loads args f)"
    by (auto simp: keeps_true_def report_incident_def split: option.split list.split)
  show "keeps_true edge_link_ok (report_health dumps loads f)"
    by (auto simp: keeps_true_def report_health_def sends)
  show "keeps_true edge_link_ok (log_health f)"
    by (auto simp: keeps_true_def log_health_def)
qed

lemma edge_loop_link_ok: "link_ok (link_of (snd (edge_loop dumps loads args tok bid net fs)))"
proof -
  let ?e = "new_edge args tok bid"
  have "link_ok (snd (connect dumps loads net (link_of ?e)))"
    by (rule link_ok_connect) (simp_all add: new_edge_def new_stream_def)
  then have c: "connect dumps loads net (link_of ?e) = (r, s) \<Longrightarrow> edge_link_ok (?e\<lparr>link_of := s\<rparr>)" for r s
    by simp
  have "edge_link_ok (snd (frames_loop dumps loads args fs e))" if "edge_link_ok e" for e
    using keeps_true_loop [OF frame_step_link_ok, of dumps loads args fs] that by (simp add: keeps_true_def)
  with c have "edge_link_ok (snd (edge_loop dumps loads args tok bid net fs))"
    by (auto simp: edge_loop_def Let_def split: sum.split prod.split)
  then show ?thesis by (simp add: edge_link_ok_def)
qed

section \<open>The values in an update\<close>

definition unit_confidence :: "detection \<Rightarrow> bool" where
  "unit_confidence d \<longleftrightarrow> 0 \<le> confidence d \<and> confidence d \<le> 1"

definition gate_ok :: "int \<Rightarrow> verifier \<Rightarrow> bool" where
  "gate_ok t v \<longleftrightarrow> 0 \<le> first_detection_ns (state v) \<and> first_detection_ns (state v) \<le> t
     \<and> 0 \<le> fire_state.seconds_persistent (state v)
     \<and> 0 \<le> fire_confidence (state v) \<and> fire_confidence (state v) \<le> 1
     \<and> 0 \<le> smoke_confidence (state v) \<and> smoke_confidence (state v) \<le> 1"

lemma class_max_unit:
  assumes "\<forall>d \<in> set dets. unit_confidence d"
  shows "0 \<le> class_max c dets" and "class_max c dets \<le> 1"
proof -
  let ?xs = "[confidence d. d \<leftarrow> dets, class_name d = c]"
  have "\<forall>x \<in> set ?xs. 0 \<le> x \<and> x \<le> 1" using assms by (auto simp: unit_confidence_def)
  moreover have "max_default 0 xs \<in> insert 0 (set xs)" for xs :: "rat list"
    using max_default_mem [of xs 0] by (cases "xs = []") auto
  then have "max_default 0 ?xs \<in> insert 0 (set ?xs)" .
  ultimately have "0 \<le> max_default 0 ?xs \<and> max_default 0 ?xs \<le> 1" by auto
  then show "0 \<le> class_max c dets" "class_max c dets \<le> 1" by (simp_all add: class_max_def)
qed

lemma gate_ok_states:
  "gate_ok t (v\<lparr>window := w\<rparr>) = gate_ok t v" "gate_ok t (v\<lparr>counter := n\<rparr>) = gate_ok t v"
  "gate_ok t (v\<lparr>state := (state v)\<lparr>last_relevant_ns := x\<rparr>\<rparr>) = gate_ok t v"
  "gate_ok t (v\<lparr>state := (state v)\<lparr>fire_state.hazard_state := h\<rparr>\<rparr>) = gate_ok t v"
  by (simp_all add: gate_ok_def)

lemma gate_ok_later: "gate_ok t v \<Longrightarrow> t \<le> t' \<Longrightarrow> gate_ok t' v"
  by (simp add: gate_ok_def)

lemma gate_ok_observe: "gate_ok t v \<Longrightarrow> \<forall>d \<in> set dets. unit_confidence d \<Longrightarrow> gate_ok t (observe dets v)"
  using class_max_unit [of dets] by (simp add: gate_ok_def observe_def)

lemma gate_ok_open: "gate_ok t v \<Longrightarrow> 0 \<le> t \<Longrightarrow> gate_ok t (open_incident t v)"
  by (simp add: gate_ok_def open_incident_def Let_def)

lemma gate_ok_advance: "gate_ok t v \<Longrightarrow> gate_ok t (advance t v)"
  by (simp add: gate_ok_def advance_def Let_def fdiv_def fl_nonneg)

lemma gate_ok_missing: "gate_ok t v \<Longrightarrow> 0 \<le> t \<Longrightarrow> gate_ok t (missing t v)"
  by (simp add: gate_ok_def missing_def Let_def fire_state0_def)

lemma gate_ok_update:
  assumes "gate_ok t v" and "t \<le> t'" and "0 \<le> t" and "\<forall>d \<in> set dets. unit_confidence d"
  shows "gate_ok t' (update t' dets v)"
  using gate_ok_observe [OF gate_ok_later [OF assms(1,2)] assms(4)] assms(2,3)
  by (simp add: update_def Let_def gate_ok_missing gate_ok_advance gate_ok_open gate_ok_states)

lemma gate_ok_run:
  assumes "gate_ok t v" and "0 \<le> t" and "sorted (t # map fst es)"
    and "\<forall>f \<in> set es. \<forall>d \<in> set (snd f). unit_confidence d"
  shows "gate_ok (last (t # map fst es)) (run es v)"
  using assms
proof (induction es arbitrary: t v)
  case (Cons f es)
  have "gate_ok (fst f) (step f v)"
    using Cons.prems by (auto simp: Verifier.step_def intro: gate_ok_update)
  from Cons.IH [OF this] Cons.prems show ?case by auto
qed simp

lemma gate_ok_default: "gate_ok 0 (default_verifier dev bid)"
  by (simp add: gate_ok_def default_verifier_def fire_verifier_def fire_state0_def)

lemma primary_box_numbers: "\<exists>b. optional numbers (primary_box dets c) = Some b"
  by (auto simp: primary_box_def optional_def split: list.split prod.split)

text \<open>The update a typed payload stands for.\<close>

lemma update_payload_typed:
  assumes "gate_ok (c_ns f) v" and "0 \<le> c_ns f" and "i \<noteq> []" and "length i \<le> 160"
    and "length (a_device args) \<le> 80" and "length bid \<le> 80"
  shows "\<exists>u. incident_update_of (update_payload args bid i (state v) f) = Some u \<and> u_incident_id u = i
    \<and> u_hazard_state u = fire_state.hazard_state (state v)
    \<and> u_response_state u = (if confirmed (state v) then AWAITING_RESPONSE else IDLE)
    \<and> u_fire_confidence u = fire_confidence (state v) \<and> u_smoke_confidence u = smoke_confidence (state v)
    \<and> u_seconds_persistent u = fire_state.seconds_persistent (state v)
    \<and> u_first_detection_monotonic_ns u = first_detection_ns (state v) \<and> u_updated_monotonic_ns u = c_ns f"
proof -
  obtain b1 b2 where b: "optional numbers (primary_box (c_detections f) ''fire'') = Some b1"
    "optional numbers (primary_box (c_detections f) ''smoke'') = Some b2"
    using primary_box_numbers by metis
  have r: "response_state_of ''AWAITING_RESPONSE'' = Some AWAITING_RESPONSE" "response_state_of ''IDLE'' = Some IDLE"
    by code_simp+
  have "1 \<le> length i" using assms(3) by (simp add: Suc_le_eq)
  then show ?thesis
    using assms b r
    by (simp add: incident_update_of_def update_payload_def field_or_def number_where_def optional_def
        gate_ok_def)
qed

section \<open>Properties\<close>

text \<open>
  C12. What the edge writes on a connection, the backend understands: after any number of frames,
  network failures and reconnects, the bytes written on the connection that is up, cut into
  any chunks that respect the parser's buffer, are parsed as exactly the packets sent on it,
  beginning with the one HELLO and with increasing sequence numbers.
\<close>

theorem edge_link_understood:
  assumes "edge_loop dumps loads args tok bid net fs = (r, e)" and "link (link_of e)"
    and "ms = last_sent (link_of e)" and "payloads_within L m ms"
    and "concat cs = concat (wire (link_of e))" and "cs \<noteq> []" and "chunks_within L m cs"
  shows "feed_all cs (new_parser m) = (Ok (delivered edge_type ms), new_parser m)
       \<and> sorted_wrt (<) (map sequence (delivered edge_type ms))
       \<and> (\<exists>k ks. delivered edge_type ms = k # ks \<and> packet_type k = HELLO
            \<and> (\<forall>k' \<in> set ks. packet_type k' \<noteq> HELLO))"
proof -
  from edge_loop_link_ok [of dumps loads args tok bid net fs] assms(1-3)
  have ok: "encodes edge_encode_packet ms (wire (link_of e))" "sorted_wrt (<) (map msg_seq ms)"
    "ms \<noteq> []" "fst (hd ms) = E_HELLO" "\<forall>m \<in> set (tl ms). fst m \<noteq> E_HELLO"
    by (simp_all add: link_ok_def)
  from ok(3-5) have "\<exists>k ks. delivered edge_type ms = k # ks \<and> packet_type k = HELLO
      \<and> (\<forall>k' \<in> set ks. packet_type k' \<noteq> HELLO)"
  proof (cases ms)
    case (Cons a as)
    have "edge_type t = HELLO \<longleftrightarrow> t = E_HELLO" for t by (cases t) auto
    with Cons ok(4,5) show ?thesis by (cases a) (auto simp: delivered_def frame_of_def)
  qed simp
  then show ?thesis using edge_codec.feed_stream [OF ok(1) assms(4,7,5,6)] ok(2) by (simp add: delivered_sequences)
qed

definition demo_ack :: bytes where
  "demo_ack = (case encode_packet HELLO_ACK [] 1 7 0 of Inl e \<Rightarrow> [] | Inr bs \<Rightarrow> bs)"

definition demo_network :: network where
  "demo_network = \<lparr>now = 0, hello_ns = 5, dialled = Answers [take 3 demo_ack, drop 3 demo_ack],
     failed_at = 0, transferred = Sent\<rparr>"

definition demo_args :: edge_args where
  "demo_args = \<lparr>a_device = ''d'', a_jpeg_quality = 75, a_has_lcd = True\<rparr>"

definition demo_edge :: "camera_frame option list \<Rightarrow> (crash, unit) result \<times> edge" where
  "demo_edge fs = edge_loop (\<lambda>_. []) toy_loads demo_args ''t'' ''b'' demo_network fs"

lemma demo_edge_connected:
  "link (link_of (snd (demo_edge []))) \<and> last_sent (link_of (snd (demo_edge []))) = [(E_HELLO, [], 1, 5)]"
  by code_simp

theorem edge_link_understood_witness:
  "feed_all (wire (link_of (snd (demo_edge [])))) (new_parser 100)
     = (Ok (delivered edge_type [(E_HELLO, [], 1, 5)]), new_parser 100)"
proof -
  let ?e = "snd (demo_edge [])"
  have r: "edge_loop (\<lambda>_. []) toy_loads demo_args ''t'' ''b'' demo_network [] = (fst (demo_edge []), ?e)"
    by (simp add: demo_edge_def)
  have "map length (wire (link_of ?e)) = [32]" by code_simp
  then have "wire (link_of ?e) \<noteq> []" "chunks_within 0 100 (wire (link_of ?e))"
    by (auto simp: chunks_within_def HEADER_SIZE_def)
  with edge_link_understood [OF r, where L = 0 and m = 100 and cs = "wire (link_of ?e)"
      and ms = "[(E_HELLO, [], 1, 5)]"] demo_edge_connected
  show ?thesis by (simp add: payloads_within_def demo_edge_def)
qed

text \<open>
  C30. The incident updates of the edge are well-typed for the backend: over any frames with
  confidences in the unit interval and a clock that does not run backwards, the payload for
  an open incident is accepted by the backend's message model, as an update with the
  incident's id, hazard state and confidences, which awaits a response exactly when the
  incident is confirmed.
\<close>

theorem edge_updates_typed:
  assumes "v = run es (default_verifier (a_device args) bid)" and "fire_state.incident_id (state v) = Some i"
    and "i \<noteq> []" "length i \<le> 160" "length (a_device args) \<le> 80" "length bid \<le> 80"
    and "sorted (0 # map fst es)" and "\<forall>f \<in> set es. \<forall>d \<in> set (snd f). unit_confidence d"
    and "c_ns f = last (0 # map fst es)"
  shows "\<exists>u. incident_update_of (update_payload args bid i (state v) f) = Some u \<and> u_incident_id u = i
       \<and> u_hazard_state u = fire_state.hazard_state (state v)
       \<and> u_response_state u = (if confirmed (state v) then AWAITING_RESPONSE else IDLE)
       \<and> u_fire_confidence u = fire_confidence (state v) \<and> u_smoke_confidence u = smoke_confidence (state v)"
proof -
  have g: "gate_ok (c_ns f) v"
    unfolding assms(1,9) by (rule gate_ok_run [OF gate_ok_default _ assms(7,8)]) simp
  have "0 \<le> c_ns f" using assms(7) unfolding assms(9) by (cases "es = []") (auto simp: last_map)
  from update_payload_typed [OF g this assms(3-6)] show ?thesis by blast
qed

definition demo_fire :: detection where
  "demo_fire = \<lparr>class_name = ''fire'', class_id = 0, confidence = 9/10, bbox = (0, 0, 1, 1)\<rparr>"

definition demo_frame :: "int \<Rightarrow> detection list \<Rightarrow> camera_frame" where
  "demo_frame t dets = \<lparr>c_ns = t, c_detections = dets, c_inference_ms = 0, c_jpeg = [],
     c_width = 1, c_height = 1, c_unix = 0, c_unix_late = 0, c_health = (0, 0), c_log = (0, 0),
     c_network = (\<lambda>_. demo_network)\<rparr>"

theorem edge_updates_typed_witness:
  "\<exists>u. incident_update_of (update_payload demo_args ''b'' ''d-b-1''
       (state (run [(5, [demo_fire])] (default_verifier ''d'' ''b''))) (demo_frame 5 [demo_fire])) = Some u
     \<and> u_incident_id u = ''d-b-1''"
proof -
  have i: "fire_state.incident_id (state (run [(5, [demo_fire])] (default_verifier (a_device demo_args) ''b'')))
      = Some ''d-b-1''"
    by code_simp
  from edge_updates_typed [OF refl i, of "demo_frame 5 [demo_fire]"] show ?thesis
    by (simp add: demo_frame_def demo_args_def demo_fire_def unit_confidence_def) blast
qed

text \<open>
  A second suspicion goes unreported: a suspected incident that clears by itself leaves
  \<open>last_state\<close> at SUSPECTED, so when a second incident opens, its first state is not written
  to the local log, although the verifier has counted two incidents.
\<close>

definition offline :: "int \<Rightarrow> detection list \<Rightarrow> camera_frame" where
  "offline t dets = (demo_frame t dets)\<lparr>c_network := (\<lambda>_. demo_network\<lparr>dialled := Refused ''no route''\<rparr>)\<rparr>"

theorem second_suspicion_unlogged:
  "(let e = snd (edge_loop (\<lambda>_. []) toy_loads demo_args ''t'' ''b'' (demo_network\<lparr>dialled := Refused ''no route''\<rparr>)
          [Some (offline 1000000000 [demo_fire]), Some (offline 7000000000 []),
           Some (offline 8000000000 [demo_fire])])
    in counter (gate e) = 2 \<and> fire_state.hazard_state (state (gate e)) = SUSPECTED
     \<and> map (\<lambda>d. get d ''incident_id'') (local_log e) = [Some (JStr ''d-b-1'')])"
  by code_simp

end
