(* ===== verification/Camera.thy ===== *)
theory Camera
  imports Frames Text
begin

text \<open>
  \<^verbatim>\<open>Camera.read\<close> of \<^verbatim>\<open>src/poc/pi/ignis_poc/edge.py\<close> on the pipe of the QNX helper: a header
  line with the frame's width and height, then the bytes of the frame, read piece by piece. The
  pipe is the list of the pieces it delivers. What the program makes of the bytes, and the other camera
  sources, are in theory \<open>Helpers\<close>.
\<close>

datatype camera_error = HelperStopped | BadFrameHeader | BadNumber | FrameEnded

text \<open>\<open>readline\<close>: up to and including the first line feed, or to the end.\<close>

fun read_line :: "bytes list \<Rightarrow> bytes \<times> bytes list" where
  "read_line [] = ([], [])"
| "read_line (c # cs) =
     (if 10 \<in> set c
      then (let l = takeWhile (\<lambda>b. b \<noteq> 10) c @ [10]; rest = drop (length l) c
            in (l, if rest = [] then cs else rest # cs))
      else (case read_line cs of (l, cs) \<Rightarrow> (c @ l, cs)))"

text \<open>
  \<open>decode("ascii", errors="replace")\<close>: the replacement character is outside the characters of
  the model; the one that stands for it is neither a space nor a digit.
\<close>

definition ascii_text :: "bytes \<Rightarrow> string" where
  "ascii_text bs = map (\<lambda>b. if unat b < 128 then char_of (unat b) else char_of (191 :: nat)) bs"

text \<open>\<open>split()\<close> without a separator.\<close>

function py_words :: "string \<Rightarrow> string list" where
  "py_words s = (case dropWhile is_space s of
       [] \<Rightarrow> []
     | c # cs \<Rightarrow> takeWhile (\<lambda>c. \<not> is_space c) (c # cs) # py_words (dropWhile (\<lambda>c. \<not> is_space c) (c # cs)))"
  by pat_completeness auto
termination
proof (relation "measure length")
  fix s c cs assume d: "dropWhile is_space s = c # cs"
  then have "\<not> is_space c" using hd_dropWhile [of is_space s] by simp
  moreover have "length (dropWhile (\<lambda>c. \<not> is_space c) cs) \<le> length cs" by (rule length_dropWhile_bound)
  moreover have "length (c # cs) \<le> length s" using length_dropWhile_bound [of is_space s] d by simp
  ultimately show "(dropWhile (\<lambda>c. \<not> is_space c) (c # cs), s) \<in> measure length" by simp
qed simp

declare py_words.simps [simp del]

definition capture_frame :: "bytes list \<Rightarrow> (camera_error, int \<times> int \<times> bytes) result \<times> bytes list" where
  "capture_frame pipe = (case read_line pipe of (header, pipe) \<Rightarrow>
     if header = [] then (Err HelperStopped, pipe)
     else case py_words (strip (ascii_text header)) of
       [magic, a, b] \<Rightarrow>
         if magic \<noteq> ''IGNISNV12'' then (Err BadFrameHeader, pipe)
         else (case (int_of_text a, int_of_text b) of
             (Some width, Some height) \<Rightarrow>
               (case receive_exact pipe (nat (width * height * 3 div 2)) [] of
                  (Inl e, pipe) \<Rightarrow> (Err FrameEnded, pipe)
                | (Inr raw, pipe) \<Rightarrow> (Ok (width, height, raw), pipe))
           | _ \<Rightarrow> (Err BadNumber, pipe))
     | _ \<Rightarrow> (Err BadFrameHeader, pipe))"

section \<open>Facts\<close>

lemma takeWhile_stop: "z \<notin> set l \<Longrightarrow> takeWhile (\<lambda>b. b \<noteq> z) (l @ z # r) = l"
  by (induction l) auto

lemma read_line_bytes:
  assumes "10 \<notin> set l" and "concat pipe = l @ [10] @ rest" and "[] \<notin> set pipe"
  shows "\<exists>pipe'. read_line pipe = (l @ [10], pipe') \<and> concat pipe' = rest \<and> [] \<notin> set pipe'"
  using assms
proof (induction pipe arbitrary: l)
  case (Cons c cs)
  show ?case
  proof (cases "10 \<in> set c")
    case True
    then obtain x y where c: "c = x @ 10 # y" "10 \<notin> set x" by (meson split_list_first)
    with Cons.prems(2) have e: "x @ 10 # (y @ concat cs) = l @ 10 # rest" by simp
    from arg_cong [OF e, of "takeWhile (\<lambda>b. b \<noteq> 10)"] have "l = x"
      unfolding takeWhile_stop [OF c(2)] takeWhile_stop [OF Cons.prems(1)] by simp
    with e have "concat (y # cs) = rest" by simp
    moreover have "takeWhile (\<lambda>b. b \<noteq> 10) c = x" unfolding c(1) by (rule takeWhile_stop [OF c(2)])
    ultimately show ?thesis using \<open>l = x\<close> c Cons.prems(3) by (auto simp: Let_def)
  next
    case False
    from Cons.prems(2) have "c @ concat cs = l @ [10] @ rest" by simp
    with False obtain l' where "l = c @ l'" "concat cs = l' @ [10] @ rest"
      by (auto simp: append_eq_append_conv2 append_eq_Cons_conv Cons_eq_append_conv)
    with Cons.IH [of l'] Cons.prems False show ?thesis by auto
  qed
qed simp

definition text_bytes :: "string \<Rightarrow> bytes" where
  "text_bytes s = map (\<lambda>c. word_of_nat (of_char c)) s"

definition helper_frame :: "int \<Rightarrow> int \<Rightarrow> bytes \<Rightarrow> bytes" where
  "helper_frame width height raw =
     text_bytes (''IGNISNV12 '' @ str_int width @ '' '' @ str_int height) @ [10] @ raw"

lemma takeWhile_word:
  "list_all (\<lambda>c. \<not> is_space c) w \<Longrightarrow> is_space b \<Longrightarrow> takeWhile (\<lambda>c. \<not> is_space c) (w @ b # r) = w"
  "list_all (\<lambda>c. \<not> is_space c) w \<Longrightarrow> is_space b \<Longrightarrow> dropWhile (\<lambda>c. \<not> is_space c) (w @ b # r) = b # r"
  by (induction w) auto

lemma py_words_word:
  assumes "w \<noteq> []" and "list_all (\<lambda>c. \<not> is_space c) w" and "is_space b"
  shows "py_words (w @ b # r) = w # py_words r"
proof -
  obtain c cs where w: "w = c # cs" "\<not> is_space c" using assms by (cases w) auto
  have "py_words (w @ b # r) = w # py_words (b # r)"
    using w takeWhile_word [OF assms(2,3), of r] by (subst py_words.simps) simp
  also have "py_words (b # r) = py_words r"
    using assms(3) by (subst (1 2) py_words.simps) simp
  finally show ?thesis .
qed

lemma py_words_last:
  assumes "w \<noteq> []" and "list_all (\<lambda>c. \<not> is_space c) w"
  shows "py_words w = [w]"
proof -
  obtain c cs where w: "w = c # cs" "\<not> is_space c" using assms by (cases w) auto
  have "takeWhile (\<lambda>c. \<not> is_space c) w = w" "dropWhile (\<lambda>c. \<not> is_space c) w = []"
    using assms(2) by (simp_all add: takeWhile_eq_all_conv dropWhile_eq_Nil_conv list_all_iff)
  moreover have "py_words w = takeWhile (\<lambda>c. \<not> is_space c) w # py_words (dropWhile (\<lambda>c. \<not> is_space c) w)"
    using w by (subst py_words.simps) simp
  moreover have "py_words [] = []" by (subst py_words.simps) simp
  ultimately show ?thesis by metis
qed

lemma str_int_word: "0 \<le> i \<Longrightarrow> str_int i \<noteq> [] \<and> list_all (\<lambda>c. \<not> is_space c) (str_int i)
  \<and> list_all is_digit (str_int i)"
  by (auto simp: str_int_def list_all_iff dest: str_nat_digits digit_not_space)

lemma ascii_text_bytes: "list_all (\<lambda>c. of_char c < (128 :: nat)) s \<Longrightarrow> ascii_text (text_bytes s) = s"
  by (induction s) (auto simp: ascii_text_def text_bytes_def unsigned_of_nat take_bit_nat_eq_self)

lemma header_chars:
  assumes "0 \<le> width" and "0 \<le> height"
  shows "list_all (\<lambda>c. of_char c < (128 :: nat)) (''IGNISNV12 '' @ str_int width @ '' '' @ str_int height)"
proof -
  have "list_all (\<lambda>c. of_char c < (128 :: nat)) (str_int i)" if "0 \<le> i" for i
    using str_int_word [OF that] by (auto simp: list_all_iff is_digit_def between_def)
  with assms show ?thesis by simp
qed

lemma header_line:
  assumes "0 \<le> width" and "0 \<le> height"
  shows "py_words (strip (ascii_text (text_bytes (''IGNISNV12 '' @ str_int width @ '' '' @ str_int height) @ [10])))
       = [''IGNISNV12'', str_int width, str_int height]"
proof -
  let ?w = "str_int width" and ?h = "str_int height"
  note ww = str_int_word [OF assms(1)] and hh = str_int_word [OF assms(2)]
  have t: "ascii_text (text_bytes (''IGNISNV12 '' @ ?w @ '' '' @ ?h) @ [10])
      = ''IGNISNV12'' @ CHR '' '' # ?w @ CHR '' '' # ?h @ [char_of (10 :: nat)]"
    using ascii_text_bytes [OF header_chars [OF assms]] by (simp add: ascii_text_def)
  have "strip (''IGNISNV12'' @ CHR '' '' # ?w @ CHR '' '' # ?h @ [char_of (10 :: nat)])
      = ''IGNISNV12'' @ CHR '' '' # ?w @ CHR '' '' # ?h"
  proof -
    have "dropWhile is_space (rev ?h @ r) = rev ?h @ r" for r
      using hh by (cases ?h rule: rev_cases) (auto simp: list_all_iff)
    moreover have "\<not> is_space (CHR ''I'')" "is_space (char_of (10 :: nat))" by code_simp+
    ultimately show ?thesis by (simp add: strip_def)
  qed
  moreover have "list_all (\<lambda>c. \<not> is_space c) ''IGNISNV12''" "is_space (CHR '' '')" by code_simp+
  ultimately show ?thesis
    unfolding t using ww hh py_words_word [of "''IGNISNV12''"] py_words_word [of ?w] py_words_last [of ?h]
    by simp
qed

lemma newline_free: "list_all (\<lambda>c. of_char c < (128 :: nat) \<and> of_char c \<noteq> (10 :: nat)) s \<Longrightarrow> 10 \<notin> set (text_bytes s)"
proof
  assume s: "list_all (\<lambda>c. of_char c < (128 :: nat) \<and> of_char c \<noteq> (10 :: nat)) s" and "10 \<in> set (text_bytes s)"
  then obtain c where c: "c \<in> set s" "word_of_nat (of_char c) = (10 :: 8 word)" by (auto simp: text_bytes_def)
  with s have "of_char c < (128 :: nat)" "of_char c \<noteq> (10 :: nat)" by (auto simp: list_all_iff)
  moreover from arg_cong [OF c(2), of unat] this(1) have "of_char c = (10 :: nat)"
    by (simp add: unsigned_of_nat take_bit_nat_eq_self)
  ultimately show False by simp
qed

section \<open>Properties\<close>

text \<open>
  A frame of the helper is read back: however the pipe cuts the bytes into pieces, the frame
  the helper wrote, its header line and its bytes, is returned with its width and height, and
  what follows stays in the pipe for the next frame.
\<close>

theorem captured_frame:
  assumes "0 \<le> width" and "0 \<le> height" and "length raw = nat (width * height * 3 div 2)"
    and "concat pipe = helper_frame width height raw @ rest" and "[] \<notin> set pipe"
  shows "\<exists>pipe'. capture_frame pipe = (Ok (width, height, raw), pipe') \<and> concat pipe' = rest \<and> [] \<notin> set pipe'"
proof -
  let ?l = "''IGNISNV12 '' @ str_int width @ '' '' @ str_int height"
  have "list_all (\<lambda>c. of_char c \<noteq> (10 :: nat)) (str_int i)" if "0 \<le> i" for i
    using str_int_word [OF that] by (auto simp: list_all_iff is_digit_def between_def)
  with header_chars [OF assms(1,2)] assms(1,2)
  have "list_all (\<lambda>c. of_char c < (128 :: nat) \<and> of_char c \<noteq> (10 :: nat)) ?l" unfolding list_all_iff by auto
  then have "10 \<notin> set (text_bytes ?l)" by (rule newline_free)
  from read_line_bytes [OF this, of pipe "raw @ rest"] assms(4,5) obtain pipe1 where
    l: "read_line pipe = (text_bytes ?l @ [10], pipe1)" "concat pipe1 = raw @ rest" "[] \<notin> set pipe1"
    unfolding helper_frame_def by auto
  obtain pipe2 where r: "receive_exact pipe1 (length raw) [] = (Ok raw, pipe2)" "concat pipe2 = rest" "[] \<notin> set pipe2"
    using receive_exact_segments [OF l(3,2)] by blast
  show ?thesis
    using l r header_line [OF assms(1,2)] int_of_text_str_int
    by (simp add: capture_frame_def assms(3) del: append.simps)
qed

theorem captured_frame_witness:
  "\<exists>pipe'. capture_frame [take 5 (helper_frame 2 2 [1, 2, 3, 4, 5, 6]), drop 5 (helper_frame 2 2 [1, 2, 3, 4, 5, 6])]
     = (Ok (2, 2, [1, 2, 3, 4, 5, 6]), pipe')"
proof -
  have "5 < length (helper_frame 2 2 [1, 2, 3, 4, 5, 6])" by (simp add: helper_frame_def text_bytes_def)
  then have "[] \<notin> set [take 5 (helper_frame 2 2 [1, 2, 3, 4, 5, 6]), drop 5 (helper_frame 2 2 [1, 2, 3, 4, 5, 6])]"
    by auto
  with captured_frame [of 2 2 "[1, 2, 3, 4, 5, 6]" "[take 5 (helper_frame 2 2 [1, 2, 3, 4, 5, 6]),
      drop 5 (helper_frame 2 2 [1, 2, 3, 4, 5, 6])]" "[]"]
  show ?thesis by auto
qed

end
