(* ===== verification/Helpers.thy ===== *)
theory Helpers
  imports Camera
begin

text \<open>
  The helper processes of the edge program: class \<^verbatim>\<open>LocalLcd\<close> of
  \<^verbatim>\<open>src/poc/pi/ignis_poc/lcd.py\<close>, which starts a helper for the panel, writes one logo and
  lets the panel alone, and the rest of class \<^verbatim>\<open>Camera\<close> of \<^verbatim>\<open>src/poc/pi/ignis_poc/edge.py\<close>
  (its reader of a frame is in theory \<open>Camera\<close>). A process is what \<^verbatim>\<open>subprocess.Popen\<close>
  documents of one; what the helper does at each moment, the pictures of OpenCV and the bytes
  of a canvas are arguments. The worker thread of the panel is never started, so nothing
  waits for it. The pause after the start takes no time here, but \<open>pausing_lcd\<close> is what an
  interrupt finds in it.
\<close>

section \<open>Processes\<close>

text \<open>
  What the pipe has taken, whether it is open, whether the process runs, and whether its end
  has been collected.
\<close>

record process =
  taken :: bytes
  stdin_open :: bool
  running :: bool
  reaped :: bool

definition spawned :: process where
  "spawned = \<lparr>taken = [], stdin_open = True, running = True, reaped = False\<rparr>"

text \<open>
  How a helper reacts: whether it has ended by itself, how many bytes its unbuffered pipe takes
  in one write (or an OSError), whether closing the pipe raises an OSError, and whether it ends
  in time after its input is closed and after it is asked to terminate.
\<close>

record reaction =
  has_exited :: bool
  takes :: "nat option"
  close_fails :: bool
  ends_on_close :: bool
  ends_on_terminate :: bool

definition exited_process :: "process \<Rightarrow> process" where
  "exited_process p = p\<lparr>running := False, reaped := True\<rparr>"

definition poll :: "reaction \<Rightarrow> process \<Rightarrow> process" where
  "poll r p = (if has_exited r \<or> \<not> running p then exited_process p else p)"

text \<open>\<open>wait(timeout)\<close>: whether it returned before the timeout.\<close>

definition wait_for :: "bool \<Rightarrow> process \<Rightarrow> bool \<times> process" where
  "wait_for ends p = (if ends \<or> \<not> running p then (True, exited_process p) else (False, p))"

definition kill :: "process \<Rightarrow> process" where
  "kill p = p\<lparr>running := False\<rparr>"

section \<open>The panel\<close>

text \<open>
  \<open>released\<close> are the processes the object has let go, kept for the theorems.
\<close>

record lcd =
  lcd_width :: int
  lcd_height :: int
  flash_seconds :: rat
  enabled :: bool
  alert :: bool
  stopping :: bool
  panel :: "process option"
  released :: "process list"

datatype lcd_error = HelperMissing | SpawnFailed | HelperNotRunning | HelperExited | PipeBroken

text \<open>The operations of OpenCV that draw the logo on a white canvas; colours are BGR.\<close>

datatype cv_op =
  FillPoly "(int \<times> int) list" "int \<times> int \<times> int"
| PutText string "int \<times> int" string rat "int \<times> int \<times> int" int

definition render_logo :: "cv_op list" where
  "render_logo =
     (let orange = (53, 107, 255); ink = (0, 0, 0) in
      [FillPoly [(103, 35), (153, 87), (170, 276), (36, 276), (53, 87)] orange,
       PutText ''I'' (86, 220) ''FONT_HERSHEY_DUPLEX'' (fl (29 / 10)) ink 6,
       PutText ''IGNIS'' (186, 166) ''FONT_HERSHEY_DUPLEX'' 2 ink 4,
       PutText ''VISUAL INCIDENT INTELLIGENCE'' (188, 207) ''FONT_HERSHEY_SIMPLEX'' (fl (42 / 100)) ink 1])"

definition frame_bytes :: "int \<Rightarrow> int \<Rightarrow> bytes \<Rightarrow> bytes" where
  "frame_bytes width height pixels =
     text_bytes (''IGNISBGR '' @ str_int width @ '' '' @ str_int height) @ [10] @ pixels"

definition write_frame :: "reaction \<Rightarrow> bytes \<Rightarrow> lcd \<Rightarrow> (lcd_error, unit) result \<times> lcd" where
  "write_frame r pixels l = (case panel l of
     None \<Rightarrow> (Err HelperNotRunning, l)
   | Some p \<Rightarrow>
       (let p = poll r p; l = l\<lparr>panel := Some p\<rparr> in
        if \<not> running p then (Err HelperExited, l)
        else case takes r of
            None \<Rightarrow> (Err PipeBroken, l)
          | Some n \<Rightarrow>
              (Ok (), l\<lparr>panel := Some (p\<lparr>taken := taken p
                 @ take n (frame_bytes (lcd_width l) (lcd_height l) pixels)\<rparr>)\<rparr>)))"

definition end_process :: "reaction \<Rightarrow> process \<Rightarrow> process" where
  "end_process r p =
     (let p = p\<lparr>stdin_open := False\<rparr>;
          (ended, q) = (if close_fails r then (False, p) else wait_for (ends_on_close r) p)
      in if ended then q
         else let (ended, q) = wait_for (ends_on_terminate r) q in if ended then q else kill q)"

definition stop_process :: "reaction \<Rightarrow> lcd \<Rightarrow> lcd" where
  "stop_process r l = (case panel l of
     None \<Rightarrow> l
   | Some p \<Rightarrow> l\<lparr>panel := None, released := released l @ [end_process r p]\<rparr>)"

definition disable :: "reaction \<Rightarrow> lcd \<Rightarrow> lcd" where
  "disable r l = stop_process r (l\<lparr>enabled := False, stopping := True\<rparr>)"

text \<open>
  The constructor: \<open>present\<close> tells whether the helper's file is there, \<open>starts\<close> whether it can be
  started, \<open>canvas\<close> gives the bytes of a canvas with the logo. A canvas of that size that cannot be made
  or drawn on is \<open>None\<close>: the exception comes before the \<^verbatim>\<open>try\<close> of the constructor, which then gives
  no object at all.
\<close>

definition blank_lcd :: "int \<Rightarrow> int \<Rightarrow> rat \<Rightarrow> lcd" where
  "blank_lcd width height flash = \<lparr>lcd_width = width, lcd_height = height, flash_seconds = max (1 / 4) flash,
     enabled = False, alert = False, stopping = False, panel = None, released = []\<rparr>"

type_synonym draw = "int \<Rightarrow> int \<Rightarrow> cv_op list \<Rightarrow> bytes option"

definition new_lcd :: "draw \<Rightarrow> reaction \<Rightarrow> bool \<Rightarrow> bool \<Rightarrow> int \<Rightarrow> int \<Rightarrow> rat \<Rightarrow> lcd option" where
  "new_lcd canvas r present starts width height flash = (case canvas width height render_logo of
     None \<Rightarrow> None
   | Some logo \<Rightarrow> Some
       (let l = blank_lcd width height flash in
        if \<not> present \<or> \<not> starts then disable r l
        else case write_frame r logo (l\<lparr>panel := Some spawned\<rparr>) of
            (Inl e, l) \<Rightarrow> disable r l
          | (Inr _, l) \<Rightarrow> l\<lparr>enabled := True\<rparr>))"

text \<open>The unfinished object during the half second after the start of the helper.\<close>

definition pausing_lcd :: "int \<Rightarrow> int \<Rightarrow> rat \<Rightarrow> lcd" where
  "pausing_lcd width height flash = (blank_lcd width height flash)\<lparr>panel := Some spawned\<rparr>"

definition set_alert :: "bool \<Rightarrow> lcd \<Rightarrow> lcd" where
  "set_alert confirmed l = l\<lparr>alert := confirmed\<rparr>"

definition close_lcd :: "reaction \<Rightarrow> lcd \<Rightarrow> lcd" where
  "close_lcd r l = stop_process r (l\<lparr>stopping := True\<rparr>)"

text \<open>What a program does with a panel after its construction.\<close>

datatype lcd_call = SetAlert bool | CloseLcd reaction

fun lcd_do :: "lcd_call \<Rightarrow> lcd \<Rightarrow> lcd" where
  "lcd_do (SetAlert b) l = set_alert b l"
| "lcd_do (CloseLcd r) l = close_lcd r l"

section \<open>The camera\<close>

datatype camera_source = HelperUnit string | Device int | Stream string

text \<open>\<open>str.isdigit\<close>, which also holds for the three superscript digits that \<open>int\<close> refuses.\<close>

definition is_digits :: "string \<Rightarrow> bool" where
  "is_digits s \<longleftrightarrow> s \<noteq> [] \<and> list_all (\<lambda>c. is_digit c \<or> ord c \<in> {178, 179, 185}) s"

definition source_of_text :: "string \<Rightarrow> camera_source option" where
  "source_of_text s =
     (if starts_with ''qnx:'' s then Some (HelperUnit (if drop 4 s = [] then ''1'' else drop 4 s))
      else if is_digits s then map_option Device (int_of_text s)
      else Some (Stream s))"

text \<open>The camera: a helper with its pipe, or a capture of OpenCV.\<close>

datatype feed = Helper process "bytes list" | Capture

record camera =
  cam_width :: int
  cam_height :: int
  cam_feed :: feed

datatype open_error = BadSourceNumber | CameraHelperMissing | CannotOpen

definition open_camera ::
  "bool \<Rightarrow> bytes list \<Rightarrow> (camera_source \<Rightarrow> bool) \<Rightarrow> string \<Rightarrow> int \<Rightarrow> int \<Rightarrow> (open_error, camera) result" where
  "open_camera present pipe opens text width height = (case source_of_text text of
     None \<Rightarrow> Err BadSourceNumber
   | Some (HelperUnit unit) \<Rightarrow>
       if \<not> present then Err CameraHelperMissing
       else Ok \<lparr>cam_width = width, cam_height = height, cam_feed = Helper spawned pipe\<rparr>
   | Some source \<Rightarrow>
       if \<not> opens source then Err CannotOpen
       else Ok \<lparr>cam_width = width, cam_height = height, cam_feed = Capture\<rparr>)"

text \<open>
  \<open>reshape\<close> accepts the bytes when the rows of the frame are \<^verbatim>\<open>height * 3 // 2\<close> of its width;
  the conversion from NV12 may refuse a picture, as it does an empty one.
\<close>

record 'img opencv =
  from_nv12 :: "int \<Rightarrow> int \<Rightarrow> bytes \<Rightarrow> 'img option"
  resize_to :: "'img \<Rightarrow> int \<Rightarrow> int \<Rightarrow> 'img"
  encode_jpeg :: "'img \<Rightarrow> int \<Rightarrow> bytes option"

datatype read_failure = BadFrame camera_error | BadShape | BadPicture | CaptureFailed | EncodingFailed

definition reshapes :: "int \<Rightarrow> int \<Rightarrow> bytes \<Rightarrow> bool" where
  "reshapes width height raw \<longleftrightarrow> 0 \<le> width \<and> 0 \<le> height \<and> int (length raw) = height * 3 div 2 * width"

definition read_camera ::
  "'img opencv \<Rightarrow> 'img option \<Rightarrow> camera \<Rightarrow> (read_failure, 'img) result \<times> camera" where
  "read_camera cv captured c = (case cam_feed c of
     Helper p pipe \<Rightarrow> (case capture_frame pipe of
         (Inl e, pipe) \<Rightarrow> (Err (BadFrame e), c\<lparr>cam_feed := Helper p pipe\<rparr>)
       | (Inr (width, height, raw), pipe) \<Rightarrow>
           (let c = c\<lparr>cam_feed := Helper p pipe\<rparr> in
            if \<not> reshapes width height raw then (Err BadShape, c)
            else case from_nv12 cv width height raw of
                None \<Rightarrow> (Err BadPicture, c)
              | Some img \<Rightarrow>
                  (Ok (if (width, height) \<noteq> (cam_width c, cam_height c)
                       then resize_to cv img (cam_width c) (cam_height c) else img), c)))
   | Capture \<Rightarrow> (case captured of None \<Rightarrow> (Err CaptureFailed, c) | Some img \<Rightarrow> (Ok img, c)))"

definition camera_jpeg :: "'img opencv \<Rightarrow> 'img \<Rightarrow> int \<Rightarrow> (read_failure, bytes) result" where
  "camera_jpeg cv img quality = (case encode_jpeg cv img quality of
     None \<Rightarrow> Err EncodingFailed | Some bs \<Rightarrow> Ok bs)"

definition close_camera :: "reaction \<Rightarrow> camera \<Rightarrow> camera" where
  "close_camera r c = (case cam_feed c of
     Helper p pipe \<Rightarrow>
       (let (ended, q) = wait_for (ends_on_terminate r) p
        in c\<lparr>cam_feed := Helper (if ended then q else exited_process (kill q)) pipe\<rparr>)
   | Capture \<Rightarrow> c)"

section \<open>Lemmas\<close>

lemma end_process_ended: "\<not> running (end_process r p) \<and> taken (end_process r p) = taken p"
  by (simp add: end_process_def Let_def wait_for_def exited_process_def kill_def)

lemma poll_taken [simp]: "taken (poll r p) = taken p"
  by (simp add: poll_def exited_process_def)

text \<open>What every panel keeps: its helpers have got a part of one frame, and those let go have ended.\<close>

definition lcd_ok :: "bytes \<Rightarrow> lcd \<Rightarrow> bool" where
  "lcd_ok frame l \<longleftrightarrow> 1 / 4 \<le> flash_seconds l \<and>
     (case panel l of None \<Rightarrow> True | Some p \<Rightarrow> prefix (taken p) frame \<and> enabled l \<and> released l = []) \<and>
     length (released l) \<le> 1 \<and>
     list_all (\<lambda>p. \<not> running p \<and> prefix (taken p) frame) (released l)"

lemma lcd_ok_stop: "lcd_ok frame l \<Longrightarrow> lcd_ok frame (stop_process r l) \<and> panel (stop_process r l) = None"
  using end_process_ended [of r] by (auto simp: lcd_ok_def stop_process_def split: option.splits)

lemma lcd_ok_stopping [simp]: "lcd_ok frame (l\<lparr>stopping := b\<rparr>) = lcd_ok frame l"
  by (auto simp: lcd_ok_def split: option.splits)

lemma lcd_ok_do: "lcd_ok frame l \<Longrightarrow> lcd_ok frame (lcd_do c l)"
proof (cases c)
  case (CloseLcd r)
  assume "lcd_ok frame l"
  with CloseLcd lcd_ok_stop show ?thesis by (simp add: close_lcd_def)
qed (auto simp: lcd_ok_def set_alert_def split: option.splits)

lemma lcd_ok_run: "lcd_ok frame l \<Longrightarrow> lcd_ok frame (fold lcd_do cs l)"
  by (induction cs arbitrary: l) (simp_all add: lcd_ok_do)

definition logo_bytes :: "draw \<Rightarrow> int \<Rightarrow> int \<Rightarrow> bytes" where
  "logo_bytes canvas w h = (case canvas w h render_logo of None \<Rightarrow> [] | Some logo \<Rightarrow> frame_bytes w h logo)"

lemma new_lcd_ok:
  "new_lcd canvas r present starts w h flash = Some l \<Longrightarrow> lcd_ok (logo_bytes canvas w h) l"
  using end_process_ended [of r]
  by (auto simp: new_lcd_def blank_lcd_def disable_def stop_process_def write_frame_def Let_def lcd_ok_def spawned_def
      logo_bytes_def take_is_prefix split: option.splits if_splits)

lemma new_lcd_enabled:
  "new_lcd canvas r present starts w h flash = Some l \<Longrightarrow>
     enabled l \<longleftrightarrow> present \<and> starts \<and> \<not> has_exited r \<and> takes r \<noteq> None"
  by (auto simp: new_lcd_def blank_lcd_def disable_def stop_process_def write_frame_def Let_def spawned_def poll_def
      exited_process_def split: option.splits if_splits)

lemma even_rows: "even h \<Longrightarrow> h * 3 div 2 * w = w * h * 3 div 2" for h w :: int
  by (auto elim!: evenE simp: mult.assoc mult.left_commute mult.commute)

section \<open>Properties\<close>

text \<open>
  The panel is written at most once: when the logo can be drawn there is a panel, and then, whatever its
  helper does and whatever the program calls, all a helper ever gets is one frame with the logo or a
  first part of it. The panel is enabled exactly when the helper could be started and took the write. A
  helper that was let go does not run any more, and closing the panel lets its helper go.
\<close>

theorem panel_written_once:
  assumes "new_lcd canvas r present starts w h flash = Some new" and "l = fold lcd_do calls new"
  shows "(\<exists>logo. canvas w h render_logo = Some logo \<and>
      list_all (\<lambda>p. prefix (taken p) (frame_bytes w h logo))
        (released l @ (case panel l of None \<Rightarrow> [] | Some p \<Rightarrow> [p]))) \<and>
    (enabled new \<longleftrightarrow> present \<and> starts \<and> \<not> has_exited r \<and> takes r \<noteq> None) \<and>
    length (released l @ (case panel l of None \<Rightarrow> [] | Some p \<Rightarrow> [p])) \<le> 1 \<and>
    list_all (\<lambda>p. \<not> running p) (released l) \<and> panel (close_lcd r' l) = None"
proof -
  from assms(1) obtain logo where logo: "canvas w h render_logo = Some logo"
    by (auto simp: new_lcd_def split: option.splits)
  have ok: "lcd_ok (frame_bytes w h logo) l"
    using lcd_ok_run [OF new_lcd_ok [OF assms(1)]] by (simp add: assms(2) logo logo_bytes_def)
  with lcd_ok_stop [of _ "l\<lparr>stopping := True\<rparr>"] have "panel (close_lcd r' l) = None" by (simp add: close_lcd_def)
  with ok logo new_lcd_enabled [OF assms(1)] show ?thesis
    by (auto simp: lcd_ok_def list_all_iff split: option.splits)
qed

text \<open>A helper that takes 5 bytes, is closed and has to be killed.\<close>

definition stubborn :: reaction where
  "stubborn = \<lparr>has_exited = False, takes = Some 5, close_fails = False, ends_on_close = False,
     ends_on_terminate = False\<rparr>"

definition demo_panel :: lcd where
  "demo_panel = the (new_lcd (\<lambda>w h ops. Some []) stubborn True True 480 320 (3 / 4))"

definition demo_lcd :: lcd where
  "demo_lcd = fold lcd_do [SetAlert True, CloseLcd stubborn] demo_panel"

lemma demo_panel_new: "new_lcd (\<lambda>w h ops. Some []) stubborn True True 480 320 (3 / 4) = Some demo_panel"
  by (simp add: demo_panel_def new_lcd_def)

theorem panel_written_once_witness:
  "list_all (\<lambda>p. prefix (taken p) (frame_bytes 480 320 [])) (released demo_lcd) \<and>
   list_all (\<lambda>p. \<not> running p) (released demo_lcd) \<and> map (length \<circ> taken) (released demo_lcd) = [5]"
proof -
  have "panel demo_lcd = None" "map (length \<circ> taken) (released demo_lcd) = [5]" by code_simp+
  with panel_written_once [OF demo_panel_new demo_lcd_def, of stubborn] show ?thesis by simp
qed

text \<open>
  The pipe is unbuffered, so a write may take only a part of the frame: its result is not
  looked at, and the panel counts as enabled with an incomplete logo.
\<close>

lemma short_write_enables:
  "enabled demo_panel \<and> (\<exists>p. panel demo_panel = Some p \<and> taken p \<noteq> frame_bytes 480 320 [])"
  by (simp add: demo_panel_def new_lcd_def blank_lcd_def write_frame_def stubborn_def spawned_def poll_def Let_def
      frame_bytes_def text_bytes_def)

text \<open>
  A frame the helper of the camera writes becomes the picture of its bytes: however the pipe
  cuts them, a frame of an even height is read, converted, brought to the size the program
  asked for, and what follows stays in the pipe for the next frame.
\<close>

theorem camera_frame_read:
  assumes "cam_feed c = Helper p pipe" and "concat pipe = helper_frame width height raw @ rest"
    and "[] \<notin> set pipe" and "0 \<le> width" and "0 \<le> height" and "even height"
    and "length raw = nat (width * height * 3 div 2)" and "from_nv12 cv width height raw = Some img"
  shows "\<exists>pipe'. read_camera cv captured c =
      (Ok (if (width, height) = (cam_width c, cam_height c) then img
           else resize_to cv img (cam_width c) (cam_height c)), c\<lparr>cam_feed := Helper p pipe'\<rparr>) \<and>
    concat pipe' = rest \<and> [] \<notin> set pipe'"
proof -
  from captured_frame [OF assms(4,5,7,2,3)] obtain pipe' where
    p: "capture_frame pipe = (Ok (width, height, raw), pipe')" "concat pipe' = rest" "[] \<notin> set pipe'"
    by blast
  moreover have "reshapes width height raw"
    using assms(4-7) even_rows [OF assms(6), of width] by (simp add: reshapes_def)
  ultimately show ?thesis by (auto simp: read_camera_def assms(1,8) Let_def)
qed

definition demo_cv :: "bytes opencv" where
  "demo_cv = \<lparr>from_nv12 = (\<lambda>w h raw. Some raw), resize_to = (\<lambda>img w h. take (nat (w * h)) img),
     encode_jpeg = (\<lambda>img q. Some img)\<rparr>"

definition demo_camera :: camera where
  "demo_camera = \<lparr>cam_width = 1, cam_height = 1,
     cam_feed = Helper spawned [helper_frame 2 2 [1, 2, 3, 4, 5, 6] @ [73], [71]]\<rparr>"

theorem camera_frame_read_witness:
  "\<exists>pipe'. read_camera demo_cv None demo_camera = (Ok [1], demo_camera\<lparr>cam_feed := Helper spawned pipe'\<rparr>)
     \<and> concat pipe' = [73, 71]"
  using camera_frame_read [of demo_camera spawned "[helper_frame 2 2 [1, 2, 3, 4, 5, 6] @ [73], [71]]"
      2 2 "[1, 2, 3, 4, 5, 6]" "[73, 71]" demo_cv "[1, 2, 3, 4, 5, 6]" None]
  by (auto simp: demo_camera_def demo_cv_def)

text \<open>Closing the camera ends and collects its helper, whatever the helper does.\<close>

definition camera_ended :: "camera \<Rightarrow> bool" where
  "camera_ended c = (case cam_feed c of Helper p _ \<Rightarrow> \<not> running p \<and> reaped p | Capture \<Rightarrow> True)"

lemma camera_closed: "camera_ended (close_camera r c)"
  by (auto simp: camera_ended_def close_camera_def wait_for_def exited_process_def kill_def split: feed.splits)

end
