(* ===== verification/Simulator.thy ===== *)
theory Simulator
  imports Models Verifier Frames "HOL-Library.While_Combinator"
begin

text \<open>
  The laptop simulator, \<^verbatim>\<open>src/simulator/ignis_simulator\<close>: the scripted scenarios and the stage
  of a moment (\<^verbatim>\<open>scenarios.py\<close>), the payloads, the fragmented sending and the loop of
  \<^verbatim>\<open>Simulator.run\<close> with its faults (\<^verbatim>\<open>cli.py\<close>). The rendered JPEG, the clock and the socket are
  inputs; what is sent is the list of byte strings handed to \<open>sendall\<close>.
\<close>

section \<open>Scenarios\<close>

record stage =
  starts :: rat
  fire :: rat
  smoke :: rat
  hazard :: string
  response :: string
  area_scale :: rat
  camera :: string
  inference :: string
  announced :: "string option"

record scenario =
  scenario_name :: string
  duration :: rat
  stages :: "stage list"

text \<open>\<open>Stage(at)\<close> with the defaults of the class; decimal literals are rounded when they are read.\<close>

definition stage_at :: "rat \<Rightarrow> stage" where
  "stage_at t = \<lparr>starts = t, fire = 0, smoke = 0, hazard = ''CLEAR'', response = ''IDLE'', area_scale = 1,
     camera = ''HEALTHY'', inference = ''HEALTHY'', announced = None\<rparr>"

definition hundredths :: "int \<Rightarrow> rat" where
  "hundredths n = fl (of_int n / 100)"

definition normal :: scenario where
  "normal = \<lparr>scenario_name = ''normal'', duration = 12, stages = [stage_at 0]\<rparr>"

definition hard_negative :: scenario where
  "hard_negative = \<lparr>scenario_name = ''hard_negative'', duration = 12, stages = [stage_at 0,
     (stage_at 2)\<lparr>fire := hundredths 34, smoke := hundredths 11, announced := Some ''HARD_NEGATIVE_PRESENTED''\<rparr>,
     stage_at 8]\<rparr>"

definition ambiguous_smoke :: scenario where
  "ambiguous_smoke = \<lparr>scenario_name = ''ambiguous_smoke'', duration = 14, stages = [stage_at 0,
     (stage_at 1)\<lparr>smoke := hundredths 67, hazard := ''SUSPECTED'', announced := Some ''FIRST_SMOKE_SIGNATURE''\<rparr>,
     (stage_at 3)\<lparr>smoke := hundredths 70, hazard := ''VERIFYING'', announced := Some ''PERSISTENCE_THRESHOLD_MET''\<rparr>,
     (stage_at 7)\<lparr>smoke := hundredths 48, hazard := ''VERIFYING''\<rparr>,
     (stage_at 10)\<lparr>announced := Some ''SIGNATURE_CLEARED_UNCONFIRMED''\<rparr>]\<rparr>"

definition confirmed_fire :: scenario where
  "confirmed_fire = \<lparr>scenario_name = ''confirmed_fire'', duration = 18, stages = [stage_at 0,
     (stage_at 1)\<lparr>smoke := hundredths 68, hazard := ''SUSPECTED'', announced := Some ''FIRST_SMOKE_SIGNATURE''\<rparr>,
     (stage_at (5/2))\<lparr>fire := hundredths 61, smoke := hundredths 73, hazard := ''VERIFYING'',
        area_scale := 3/4, announced := Some ''PERSISTENCE_THRESHOLD_MET''\<rparr>,
     (stage_at (hundredths 520))\<lparr>fire := hundredths 88, smoke := hundredths 76, hazard := ''CONFIRMED'',
        response := ''AWAITING_RESPONSE'', announced := Some ''VISUAL_HAZARD_CONFIRMED''\<rparr>,
     (stage_at 9)\<lparr>fire := hundredths 93, smoke := hundredths 78, hazard := ''CONFIRMED'',
        response := ''AWAITING_RESPONSE'', area_scale := hundredths 138,
        announced := Some ''VISIBLE_REGION_EXPANDED''\<rparr>]\<rparr>"

definition camera_failure :: scenario where
  "camera_failure = \<lparr>scenario_name = ''camera_failure'', duration = 15, stages = [stage_at 0,
     (stage_at 3)\<lparr>camera := ''FAILED'', announced := Some ''CAMERA_CAPTURE_STALLED''\<rparr>,
     (stage_at 7)\<lparr>camera := ''RESTARTING'', announced := Some ''CAMERA_RESTARTING''\<rparr>,
     (stage_at 10)\<lparr>announced := Some ''CAMERA_RECOVERED''\<rparr>]\<rparr>"

definition inference_failure :: scenario where
  "inference_failure = \<lparr>scenario_name = ''inference_failure'', duration = 16, stages = [stage_at 0,
     (stage_at 3)\<lparr>inference := ''UNAVAILABLE'', announced := Some ''INFERENCE_PROCESS_EXITED''\<rparr>,
     (stage_at 5)\<lparr>inference := ''RESTARTING'', announced := Some ''WATCHDOG_RESTARTING_INFERENCE''\<rparr>,
     (stage_at 9)\<lparr>announced := Some ''INFERENCE_RECOVERED''\<rparr>]\<rparr>"

definition scenarios :: "scenario list" where
  "scenarios = [normal, hard_negative, ambiguous_smoke, confirmed_fire, camera_failure, inference_failure]"

text \<open>The loop of \<^verbatim>\<open>current_stage\<close>, which stops at the first stage that is not reached.\<close>

fun stage_loop :: "rat \<Rightarrow> stage \<Rightarrow> stage list \<Rightarrow> stage" where
  "stage_loop elapsed result [] = result"
| "stage_loop elapsed result (s # ss) = (if starts s \<le> elapsed then stage_loop elapsed s ss else result)"

definition current_stage :: "scenario \<Rightarrow> rat \<Rightarrow> stage" where
  "current_stage sc elapsed = stage_loop elapsed (hd (stages sc)) (stages sc)"

text \<open>\<^verbatim>\<open>stage_payload\<close>, a summary of a stage.\<close>

definition stage_payload :: "stage \<Rightarrow> dict" where
  "stage_payload st = [(''fire_confidence'', JNum (fire st)), (''smoke_confidence'', JNum (smoke st)),
     (''hazard_state'', JStr (hazard st)), (''response_state'', JStr (response st)),
     (''area_scale'', JNum (area_scale st)), (''camera'', JStr (camera st)), (''inference'', JStr (inference st))]"

section \<open>Sending\<close>

text \<open>
  The loop of \<^verbatim>\<open>_send\<close> in fragments, over the cursor and the fragments sent so far; \<open>while_option\<close>
  is \<open>None\<close> when the loop does not end.
\<close>

definition fragment_sizes :: "nat list" where
  "fragment_sizes = [1, 3, 7, 13, 31, 127, 521]"

definition send_fragments :: "bytes \<Rightarrow> (nat \<times> bytes list) option" where
  "send_fragments data = while_option (\<lambda>(cursor, sent). cursor < length data)
     (\<lambda>(cursor, sent). let size = fragment_sizes ! (cursor mod length fragment_sizes)
        in (cursor + size, sent @ [take size (drop cursor data)])) (0, [])"

datatype fault =
  NoFault | Fragmented | Coalesced | DisconnectReconnect | OutOfOrder | InvalidLength | InvalidToken

record sim_args =
  sim_device :: string
  sim_token :: string
  sim_fault :: fault
  sim_boot :: string
  started_ns :: int

text \<open>
  The simulator and the variables of its loop. \<open>sent_bytes\<close> are the arguments of \<open>sendall\<close>
  so far, \<open>emitted\<close> the packets behind them in the order of their encoding. Two stages of a
  scenario are equal only when they are the same, so \<open>last_stage\<close> is compared by value.
\<close>

record simulator =
  sim_sequence :: int
  sim_frames :: int
  sim_connected :: bool
  last_stage :: "stage option"
  last_health_second :: int
  was_disconnected :: bool
  sent_bytes :: "bytes list"
  emitted :: "packet_type message list"

definition new_simulator :: simulator where
  "new_simulator = \<lparr>sim_sequence = 1, sim_frames = 0, sim_connected = False, last_stage = None,
     last_health_second = -1, was_disconnected = False, sent_bytes = [], emitted = []\<rparr>"

text \<open>Exceptions: \<open>struct.error\<close>, and the RuntimeErrors of \<^verbatim>\<open>connect\<close> and \<^verbatim>\<open>_send\<close>.\<close>

datatype sim_error = SimPackError | SimBadAck | SimNotConnected | SimDiverges

type_synonym sim_action = "simulator \<Rightarrow> (sim_error, unit) result \<times> simulator"

definition and_then :: "sim_action \<Rightarrow> sim_action \<Rightarrow> sim_action" where
  "and_then a b s = (case a s of (Inl x, s) \<Rightarrow> (Err x, s) | (Inr _, s) \<Rightarrow> b s)"

definition sim_send :: "sim_args \<Rightarrow> bool option \<Rightarrow> bytes \<Rightarrow> sim_action" where
  "sim_send args fragment data s =
     (if \<not> sim_connected s then (Err SimNotConnected, s)
      else if \<not> (case fragment of None \<Rightarrow> sim_fault args = Fragmented | Some b \<Rightarrow> b)
        then (Ok (), s\<lparr>sent_bytes := sent_bytes s @ [data]\<rparr>)
      else case send_fragments data of
          None \<Rightarrow> (Err SimDiverges, s)
        | Some (_, parts) \<Rightarrow> (Ok (), s\<lparr>sent_bytes := sent_bytes s @ parts\<rparr>))"

text \<open>\<open>packet(type, payload, self._next_sequence(), ns)\<close>: the number advances first.\<close>

definition sim_encode :: "packet_type \<Rightarrow> bytes \<Rightarrow> int \<Rightarrow> simulator \<Rightarrow> (sim_error, bytes) result \<times> simulator" where
  "sim_encode ty pl ns s = (let n = sim_sequence s; s = s\<lparr>sim_sequence := n + 1\<rparr> in
     case sim_packet ty pl n ns of
       Inl e \<Rightarrow> (Err SimPackError, s)
     | Inr bs \<Rightarrow> (Ok bs, s\<lparr>emitted := emitted s @ [(ty, pl, n, ns)]\<rparr>))"

definition sim_send_packet :: "sim_args \<Rightarrow> packet_type \<Rightarrow> bytes \<Rightarrow> int \<Rightarrow> sim_action" where
  "sim_send_packet args ty pl ns s = (case sim_encode ty pl ns s of
     (Inl x, s) \<Rightarrow> (Err x, s) | (Inr bs, s) \<Rightarrow> sim_send args None bs s)"

section \<open>Payloads\<close>

definition sim_hello :: "sim_args \<Rightarrow> bool \<Rightarrow> dict" where
  "sim_hello args invalid_token = [(''device_id'', JStr (sim_device args)), (''boot_id'', JStr (sim_boot args)),
     (''protocol_version'', JInt 1), (''software_version'', JStr ''simulator-0.1.0''),
     (''device_token'', JStr (if invalid_token then ''invalid-token'' else sim_token args)),
     (''capabilities'', JArr [JStr ''simulated_camera'', JStr ''deterministic_replay'',
        JStr ''incident_engine'', JStr ''evidence_buffer''])]"

definition sim_incident_id :: "sim_args \<Rightarrow> string" where
  "sim_incident_id args = sim_device args @ ''-'' @ sim_boot args @ ''-1''"

definition sim_metadata :: "sim_args \<Rightarrow> int \<Rightarrow> dict" where
  "sim_metadata args n = [(''device_id'', JStr (sim_device args)), (''frame_sequence'', JInt n),
     (''width'', JInt 640), (''height'', JInt 480), (''jpeg_quality'', JInt 78),
     (''detections_reference'', JInt n), (''source_mode'', JStr ''LAPTOP_SIMULATOR'')]"

definition sim_box :: "rat \<Rightarrow> rat \<Rightarrow> rat \<Rightarrow> rat \<Rightarrow> json" where
  "sim_box a b c d = JObj [(''x_min'', JNum a), (''y_min'', JNum b), (''x_max'', JNum c), (''y_max'', JNum d)]"

definition sim_detections :: "stage \<Rightarrow> json list" where
  "sim_detections st =
     (if 0 < fire st then
        (let size = area_scale st in
         [JObj [(''class_name'', JStr ''fire''), (''class_id'', JInt 0), (''confidence'', JNum (fire st)),
            (''bbox'', sim_box (max (hundredths 8) (fsub (hundredths 37) (fmul (hundredths 6) size)))
               (max (hundredths 8) (fsub (hundredths 68) (fmul (hundredths 22) size)))
               (min (hundredths 92) (fadd (hundredths 37) (fmul (hundredths 8) size))) (hundredths 76))]])
      else [])
     @ (if 0 < smoke st then
         [JObj [(''class_name'', JStr ''smoke''), (''class_id'', JInt 1), (''confidence'', JNum (smoke st)),
            (''bbox'', sim_box (hundredths 27) (hundredths 16) (hundredths 70) (hundredths 58))]]
        else [])"

definition sim_detections_payload :: "stage \<Rightarrow> int \<Rightarrow> int \<Rightarrow> dict" where
  "sim_detections_payload st n ns = [(''frame_sequence'', JInt n), (''monotonic_ns'', JInt ns),
     (''inference_duration_ms'', JNum (83/2)), (''detections'', JArr (sim_detections st))]"

definition sim_update :: "sim_args \<Rightarrow> stage \<Rightarrow> rat \<Rightarrow> int \<Rightarrow> dict" where
  "sim_update args st elapsed ns =
     [(''incident_id'', JStr (sim_incident_id args)), (''device_id'', JStr (sim_device args)),
      (''boot_id'', JStr (sim_boot args)), (''hazard_state'', JStr (hazard st)),
      (''response_state'', JStr (response st)),
      (''first_detection_monotonic_ns'', JInt (started_ns args + 1000000000)),
      (''updated_monotonic_ns'', JInt ns), (''fire_confidence'', JNum (fire st)),
      (''smoke_confidence'', JNum (smoke st)),
      (''seconds_persistent'', if 0 < fsub elapsed 1 then JNum (fsub elapsed 1) else JInt 0),
      (''first_zone'', JStr ''Stovetop''), (''current_zone'', JStr ''Stovetop''),
      (''primary_fire_bbox'', if fire st \<noteq> 0 then JArr [JNum (hundredths 31),
          JNum (fsub (hundredths 68) (fmul (hundredths 22) (area_scale st))), JNum (hundredths 45),
          JNum (hundredths 76)] else JNull),
      (''primary_smoke_bbox'', if smoke st \<noteq> 0 then JArr [JNum (hundredths 27), JNum (hundredths 16),
          JNum (hundredths 70), JNum (hundredths 58)] else JNull),
      (''fire_region_growth_percent'', if hundredths 130 \<le> area_scale st then JNum 38 else JNull),
      (''smoke_first'', if fire st \<noteq> 0 then JBool True else JNull),
      (''smoke_to_fire_delay_seconds'', if fire st \<noteq> 0 then JNum (3/2) else JNull),
      (''occupant_visible'', JNull), (''camera_health'', JStr (camera st)),
      (''inference_health'', JStr (inference st))]"

definition sim_timeline :: "sim_args \<Rightarrow> stage \<Rightarrow> string \<Rightarrow> dict" where
  "sim_timeline args st ev = [(''incident_id'', JStr (sim_incident_id args)), (''event_type'', JStr ev),
     (''hazard_state'', JStr (hazard st)), (''response_state'', JStr (response st))]"

definition sim_health :: "sim_args \<Rightarrow> stage \<Rightarrow> int \<Rightarrow> dict" where
  "sim_health args st ns =
     (let restarted = inference st \<in> {''RESTARTING'', ''HEALTHY''} \<and> started_ns args + 5000000000 < ns;
          healthy = camera st = inference st \<and> inference st = ''HEALTHY''
      in [(''status'', JStr (if healthy then ''HEALTHY'' else ''DEGRADED'')),
        (''camera'', JStr (camera st)), (''inference'', JStr (inference st)),
        (''incident_engine'', JStr ''HEALTHY''), (''stream'', JStr ''HEALTHY''),
        (''last_frame_age_ms'', JInt 12),
        (''last_inference_age_ms'', JInt (if inference st = ''HEALTHY'' then 48 else 1850)),
        (''inference_latency_ms'', JNum (83/2)), (''watchdog_restart_count'', JInt (if restarted then 1 else 0)),
        (''source_mode'', JStr ''LAPTOP_SIMULATOR'')])"

section \<open>The loop\<close>

record tick =
  t_elapsed :: rat
  t_jpeg :: bytes
  t_hello_ns :: int
  t_ack :: bytes

text \<open>
  \<^verbatim>\<open>connect\<close>: a new connection, the HELLO, and the first bytes that arrive, which must hold a
  whole header of a HELLO_ACK. With the invalid token the answer is not looked at.
\<close>

definition sim_connect :: "dumps \<Rightarrow> sim_args \<Rightarrow> bool \<Rightarrow> int \<Rightarrow> bytes \<Rightarrow> sim_action" where
  "sim_connect dumps args invalid_token ns ack s =
     (case sim_send_packet args HELLO (dumps (sim_hello args invalid_token)) ns
             (s\<lparr>sim_connected := True, sent_bytes := [], emitted := []\<rparr>) of
        (Inl x, s) \<Rightarrow> (Err x, s)
      | (Inr _, s) \<Rightarrow>
          if invalid_token then (Ok (), s)
          else if length ack < HEADER_SIZE \<or> take 4 ack \<noteq> MAGIC \<or> field 5 1 ack \<noteq> type_code HELLO_ACK
            then (Err SimBadAck, s)
          else (Ok (), s))"

definition sim_close :: "simulator \<Rightarrow> simulator" where
  "sim_close s = s\<lparr>sim_connected := False\<rparr>"

definition sim_moment :: "sim_args \<Rightarrow> tick \<Rightarrow> int" where
  "sim_moment args tk = started_ns args + py_int (fmul (t_elapsed tk) 1000000000)"

definition reconnect_step :: "dumps \<Rightarrow> sim_args \<Rightarrow> tick \<Rightarrow> sim_action" where
  "reconnect_step dumps args tk s =
     (let e = t_elapsed tk;
          r = (if sim_fault args = DisconnectReconnect \<and> 5 < e \<and> e < 7 \<and> \<not> was_disconnected s
               then sim_connect dumps args False (t_hello_ns tk) (t_ack tk)
                      ((sim_close s)\<lparr>was_disconnected := True\<rparr>)
               else (Ok (), s))
      in case r of (Inl x, s) \<Rightarrow> (Err x, s)
       | (Inr _, s) \<Rightarrow> (Ok (), if 7 \<le> e then s\<lparr>was_disconnected := False\<rparr> else s))"

definition frame_packets_step :: "dumps \<Rightarrow> sim_args \<Rightarrow> stage \<Rightarrow> tick \<Rightarrow> sim_action" where
  "frame_packets_step dumps args st tk s =
     (let ns = sim_moment args tk in
      case sim_frame_payload dumps (sim_metadata args (sim_frames s)) (t_jpeg tk) of
        Inl x \<Rightarrow> (Err SimPackError, s)
      | Inr pl \<Rightarrow>
          (case sim_encode FRAME pl ns s of
             (Inl x, s) \<Rightarrow> (Err x, s)
           | (Inr a, s) \<Rightarrow>
               (case sim_encode DETECTIONS (dumps (sim_detections_payload st (sim_frames s) ns)) ns s of
                  (Inl x, s) \<Rightarrow> (Err x, s)
                | (Inr b, s) \<Rightarrow>
                    if sim_fault args = Coalesced then sim_send args (Some False) (a @ b) s
                    else and_then (sim_send args None a) (sim_send args None b) s)))"

definition health_step :: "dumps \<Rightarrow> sim_args \<Rightarrow> stage \<Rightarrow> tick \<Rightarrow> sim_action" where
  "health_step dumps args st tk s =
     (let second = py_int (t_elapsed tk); ns = sim_moment args tk in
      if second = last_health_second s then (Ok (), s)
      else sim_send_packet args HEALTH_UPDATE (dumps (sim_health args st ns)) ns
             (s\<lparr>last_health_second := second\<rparr>))"

definition incident_step :: "dumps \<Rightarrow> sim_args \<Rightarrow> stage \<Rightarrow> bool \<Rightarrow> tick \<Rightarrow> sim_action" where
  "incident_step dumps args st changed tk s =
     (let ns = sim_moment args tk in
      if hazard st = ''CLEAR'' then (Ok (), s)
      else and_then
        (sim_send_packet args INCIDENT_UPDATE (dumps (sim_update args st (t_elapsed tk) ns)) ns)
        (\<lambda>s. case announced st of
             Some (c # cs) \<Rightarrow>
               if changed then sim_send_packet args INCIDENT_TIMELINE_EVENT
                                 (dumps (sim_timeline args st (c # cs))) ns s
               else (Ok (), s)
           | _ \<Rightarrow> (Ok (), s)) s)"

definition stale_step :: "dumps \<Rightarrow> sim_args \<Rightarrow> tick \<Rightarrow> sim_action" where
  "stale_step dumps args tk s =
     (if sim_fault args = OutOfOrder \<and> sim_frames s = 12
      then (let old = max 1 (sim_sequence s - 5); ns = sim_moment args tk - 2000000000;
                pl = dumps [(''status'', JStr ''out_of_order_test'')]
            in case sim_packet HEALTH_UPDATE pl old ns of
                 Inl x \<Rightarrow> (Err SimPackError, s)
               | Inr bs \<Rightarrow> sim_send args None bs (s\<lparr>emitted := emitted s @ [(HEALTH_UPDATE, pl, old, ns)]\<rparr>))
      else (Ok (), s))"

definition sim_tick :: "dumps \<Rightarrow> sim_args \<Rightarrow> scenario \<Rightarrow> tick \<Rightarrow> sim_action" where
  "sim_tick dumps args sc tk s =
     (let st = current_stage sc (t_elapsed tk);
          changed = last_stage s \<noteq> Some st;
          s = s\<lparr>sim_frames := sim_frames s + 1\<rparr>
      in and_then (reconnect_step dumps args tk)
          (and_then (\<lambda>s. (Ok (), s\<lparr>last_stage := Some st\<rparr>))
            (and_then (frame_packets_step dumps args st tk)
              (and_then (health_step dumps args st tk)
                (and_then (incident_step dumps args st changed tk) (stale_step dumps args tk))))) s)"

fun sim_loop :: "dumps \<Rightarrow> sim_args \<Rightarrow> scenario \<Rightarrow> tick list \<Rightarrow> sim_action" where
  "sim_loop dumps args sc [] = (\<lambda>s. (Ok (), s))"
| "sim_loop dumps args sc (tk # tks) = and_then (sim_tick dumps args sc tk) (sim_loop dumps args sc tks)"

definition oversized_header :: "(protocol_error, bytes) result" where
  "oversized_header = pack_header 1 (type_code FRAME) 0 3000000 2 1 0"

definition sim_run :: "dumps \<Rightarrow> sim_args \<Rightarrow> scenario \<Rightarrow> int \<Rightarrow> bytes \<Rightarrow> tick list \<Rightarrow> sim_action" where
  "sim_run dumps args sc ns ack tks =
     (if sim_fault args = InvalidToken then sim_connect dumps args True ns ack
      else and_then (sim_connect dumps args False ns ack)
        (if sim_fault args = InvalidLength
         then (case oversized_header of
                 Inl x \<Rightarrow> (\<lambda>s. (Err SimPackError, s)) | Inr bs \<Rightarrow> sim_send args (Some False) bs)
         else sim_loop dumps args sc tks))"

section \<open>Fragments\<close>

lemma fragment_size: "0 < fragment_sizes ! (c mod length fragment_sizes) \<and> fragment_sizes ! (c mod length fragment_sizes) \<le> 521"
proof -
  have "\<forall>n \<in> set fragment_sizes. 0 < n \<and> n \<le> 521" by (simp add: fragment_sizes_def)
  moreover have "c mod length fragment_sizes < length fragment_sizes" by (simp add: fragment_sizes_def)
  ultimately show ?thesis using nth_mem by blast
qed

definition fragments_of :: "bytes \<Rightarrow> nat \<times> bytes list \<Rightarrow> bool" where
  "fragments_of data cs \<longleftrightarrow> concat (snd cs) = take (fst cs) data
     \<and> (\<forall>part \<in> set (snd cs). part \<noteq> [] \<and> length part \<le> 521)"

lemma send_fragments_Some:
  "\<exists>n parts. send_fragments data = Some (n, parts) \<and> concat parts = data
     \<and> (\<forall>part \<in> set parts. part \<noteq> [] \<and> length part \<le> 521)"
proof -
  let ?b = "\<lambda>(cursor, sent). cursor < length data"
  let ?c = "\<lambda>(cursor, sent). let size = fragment_sizes ! (cursor mod length fragment_sizes)
        in (cursor + size, sent @ [take size (drop cursor data)])"
  have step: "fragments_of data (?c cs) \<and> length data - fst (?c cs) < length data - fst cs"
    if "fragments_of data cs" "?b cs" for cs :: "nat \<times> bytes list"
    using that fragment_size [of "fst cs"]
    by (cases cs) (auto simp: fragments_of_def Let_def take_add)
  have start: "fragments_of data (0, [])" by (simp add: fragments_of_def)
  from measure_while_option_Some [of "fragments_of data" ?b ?c "\<lambda>cs. length data - fst cs", OF step start]
  obtain t where t: "while_option ?b ?c (0, []) = Some t" by blast
  have "fragments_of data t"
    using while_option_rule [OF _ t, of "fragments_of data"] step start by blast
  moreover have "\<not> ?b t" using while_option_stop [OF t] .
  ultimately show ?thesis
    using t by (cases t) (simp add: send_fragments_def fragments_of_def not_less)
qed

section \<open>Stages\<close>

lemma stage_loop_spec:
  assumes "sorted (map starts ss)"
  shows "stage_loop e r ss = last (r # filter (\<lambda>s. starts s \<le> e) ss)"
  using assms
proof (induction ss arbitrary: r)
  case (Cons s ss)
  show ?case
  proof (cases "starts s \<le> e")
    case True
    with Cons show ?thesis by simp
  next
    case False
    with Cons.prems have "filter (\<lambda>s. starts s \<le> e) ss = []" by (auto simp: filter_empty_conv)
    with False show ?thesis by simp
  qed
qed simp

lemma scenarios_sorted: "\<forall>sc \<in> set scenarios. sorted (map starts (stages sc)) \<and> stages sc \<noteq> [] \<and> starts (hd (stages sc)) = 0"
  unfolding list_all_iff [symmetric] by code_simp

lemma confirmed_fire_scripted: "confirmed_fire \<in> set scenarios"
  by (simp add: scenarios_def)

definition stage_ok :: "stage \<Rightarrow> bool" where
  "stage_ok st \<longleftrightarrow> hazard_of (hazard st) \<noteq> None \<and> response_state_of (response st) \<noteq> None
     \<and> 0 \<le> fire st \<and> fire st \<le> 1 \<and> 0 \<le> smoke st \<and> smoke st \<le> 1
     \<and> length (camera st) \<le> 32 \<and> length (inference st) \<le> 32"

lemma scenarios_ok: "\<forall>sc \<in> set scenarios. list_all stage_ok (stages sc)"
  unfolding list_all_iff [of _ scenarios, symmetric] by code_simp

lemma stage_loop_mem: "stage_loop e r ss \<in> set (r # ss)"
  by (induction ss arbitrary: r) auto

lemma current_stage_mem: "sc \<in> set scenarios \<Longrightarrow> current_stage sc e \<in> set (stages sc)"
  using stage_loop_mem [of e "hd (stages sc)" "stages sc"] scenarios_sorted hd_in_set [of "stages sc"]
  by (auto simp: current_stage_def)

lemma current_stage_ok: "sc \<in> set scenarios \<Longrightarrow> stage_ok (current_stage sc e)"
  using scenarios_ok current_stage_mem by (auto simp: list_all_iff)

section \<open>The packets sent\<close>

definition stream_inv :: "simulator \<Rightarrow> bool" where
  "stream_inv s \<longleftrightarrow> (\<exists>bss. encodes sim_packet (emitted s) bss \<and> concat (sent_bytes s) = concat bss)
     \<and> sorted_wrt (<) (map msg_seq (emitted s)) \<and> (\<forall>m \<in> set (emitted s). msg_seq m < sim_sequence s)
     \<and> emitted s \<noteq> [] \<and> fst (hd (emitted s)) = HELLO"

text \<open>Partial correctness of an action: when it does not raise, it keeps the property.\<close>

definition ensures :: "(simulator \<Rightarrow> bool) \<Rightarrow> (simulator \<Rightarrow> bool) \<Rightarrow> sim_action \<Rightarrow> bool" where
  "ensures P Q a \<longleftrightarrow> (\<forall>s s'. P s \<longrightarrow> a s = (Inr (), s') \<longrightarrow> Q s')"

lemma ensuresI: "(\<And>s s'. P s \<Longrightarrow> a s = (Inr (), s') \<Longrightarrow> Q s') \<Longrightarrow> ensures P Q a"
  by (simp add: ensures_def)

lemma ensuresD: "ensures P Q a \<Longrightarrow> a s = (Inr (), s') \<Longrightarrow> P s \<Longrightarrow> Q s'"
  by (simp add: ensures_def)

lemma ensures_then: "ensures P Q a \<Longrightarrow> ensures Q R b \<Longrightarrow> ensures P R (and_then a b)"
  by (fastforce simp: ensures_def and_then_def split: sum.splits prod.splits)

lemma sim_send_Ok:
  "sim_send args fr data s = (Inr u, s') \<Longrightarrow>
   concat (sent_bytes s') = concat (sent_bytes s) @ data \<and> emitted s' = emitted s
   \<and> sim_sequence s' = sim_sequence s"
  using send_fragments_Some [of data] by (auto simp: sim_send_def split: if_splits option.splits prod.splits)

text \<open>The invariant before the bytes of the last packets are written.\<close>

definition pending_inv :: "bytes \<Rightarrow> simulator \<Rightarrow> bool" where
  "pending_inv rest s \<longleftrightarrow> (\<exists>bss. encodes sim_packet (emitted s) bss \<and> concat (sent_bytes s) @ rest = concat bss)
     \<and> sorted_wrt (<) (map msg_seq (emitted s)) \<and> (\<forall>m \<in> set (emitted s). msg_seq m < sim_sequence s)
     \<and> emitted s \<noteq> [] \<and> fst (hd (emitted s)) = HELLO"

lemma pending_none: "pending_inv [] s = stream_inv s"
  by (simp add: pending_inv_def stream_inv_def)

lemma pending_send:
  "pending_inv (data @ rest) s \<Longrightarrow> sim_send args fr data s = (Inr u, s') \<Longrightarrow> pending_inv rest s'"
  by (auto simp: pending_inv_def dest!: sim_send_Ok)

lemma pending_encode:
  assumes "pending_inv rest s" and "sim_encode ty pl ns s = (Inr bs, s')"
  shows "pending_inv (rest @ bs) s'"
proof -
  from assms(2) have e: "sim_packet ty pl (sim_sequence s) ns = Inr bs"
    and s': "s' = s\<lparr>sim_sequence := sim_sequence s + 1,
        emitted := emitted s @ [(ty, pl, sim_sequence s, ns)]\<rparr>"
    by (auto simp: sim_encode_def Let_def split: sum.splits)
  from assms(1) obtain bss where "encodes sim_packet (emitted s) bss" "concat (sent_bytes s) @ rest = concat bss"
    by (auto simp: pending_inv_def)
  moreover from encodes_snoc [where enc = sim_packet, OF this(1) e] this(2)
  have "encodes sim_packet (emitted s') (bss @ [bs])" "concat (sent_bytes s') @ rest @ bs = concat (bss @ [bs])"
    by (simp_all add: s')
  ultimately show ?thesis
    using assms(1) by (auto simp: pending_inv_def s' sorted_wrt_append msg_seq_def)
qed

lemma sim_send_packet_inv: "ensures stream_inv stream_inv (sim_send_packet args ty pl ns)"
  unfolding ensures_def
proof (intro allI impI)
  fix s s' assume "stream_inv s" and "sim_send_packet args ty pl ns s = (Inr (), s')"
  then obtain bs s1 where "sim_encode ty pl ns s = (Inr bs, s1)" "sim_send args None bs s1 = (Inr (), s')"
    by (auto simp: sim_send_packet_def split: sum.splits prod.splits)
  with pending_encode [of "[]" s ty pl ns bs s1] pending_send [of bs "[]" s1 args None "()" s'] \<open>stream_inv s\<close>
  show "stream_inv s'" by (simp add: pending_none)
qed

lemma sim_connect_inv: "ensures (\<lambda>s. True) stream_inv (sim_connect dumps args invalid_token ns ack)"
  unfolding ensures_def
proof (intro allI impI)
  fix s s' assume "sim_connect dumps args invalid_token ns ack s = (Inr (), s')"
  then have "sim_send_packet args HELLO (dumps (sim_hello args invalid_token)) ns
      (s\<lparr>sim_connected := True, sent_bytes := [], emitted := []\<rparr>) = (Inr (), s')"
    by (auto simp: sim_connect_def split: sum.splits prod.splits if_splits)
  then obtain bs s1 where "sim_packet HELLO (dumps (sim_hello args invalid_token)) (sim_sequence s) ns = Inr bs"
    and s1: "s1 = s\<lparr>sim_connected := True, sent_bytes := [], sim_sequence := sim_sequence s + 1,
        emitted := [(HELLO, dumps (sim_hello args invalid_token), sim_sequence s, ns)]\<rparr>"
    and "sim_send args None bs s1 = (Inr (), s')"
    by (auto simp: sim_send_packet_def sim_encode_def Let_def split: sum.splits prod.splits)
  then have "pending_inv bs s1" by (auto simp: pending_inv_def msg_seq_def)
  with pending_send [of bs "[]" s1 args None "()" s'] \<open>sim_send args None bs s1 = (Inr (), s')\<close>
  show "stream_inv s'" by (simp add: pending_none)
qed

lemma stream_inv_frames [simp]:
  "stream_inv (s\<lparr>last_stage := x\<rparr>) = stream_inv s" "stream_inv (s\<lparr>last_health_second := n\<rparr>) = stream_inv s"
  "stream_inv (s\<lparr>was_disconnected := b\<rparr>) = stream_inv s" "stream_inv (s\<lparr>sim_frames := n\<rparr>) = stream_inv s"
  by (simp_all add: stream_inv_def)

lemma reconnect_inv: "ensures stream_inv stream_inv (reconnect_step dumps args tk)"
  using sim_connect_inv [of dumps args False "t_hello_ns tk" "t_ack tk"]
  by (fastforce simp: ensures_def reconnect_step_def Let_def split: sum.splits prod.splits if_splits)

lemma frame_packets_inv: "ensures stream_inv stream_inv (frame_packets_step dumps args st tk)"
  unfolding ensures_def
proof (intro allI impI)
  fix s s' assume inv: "stream_inv s" and run: "frame_packets_step dumps args st tk s = (Inr (), s')"
  then obtain pl a s1 b s2 where a: "sim_encode FRAME pl (sim_moment args tk) s = (Inr a, s1)"
    and b: "sim_encode DETECTIONS (dumps (sim_detections_payload st (sim_frames s1) (sim_moment args tk)))
        (sim_moment args tk) s1 = (Inr b, s2)"
    and send: "(if sim_fault args = Coalesced then sim_send args (Some False) (a @ b) s2
        else and_then (sim_send args None a) (sim_send args None b) s2) = (Inr (), s')"
    by (auto simp: frame_packets_step_def Let_def split: sum.splits prod.splits)
  have "pending_inv (a @ b) s2"
    using pending_encode [OF pending_encode [OF _ a] b, of "[]"] inv by (simp add: pending_none)
  then have p: "pending_inv (a @ b) s2" .
  show "stream_inv s'"
  proof (cases "sim_fault args = Coalesced")
    case True
    with send pending_send [of "a @ b" "[]" s2 args "Some False" "()" s'] p show ?thesis by (simp add: pending_none)
  next
    case False
    with send obtain s3 where "sim_send args None a s2 = (Inr (), s3)" "sim_send args None b s3 = (Inr (), s')"
      by (auto simp: and_then_def split: sum.splits prod.splits)
    with pending_send [OF p] pending_send [of b "[]" s3] show ?thesis by (simp add: pending_none)
  qed
qed

lemma health_inv: "ensures stream_inv stream_inv (health_step dumps args st tk)"
  by (rule ensuresI) (auto simp: health_step_def Let_def split: if_splits dest!: ensuresD [OF sim_send_packet_inv])

lemma incident_inv: "ensures stream_inv stream_inv (incident_step dumps args st changed tk)"
proof -
  have "ensures stream_inv stream_inv (\<lambda>s. case announced st of
             Some (c # cs) \<Rightarrow>
               if changed then sim_send_packet args INCIDENT_TIMELINE_EVENT
                                 (dumps (sim_timeline args st (c # cs))) (sim_moment args tk) s
               else (Ok (), s)
           | _ \<Rightarrow> (Ok (), s))"
    using sim_send_packet_inv by (auto simp: ensures_def split: option.split list.split)
  from ensures_then [OF sim_send_packet_inv this] show ?thesis
    by (auto simp: ensures_def incident_step_def Let_def)
qed

lemma stale_inv: "sim_fault args \<noteq> OutOfOrder \<Longrightarrow> ensures stream_inv stream_inv (stale_step dumps args tk)"
  by (simp add: ensures_def stale_step_def)

lemma sim_tick_inv:
  assumes "sim_fault args \<noteq> OutOfOrder"
  shows "ensures stream_inv stream_inv (sim_tick dumps args sc tk)"
proof -
  have "ensures stream_inv stream_inv (\<lambda>s. (Inr (), s\<lparr>last_stage := x\<rparr>))" for x
    by (simp add: ensures_def)
  note steps = ensures_then [OF reconnect_inv ensures_then [OF this ensures_then [OF frame_packets_inv
        ensures_then [OF health_inv ensures_then [OF incident_inv stale_inv [OF assms]]]]]]
  show ?thesis
    by (rule ensuresI) (auto simp: sim_tick_def Let_def elim!: ensuresD [OF steps])
qed

lemma sim_loop_inv: "sim_fault args \<noteq> OutOfOrder \<Longrightarrow> ensures stream_inv stream_inv (sim_loop dumps args sc tks)"
  by (induction tks) (auto intro: ensures_then sim_tick_inv simp: ensures_def [of _ _ "\<lambda>s. (Inr (), s)"])

lemma sim_run_inv:
  assumes "sim_fault args \<notin> {OutOfOrder, InvalidLength}"
  shows "ensures (\<lambda>s. True) stream_inv (sim_run dumps args sc ns ack tks)"
proof (cases "sim_fault args = InvalidToken")
  case True
  with sim_connect_inv show ?thesis by (simp add: sim_run_def [abs_def] ensures_def)
next
  case False
  from assms have "ensures stream_inv stream_inv (sim_loop dumps args sc tks)" by (simp add: sim_loop_inv)
  from ensures_then [OF sim_connect_inv this] False assms show ?thesis
    by (simp add: sim_run_def [abs_def] ensures_def)
qed

section \<open>Properties\<close>

text \<open>
  C32. Fragmented sending ends for every packet and loses nothing: the loop returns, its fragments
  are non-empty and of at most 521 bytes, and put together they are the packet.
\<close>

theorem fragments_complete:
  "\<exists>n parts. send_fragments data = Some (n, parts) \<and> concat parts = data
     \<and> (\<forall>part \<in> set parts. part \<noteq> [] \<and> length part \<le> 521)"
  by (rule send_fragments_Some)

theorem fragments_complete_witness:
  "\<exists>n parts. send_fragments [7, 8, 9, 10, 11, 12] = Some (n, parts) \<and> concat parts = [7, 8, 9, 10, 11, 12]
     \<and> list_all (\<lambda>part. part \<noteq> []) parts"
  using fragments_complete [of "[7, 8, 9, 10, 11, 12]"] by (auto simp: list_all_iff)

text \<open>
  The stage of a moment of a scripted scenario is the last one that has started.
\<close>

theorem current_stage_is_last_started:
  assumes "sc \<in> set scenarios" and "0 \<le> elapsed"
  shows "current_stage sc elapsed = last (filter (\<lambda>s. starts s \<le> elapsed) (stages sc))"
proof -
  from assms scenarios_sorted have sc: "sorted (map starts (stages sc))" "stages sc \<noteq> []" "starts (hd (stages sc)) = 0"
    by auto
  then obtain s ss where "stages sc = s # ss" "starts s = 0" by (cases "stages sc") auto
  with assms(2) stage_loop_spec [OF sc(1), of elapsed s] show ?thesis by (simp add: current_stage_def)
qed

theorem current_stage_is_last_started_witness:
  "hazard (last (filter (\<lambda>s. starts s \<le> 3) (stages confirmed_fire))) = ''VERIFYING''"
proof -
  have w: "current_stage confirmed_fire 3 = last (filter (\<lambda>s. starts s \<le> 3) (stages confirmed_fire))"
    by (rule current_stage_is_last_started [OF confirmed_fire_scripted]) simp
  show ?thesis unfolding w [symmetric] by code_simp
qed

text \<open>
  The simulator's incident updates are well-typed for the backend: at every moment of every
  scripted scenario the payload is accepted by the message model, as an update of the
  simulator's incident.
\<close>

theorem sim_updates_typed:
  assumes "sc \<in> set scenarios" and "0 \<le> started_ns args" and "0 \<le> elapsed"
    and "length (sim_incident_id args) \<le> 160" "length (sim_device args) \<le> 80" "length (sim_boot args) \<le> 80"
    and "tk = \<lparr>t_elapsed = elapsed, t_jpeg = jpeg, t_hello_ns = ns, t_ack = ack\<rparr>"
  shows "\<exists>u. incident_update_of (sim_update args (current_stage sc elapsed) elapsed (sim_moment args tk)) = Some u
       \<and> u_incident_id u = sim_incident_id args"
proof -
  let ?st = "current_stage sc elapsed"
  from current_stage_ok [OF assms(1)] have ok: "stage_ok ?st" .
  then obtain h r where h: "hazard_of (hazard ?st) = Some h" "response_state_of (response ?st) = Some r"
    by (auto simp: stage_ok_def)
  have "0 \<le> fmul elapsed 1000000000" using assms(3) by (simp add: fmul_def fl_nonneg)
  then have "0 \<le> sim_moment args tk" using assms(2,7) by (simp add: sim_moment_def py_int_def)
  moreover have "1 \<le> length (sim_incident_id args)" by (simp add: sim_incident_id_def)
  moreover have "1 \<le> length (sim_incident_id args) \<and> length (sim_incident_id args) \<le> 160" using calculation(2) assms(4) by simp
  ultimately show ?thesis
    using ok h assms(2,4-6)
    by (simp add: incident_update_of_def sim_update_def field_or_def number_where_def optional_def stage_ok_def)
qed

definition demo_sim_args :: "fault \<Rightarrow> sim_args" where
  "demo_sim_args ft = \<lparr>sim_device = ''d'', sim_token = ''t'', sim_fault = ft, sim_boot = ''b'', started_ns = 7\<rparr>"

theorem sim_updates_typed_witness:
  "\<exists>u. incident_update_of (sim_update (demo_sim_args NoFault) (current_stage confirmed_fire 6) 6
       (sim_moment (demo_sim_args NoFault) \<lparr>t_elapsed = 6, t_jpeg = [], t_hello_ns = 0, t_ack = []\<rparr>)) = Some u
     \<and> u_incident_id u = ''d-b-1''"
proof -
  from sim_updates_typed [OF confirmed_fire_scripted, of "demo_sim_args NoFault" 6 _ "[]" 0 "[]", OF _ _ _ _ _ refl]
  show ?thesis by (simp add: demo_sim_args_def sim_incident_id_def)
qed

text \<open>
  C33. What the simulator sends, the backend understands: after a run without the faults that
  break the protocol on purpose, whether the packets were fragmented, coalesced or the
  connection re-established, the bytes of the connection, cut into any chunks that respect the
  parser's buffer, are parsed as exactly its packets, HELLO first, with increasing sequence numbers.
\<close>

theorem sim_stream_understood:
  assumes "sim_fault args \<notin> {OutOfOrder, InvalidLength}"
    and "sim_run dumps args sc ns ack tks s0 = (Ok (), s)"
    and "payloads_within L m (emitted s)" and "concat cs = concat (sent_bytes s)" and "cs \<noteq> []"
    and "chunks_within L m cs"
  shows "feed_all cs (new_parser m) = (Ok (delivered (\<lambda>t. t) (emitted s)), new_parser m)
       \<and> sorted_wrt (<) (map sequence (delivered (\<lambda>t. t) (emitted s)))
       \<and> packet_type (hd (delivered (\<lambda>t. t) (emitted s))) = HELLO"
proof -
  from sim_run_inv [OF assms(1), of dumps sc ns ack tks] assms(2) have "stream_inv s" by (simp add: ensures_def)
  then obtain bss where b: "encodes sim_packet (emitted s) bss" "concat (sent_bytes s) = concat bss"
    and inv: "sorted_wrt (<) (map msg_seq (emitted s))" "emitted s \<noteq> []" "fst (hd (emitted s)) = HELLO"
    by (auto simp: stream_inv_def)
  have "packet_type (hd (delivered (\<lambda>t. t) (emitted s))) = HELLO"
    using inv(2,3) by (cases "emitted s") (auto simp: delivered_def frame_of_def)
  with simulator_codec.feed_stream [OF b(1) assms(3,6) _ assms(5)] b(2) assms(4) inv(1)
  show ?thesis by (simp add: delivered_sequences)
qed

definition demo_sim :: "(sim_error, unit) result \<times> simulator" where
  "demo_sim = sim_run (\<lambda>_. []) (demo_sim_args Fragmented) normal 5
     (case encode_packet HELLO_ACK [] 1 7 0 of Inl e \<Rightarrow> [] | Inr bs \<Rightarrow> bs) [] new_simulator"

lemma demo_sim_sent:
  "fst demo_sim = Ok () \<and> emitted (snd demo_sim) = [(HELLO, [], 1, 5)]
   \<and> map length (sent_bytes (snd demo_sim)) = [1, 3, 28]"
  by code_simp

theorem sim_stream_understood_witness:
  "feed_all (sent_bytes (snd demo_sim)) (new_parser 100)
     = (Ok (delivered (\<lambda>t. t) [(HELLO, [], 1, 5)]), new_parser 100)"
proof -
  have r: "sim_run (\<lambda>_. []) (demo_sim_args Fragmented) normal 5
     (case encode_packet HELLO_ACK [] 1 7 0 of Inl e \<Rightarrow> [] | Inr bs \<Rightarrow> bs) [] new_simulator = (Ok (), snd demo_sim)"
    using demo_sim_sent by (simp add: demo_sim_def prod_eq_iff)
  have "chunks_within 0 100 (sent_bytes (snd demo_sim))" "sent_bytes (snd demo_sim) \<noteq> []"
    using demo_sim_sent by (auto simp: chunks_within_def HEADER_SIZE_def map_eq_Cons_conv)
  with sim_stream_understood [OF _ r, where L = 0 and m = 100 and cs = "sent_bytes (snd demo_sim)"] demo_sim_sent
  show ?thesis by (simp add: payloads_within_def demo_sim_args_def)
qed

end
