(* ===== verification/Render.thy ===== *)
theory Render
  imports Simulator Rounding Text
begin

text \<open>
  The frames of the simulator, \<^verbatim>\<open>src/simulator/ignis_simulator/render.py\<close>: what
  \<^verbatim>\<open>render_frame\<close> draws for a stage of a scenario, as the list of the drawing operations in
  their order. Pillow is not under \<^verbatim>\<open>src/\<close>: that it paints these operations and encodes the
  picture is the argument \<open>jpeg\<close>, and whether the font file is there is the argument \<open>arial\<close>.
  The lemmas show that every operation is one Pillow accepts, inside the picture, and that
  the flame of a frame lies in the box the simulator reports for it.
\<close>

section \<open>Drawing\<close>

text \<open>
  Coordinates are pixels, boxes are left, top, right and bottom; an outline has a width. Drawn
  text is a list of code points, since it holds characters beyond those of type \<open>char\<close>.
\<close>

datatype paint = Hex string | Rgb int int int | Rgba int int int int

datatype font = TrueType string int | DefaultFont

type_synonym box = "int \<times> int \<times> int \<times> int"

datatype shape =
  Line box paint
| Rectangle box paint "(paint \<times> int) option"
| Ellipse box paint "(paint \<times> int) option"
| Polygon "(int \<times> int) list" paint
| RoundedRectangle box int paint paint
| Caption "int \<times> int" "nat list" paint font

text \<open>A shape on the picture, or shapes on a transparent layer, blurred and laid over it.\<close>

datatype layer = Draw shape | Overlay "shape list" int

definition font_of :: "bool \<Rightarrow> int \<Rightarrow> font" where
  "font_of arial px = (if arial then TrueType ''arial.ttf'' px else DefaultFont)"

text \<open>The code points of a text, and a number with at least five digits.\<close>

definition codes :: "string \<Rightarrow> nat list" where
  "codes s = map of_char s"

definition five_digits :: "int \<Rightarrow> string" where
  "five_digits n =
     (if n < 0 then CHR ''-'' # replicate (4 - length (str_int (- n))) (CHR ''0'') @ str_int (- n)
      else replicate (5 - length (str_int n)) (CHR ''0'') @ str_int n)"

section \<open>A frame\<close>

definition frame_width :: int where "frame_width = 640"
definition frame_height :: int where "frame_height = 480"

definition backdrop :: "layer list" where
  "backdrop = map (\<lambda>y. let shade = py_int (fadd 16 (fdiv (of_int (20 * y)) (of_int frame_height)))
     in Draw (Line (0, y, frame_width, y) (Rgb shade (shade + 6) (shade + 8)))) [0..frame_height - 1]"

definition room :: "layer list" where
  "room = map Draw
     [Rectangle (42, 74, 598, 432) (Hex ''#1d292d'') (Some (Hex ''#37484d'', 2)),
      Rectangle (74, 294, 348, 408) (Hex ''#263235'') (Some (Hex ''#47575a'', 2)),
      Ellipse (122, 318, 286, 370) (Hex ''#111719'') (Some (Hex ''#5b696b'', 3)),
      Rectangle (410, 244, 548, 410) (Hex ''#20292b'') (Some (Hex ''#48585b'', 2))]"

definition decoys :: "stage \<Rightarrow> string \<Rightarrow> layer list" where
  "decoys st name = (if name = ''hard_negative'' \<and> 0 < fire st
     then [Draw (Rectangle (155, 205, 318, 260) (Hex ''#d64b20'') None),
           Draw (Ellipse (350, 150, 500, 300) (Hex ''#e57026'') None)]
     else [])"

definition haze :: "stage \<Rightarrow> layer list" where
  "haze st = (if hundredths 55 \<le> smoke st
     then [Overlay (map (\<lambda>i. let offset = i * 16 in
         Ellipse (180 + offset, 85 - offset div 2, 390 + offset, 250 + offset div 2)
           (Rgba 150 164 159 (20 + i * 3)) None) [0..7]) 18]
     else [])"

definition flame_size :: "stage \<Rightarrow> int \<times> int" where
  "flame_size st = (py_int (fmul 74 (area_scale st)), py_int (fmul 116 (area_scale st)))"

definition flame :: "stage \<Rightarrow> layer list" where
  "flame st = (if hundredths 55 \<le> fire st
     then let cx = 238; bottom = 358; (w, h) = flame_size st in
       [Draw (Polygon [(cx, bottom - h), (cx + w div 2, bottom - h div 3), (cx + w div 3, bottom),
           (cx - w div 3, bottom), (cx - w div 2, bottom - h div 3)] (Hex ''#ff6b1a'')),
        Draw (Polygon [(cx, bottom - h * 3 div 5), (cx + 18, bottom), (cx - 18, bottom)] (Hex ''#ffd166''))]
     else [])"

definition captions :: "bool \<Rightarrow> int \<Rightarrow> string \<Rightarrow> layer list" where
  "captions arial seqno name = map Draw
     [RoundedRectangle (20, 18, 620, 58) 10 (Hex ''#0a0f11'') (Hex ''#38484c''),
      Caption (36, 30) (codes ''IGNIS REPLAY '' @ [183, 32] @ upper name
        @ [32, 183, 32] @ codes (''FRAME '' @ five_digits seqno)) (Hex ''#d7e3df'') (font_of arial 18),
      Caption (48, 443) (codes ''SIMULATED CAMERA FEED '' @ [8212] @ codes '' NOT QNX HARDWARE'')
        (Hex ''#9fb1ad'') (font_of arial 14)]"

definition drawn :: "bool \<Rightarrow> stage \<Rightarrow> int \<Rightarrow> string \<Rightarrow> layer list" where
  "drawn arial st seqno name =
     backdrop @ room @ decoys st name @ haze st @ flame st @ captions arial seqno name"

text \<open>\<open>jpeg\<close>: a picture of a width and height in one colour, painted over, encoded with a quality.\<close>

definition render_frame ::
  "(int \<Rightarrow> int \<Rightarrow> paint \<Rightarrow> layer list \<Rightarrow> int \<Rightarrow> bytes) \<Rightarrow> bool \<Rightarrow> stage \<Rightarrow> int \<Rightarrow> string \<Rightarrow> bytes" where
  "render_frame jpeg arial st seqno name =
     jpeg frame_width frame_height (Hex ''#10171b'') (drawn arial st seqno name) 78"

section \<open>What Pillow accepts\<close>

text \<open>A box in order inside the picture, whose right and lower edges may be one past the last pixel.\<close>

definition inside :: "int \<times> int \<Rightarrow> bool" where
  "inside p \<longleftrightarrow> (case p of (x, y) \<Rightarrow> 0 \<le> x \<and> x \<le> frame_width \<and> 0 \<le> y \<and> y < frame_height)"

definition box_ok :: "box \<Rightarrow> bool" where
  "box_ok b \<longleftrightarrow> (case b of (l, t, r, d) \<Rightarrow> inside (l, t) \<and> inside (r, d) \<and> l \<le> r \<and> t \<le> d)"

definition channel :: "int \<Rightarrow> bool" where "channel v \<longleftrightarrow> 0 \<le> v \<and> v \<le> 255"

fun paint_ok :: "paint \<Rightarrow> bool" where
  "paint_ok (Hex s) \<longleftrightarrow> length s = 7 \<and> hd s = CHR ''#''
     \<and> list_all (\<lambda>c. between 48 57 c \<or> between 97 102 c) (tl s)"
| "paint_ok (Rgb r g b) \<longleftrightarrow> channel r \<and> channel g \<and> channel b"
| "paint_ok (Rgba r g b a) \<longleftrightarrow> channel r \<and> channel g \<and> channel b \<and> channel a"

definition outline_ok :: "(paint \<times> int) option \<Rightarrow> bool" where
  "outline_ok ol \<longleftrightarrow> (case ol of None \<Rightarrow> True | Some (p, w) \<Rightarrow> paint_ok p \<and> 0 < w)"

fun shape_ok :: "shape \<Rightarrow> bool" where
  "shape_ok (Line b p) \<longleftrightarrow> box_ok b \<and> paint_ok p"
| "shape_ok (Rectangle b p ol) \<longleftrightarrow> box_ok b \<and> paint_ok p \<and> outline_ok ol"
| "shape_ok (Ellipse b p ol) \<longleftrightarrow> box_ok b \<and> paint_ok p \<and> outline_ok ol"
| "shape_ok (Polygon ps p) \<longleftrightarrow> 2 \<le> length ps \<and> list_all inside ps \<and> paint_ok p"
| "shape_ok (RoundedRectangle b r p q) \<longleftrightarrow> box_ok b \<and> 0 \<le> r \<and> paint_ok p \<and> paint_ok q"
| "shape_ok (Caption pos text p f) \<longleftrightarrow> inside pos \<and> paint_ok p"

fun layer_ok :: "layer \<Rightarrow> bool" where
  "layer_ok (Draw s) = shape_ok s"
| "layer_ok (Overlay ss r) \<longleftrightarrow> 0 \<le> r \<and> list_all shape_ok ss"

section \<open>Lemmas\<close>

lemma fl_of_int: "\<bar>n\<bar> \<le> 2 ^ 53 \<Longrightarrow> fl (of_int n) = of_int n"
  by (intro fl_representable representable_of_int)

lemma py_int_nonneg:
  assumes "0 \<le> x" shows "0 \<le> py_int x" "of_int (py_int x) \<le> x" "x < of_int (py_int x) + 1"
  using assms by (simp_all add: py_int_def) linarith

lemma shade_bounds:
  assumes "0 \<le> y" "y \<le> 479"
  shows "16 \<le> py_int (fadd 16 (fdiv (of_int (20 * y)) (of_int frame_height)))"
    and "py_int (fadd 16 (fdiv (of_int (20 * y)) (of_int frame_height))) \<le> 36"
proof -
  define v where "v = fadd 16 (fdiv (of_int (20 * y)) (of_int frame_height))"
  from assms have q: "0 \<le> (of_int (20 * y) :: rat) / of_int frame_height"
    "(of_int (20 * y) :: rat) / of_int frame_height \<le> 20"
    by (simp_all add: frame_height_def)
  with fl_mono [OF q(2)] fl_of_int [of 20] fl_nonneg [OF q(1)]
  have "0 \<le> fdiv (of_int (20 * y)) (of_int frame_height)" "fdiv (of_int (20 * y)) (of_int frame_height) \<le> 20"
    by (simp_all add: fdiv_def)
  with fl_mono [of 16 "16 + fdiv (of_int (20 * y)) (of_int frame_height)"]
    fl_mono [of "16 + fdiv (of_int (20 * y)) (of_int frame_height)" 36] fl_of_int [of 16] fl_of_int [of 36]
  have "16 \<le> v" "v \<le> 36" by (simp_all add: v_def fadd_def)
  then have "of_int (py_int v) \<le> (36 :: rat)" "(16 :: rat) < of_int (py_int v) + 1"
    using py_int_nonneg [of v] by linarith+
  then have "py_int v \<le> 36" "16 < py_int v + 1" by linarith+
  then show "16 \<le> py_int (fadd 16 (fdiv (of_int (20 * y)) (of_int frame_height)))"
    and "py_int (fadd 16 (fdiv (of_int (20 * y)) (of_int frame_height))) \<le> 36"
    unfolding v_def by simp_all
qed

text \<open>The size of the flame, up to rounding: \<open>w \<le> 74 s\<close> and \<open>h \<le> 116 s\<close>.\<close>

lemma scaled_size:
  assumes "0 \<le> s" "s \<le> 3" "0 \<le> k" "k \<le> 300"
  shows "0 \<le> py_int (fmul k s)" "of_int (py_int (fmul k s)) \<le> k * s + 1 / 1000000000"
proof -
  have ks: "0 \<le> k * s" "k * s \<le> 1000"
    using assms mult_mono [of k 300 s 3] by auto
  then have "0 \<le> fmul k s" "\<bar>fmul k s - k * s\<bar> \<le> 1 / 1000000000"
    using fl_nonneg fl_near [of "k * s"] by (simp_all add: fmul_def)
  with py_int_nonneg [of "fmul k s"]
  show "0 \<le> py_int (fmul k s)" "of_int (py_int (fmul k s)) \<le> k * s + 1 / 1000000000"
    by linarith+
qed

lemma flame_bounds:
  assumes "0 \<le> area_scale st" "area_scale st \<le> 3" and "flame_size st = (w, h)"
  shows "0 \<le> w" "0 \<le> h" "of_int w \<le> 74 * area_scale st + 1 / 1000000000"
    "of_int h \<le> 116 * area_scale st + 1 / 1000000000" "w \<le> 222" "h \<le> 348"
proof -
  from assms scaled_size [of "area_scale st" 74] scaled_size [of "area_scale st" 116]
  show b: "0 \<le> w" "0 \<le> h" "of_int w \<le> 74 * area_scale st + 1 / 1000000000"
    "of_int h \<le> 116 * area_scale st + 1 / 1000000000"
    by (auto simp: flame_size_def)
  with assms(2) have "of_int w < (223 :: rat)" "of_int h < (349 :: rat)" by linarith+
  then show "w \<le> 222" "h \<le> 348" by linarith+
qed

lemma backdrop_ok: "list_all layer_ok backdrop"
proof -
  have "layer_ok (let shade = py_int (fadd 16 (fdiv (of_int (20 * y)) (of_int frame_height)))
      in Draw (Line (0, y, frame_width, y) (Rgb shade (shade + 6) (shade + 8))))" if "y \<in> {0..479}" for y
    using that shade_bounds [of y]
    by (simp add: Let_def box_ok_def inside_def channel_def frame_width_def frame_height_def)
  then show ?thesis by (simp add: backdrop_def list_all_iff frame_height_def)
qed

lemma haze_ok: "list_all layer_ok (haze st)"
  by (simp add: haze_def Let_def upto.simps box_ok_def inside_def channel_def outline_ok_def
      frame_width_def frame_height_def)

lemma flame_ok:
  assumes "0 \<le> area_scale st" "area_scale st \<le> 3"
  shows "list_all layer_ok (flame st)"
proof -
  obtain w h where wh: "flame_size st = (w, h)" by force
  from flame_bounds [OF assms wh]
  have "0 \<le> w div 2" "w div 2 \<le> 111" "0 \<le> w div 3" "w div 3 \<le> 74" "0 \<le> h div 3" "h div 3 \<le> 116"
    "0 \<le> h * 3 div 5" "h * 3 div 5 \<le> 208" "h \<le> 348" "0 \<le> h"
    by (simp_all add: pos_imp_zdiv_nonneg_iff)
  moreover from this(1) have "- (w div 2) \<le> 402" by linarith
  ultimately show ?thesis
    by (simp add: flame_def wh inside_def frame_width_def frame_height_def between_def)
qed

text \<open>A rounded literal, and its product with a scale, stay within \<open>1 / 10\<^sup>8\<close> of the exact value.\<close>

lemma near_iff: "\<bar>x - y\<bar> \<le> e \<longleftrightarrow> y - e \<le> x \<and> x \<le> y + e" for x y e :: rat
  by linarith

lemma hundredths_near:
  assumes "0 \<le> n" "n \<le> 100"
  shows "\<bar>hundredths n - of_int n / 100\<bar> \<le> 1 / 1000000000"
  unfolding hundredths_def using assms by (intro fl_near) simp

lemma scaled_near:
  assumes "0 \<le> s" "s \<le> 3" "0 \<le> n" "n \<le> 100"
  shows "\<bar>fmul (hundredths n) s - of_int n / 100 * s\<bar> \<le> 1 / 200000000"
proof -
  note n = hundredths_near [OF assms(3,4)]
  have "hundredths n * s - of_int n / 100 * s = (hundredths n - of_int n / 100) * s"
    by (simp add: left_diff_distrib)
  then have "\<bar>hundredths n * s - of_int n / 100 * s\<bar> = \<bar>hundredths n - of_int n / 100\<bar> * s"
    using assms(1) by (simp only: abs_mult abs_of_nonneg)
  also have "\<dots> \<le> 1 / 1000000000 * 3" using n assms(1,2) by (intro mult_mono) auto
  finally have d: "\<bar>hundredths n * s - of_int n / 100 * s\<bar> \<le> 3 / 1000000000" by simp
  have "of_int n / 100 \<le> (1 :: rat)" "0 \<le> (of_int n / 100 :: rat)" using assms(3,4) by simp_all
  with n have "\<bar>hundredths n\<bar> \<le> 2" by linarith
  then have "\<bar>hundredths n * s\<bar> \<le> 2 * 3" using assms(1,2) unfolding abs_mult by (intro mult_mono) auto
  then have "\<bar>fmul (hundredths n) s - hundredths n * s\<bar> \<le> 1 / 1000000000"
    unfolding fmul_def by (intro fl_near) simp
  with d show ?thesis by linarith
qed

lemma affine_near:
  assumes "0 \<le> s" "s \<le> 3" "0 \<le> m" "m \<le> 100" "0 \<le> n" "n \<le> 100"
  shows "\<bar>fsub (hundredths m) (fmul (hundredths n) s) - (of_int m / 100 - of_int n / 100 * s)\<bar> \<le> 1 / 100000000"
    and "\<bar>fadd (hundredths m) (fmul (hundredths n) s) - (of_int m / 100 + of_int n / 100 * s)\<bar> \<le> 1 / 100000000"
proof -
  note m = hundredths_near [OF assms(3,4), unfolded near_iff] and n = scaled_near [OF assms(1,2,5,6), unfolded near_iff]
  have "0 \<le> (of_int m / 100 :: rat)" "of_int m / 100 \<le> (1 :: rat)" using assms(3,4) by simp_all
  moreover have "0 \<le> (of_int n / 100 * s :: rat)" "of_int n / 100 * s \<le> 1 * 3"
    using assms by (simp, intro mult_mono) auto
  ultimately have "\<bar>hundredths m - fmul (hundredths n) s\<bar> \<le> 1000" "\<bar>hundredths m + fmul (hundredths n) s\<bar> \<le> 1000"
    using m n by linarith+
  from this [THEN fl_near, unfolded near_iff] m n
  show "\<bar>fsub (hundredths m) (fmul (hundredths n) s) - (of_int m / 100 - of_int n / 100 * s)\<bar> \<le> 1 / 100000000"
    and "\<bar>fadd (hundredths m) (fmul (hundredths n) s) - (of_int m / 100 + of_int n / 100 * s)\<bar> \<le> 1 / 100000000"
    unfolding near_iff fsub_def fadd_def by linarith+
qed

lemma half_bound: "2 * \<bar>d\<bar> \<le> w \<Longrightarrow> w \<le> 74 * s + 1 / 1000000000 \<Longrightarrow> \<bar>d\<bar> \<le> 37 * s + 1 / 1000000000"
  for d w s :: rat
  by linarith

lemma polygon_drawn:
  "Draw (Polygon ps paint) \<in> set (drawn arial st seqno name) \<Longrightarrow> Draw (Polygon ps paint) \<in> set (flame st)"
  by (auto simp: drawn_def backdrop_def Let_def room_def decoys_def haze_def captions_def split: if_splits)

section \<open>Properties\<close>

text \<open>
  Every frame of the simulator is one Pillow draws: whatever the stage, the number and the
  name of the scenario, as long as the flame is scaled by at most 3, all boxes are in order
  and inside the picture, all points of polygons and captions are inside, and all colours are
  colours.
\<close>

theorem frame_drawable:
  assumes "0 \<le> area_scale st" and "area_scale st \<le> 3"
  shows "list_all layer_ok (drawn arial st seqno name)"
proof -
  have "list_all layer_ok room" "list_all layer_ok (decoys st name)" "list_all layer_ok (captions arial seqno name)"
    by (simp_all add: room_def decoys_def captions_def box_ok_def inside_def outline_ok_def frame_width_def
        frame_height_def between_def)
  with backdrop_ok haze_ok flame_ok [OF assms] show ?thesis by (simp add: drawn_def)
qed

theorem frame_drawable_witness:
  "list_all layer_ok (drawn True (last (stages confirmed_fire)) 7 ''confirmed_fire'')"
proof -
  have "0 \<le> area_scale (last (stages confirmed_fire))" "area_scale (last (stages confirmed_fire)) \<le> 3"
    by code_simp+
  then show ?thesis by (rule frame_drawable)
qed

text \<open>A corner of a flame of width \<open>w\<close> and height \<open>h\<close> lies in the box that is reported.\<close>

lemma corner_reported:
  assumes "flame_size st = (w, h)" and "s = area_scale st" and "1 / 2 \<le> s" and "s \<le> 5 / 2"
    and "\<bar>x - 238\<bar> \<le> w div 2 \<or> \<bar>x - 238\<bar> \<le> 18" and "358 - h \<le> y" and "y \<le> 358"
  shows "max (hundredths 8) (fsub (hundredths 37) (fmul (hundredths 6) s)) \<le> of_int x / 640 \<and>
      of_int x / 640 \<le> min (hundredths 92) (fadd (hundredths 37) (fmul (hundredths 8) s)) \<and>
      max (hundredths 8) (fsub (hundredths 68) (fmul (hundredths 22) s)) \<le> of_int y / 480 \<and>
      of_int y / 480 \<le> hundredths 76"
proof -
  from assms(3,4) have s: "0 \<le> s" "s \<le> 3" by simp_all
  note b = flame_bounds [OF s [unfolded assms(2)] assms(1), folded assms(2)]
  note box = affine_near [OF s, of 37 6, unfolded near_iff, simplified]
    affine_near [OF s, of 68 22, unfolded near_iff, simplified]
    affine_near [OF s, of 37 8, unfolded near_iff, simplified]
    hundredths_near [of 8, unfolded near_iff, simplified] hundredths_near [of 92, unfolded near_iff, simplified]
    hundredths_near [of 76, unfolded near_iff, simplified]
  have "2 * (w div 2) \<le> w" by linarith
  with assms(5) have "2 * \<bar>x - 238\<bar> \<le> w \<or> \<bar>x - 238\<bar> \<le> 18" by auto
  with of_int_le_iff [of "2 * \<bar>x - 238\<bar>" w, where 'a = rat] of_int_le_iff [of "\<bar>x - 238\<bar>" 18, where 'a = rat]
  have "2 * \<bar>of_int x - 238\<bar> \<le> (of_int w :: rat) \<or> \<bar>of_int x - 238\<bar> \<le> (18 :: rat)" by simp
  then have x: "\<bar>of_int x - 238\<bar> \<le> 37 * s + 1 / 1000000000"
  proof
    assume "2 * \<bar>of_int x - 238\<bar> \<le> (of_int w :: rat)"
    with b(3) show ?thesis by (intro half_bound)
  next
    assume "\<bar>of_int x - 238\<bar> \<le> (18 :: rat)"
    with assms(3) show ?thesis by linarith
  qed
  from assms(6,7) have "(of_int (358 - h) :: rat) \<le> of_int y" "(of_int y :: rat) \<le> of_int 358"
    unfolding of_int_le_iff .
  with b(4) have y: "358 - (116 * s + 1 / 1000000000) \<le> of_int y" "of_int y \<le> (358 :: rat)" by simp_all
  from x have "238 - (37 * s + 1 / 1000000000) \<le> of_int x" "of_int x \<le> 238 + (37 * s + 1 / 1000000000)"
    by linarith+
  with y assms(3,4) s box show ?thesis
    unfolding max.bounded_iff min.bounded_iff by (intro conjI) linarith+
qed

text \<open>
  The flame a frame shows is the fire the simulator reports with it: whenever a flame is drawn,
  for a scale between a half and two and a half, the first detection of the frame is a fire and
  every corner of the flame, as a fraction of the picture, lies in the box of that detection.
\<close>

theorem drawn_flame_reported:
  assumes "Draw (Polygon ps paint) \<in> set (drawn arial st seqno name)"
    and "1 / 2 \<le> area_scale st" and "area_scale st \<le> 5 / 2"
  shows "\<exists>a b c d others.
    sim_detections st = JObj [(''class_name'', JStr ''fire''), (''class_id'', JInt 0),
      (''confidence'', JNum (fire st)), (''bbox'', sim_box a b c d)] # others \<and>
    list_all (\<lambda>(x, y). a \<le> of_int x / of_int frame_width \<and> of_int x / of_int frame_width \<le> c \<and>
      b \<le> of_int y / of_int frame_height \<and> of_int y / of_int frame_height \<le> d) ps"
proof -
  obtain w h where wh: "flame_size st = (w, h)" by force
  define s where "s = area_scale st"
  from assms(2,3) have s: "1 / 2 \<le> s" "s \<le> 5 / 2" "0 \<le> s" "s \<le> 3" by (simp_all add: s_def)
  from polygon_drawn [OF assms(1)] have f: "hundredths 55 \<le> fire st" and ps:
    "ps = [(238, 358 - h), (238 + w div 2, 358 - h div 3), (238 + w div 3, 358), (238 - w div 3, 358),
        (238 - w div 2, 358 - h div 3)] \<or> ps = [(238, 358 - h * 3 div 5), (256, 358), (220, 358)]"
    by (auto simp: flame_def wh Let_def split: if_splits)
  from hundredths_near [of 55] have "0 < hundredths 55" unfolding near_iff by simp
  with f have "0 < fire st" by simp
  note b = flame_bounds [OF s(3,4) [unfolded s_def] wh, folded s_def]
  have q: "0 \<le> w div 2" "0 \<le> w div 3" "0 \<le> h div 3" "0 \<le> h * 3 div 5" "w div 3 \<le> w div 2" "2 * (w div 2) \<le> w"
    "h div 3 \<le> h" "h * 3 div 5 \<le> h"
    using b by linarith+
  have "list_all (\<lambda>(x, y). (\<bar>x - 238\<bar> \<le> w div 2 \<or> \<bar>x - 238\<bar> \<le> 18) \<and> 358 - h \<le> y \<and> y \<le> 358) ps"
    using ps q b(1,2) by auto
  then have "list_all (\<lambda>(x, y). max (hundredths 8) (fsub (hundredths 37) (fmul (hundredths 6) s)) \<le> of_int x / 640 \<and>
      of_int x / 640 \<le> min (hundredths 92) (fadd (hundredths 37) (fmul (hundredths 8) s)) \<and>
      max (hundredths 8) (fsub (hundredths 68) (fmul (hundredths 22) s)) \<le> of_int y / 480 \<and>
      of_int y / 480 \<le> hundredths 76) ps"
    unfolding list_all_iff using corner_reported [OF wh s_def s(1,2)] by blast
  moreover have "sim_detections st = JObj [(''class_name'', JStr ''fire''), (''class_id'', JInt 0),
      (''confidence'', JNum (fire st)), (''bbox'', sim_box
        (max (hundredths 8) (fsub (hundredths 37) (fmul (hundredths 6) s)))
        (max (hundredths 8) (fsub (hundredths 68) (fmul (hundredths 22) s)))
        (min (hundredths 92) (fadd (hundredths 37) (fmul (hundredths 8) s))) (hundredths 76))] # drop 1 (sim_detections st)"
    using \<open>0 < fire st\<close> by (simp add: sim_detections_def s_def Let_def)
  ultimately show ?thesis
    unfolding frame_width_def frame_height_def of_int_numeral by blast
qed

text \<open>The last stage of the confirmed fire, whose flame is scaled by 1.38.\<close>

lemma largest_flame: "flame_size (last (stages confirmed_fire)) = (102, 160)"
  by code_simp

theorem drawn_flame_reported_witness:
  "\<exists>a b c d others.
    sim_detections (last (stages confirmed_fire)) = JObj [(''class_name'', JStr ''fire''), (''class_id'', JInt 0),
      (''confidence'', JNum (hundredths 93)), (''bbox'', sim_box a b c d)] # others \<and>
    a \<le> 187 / 640 \<and> 289 / 640 \<le> c \<and> b \<le> 198 / 480 \<and> 358 / 480 \<le> d"
proof -
  let ?st = "last (stages confirmed_fire)"
  have "hundredths 55 \<le> fire ?st" "1 / 2 \<le> area_scale ?st" "area_scale ?st \<le> 5 / 2" by code_simp+
  moreover from this(1) largest_flame have
    "Draw (Polygon [(238, 198), (289, 305), (272, 358), (204, 358), (187, 305)] (Hex ''#ff6b1a''))
       \<in> set (drawn True ?st 1 ''confirmed_fire'')"
    by (simp add: drawn_def flame_def)
  ultimately obtain a b c d others where
    "sim_detections ?st = JObj [(''class_name'', JStr ''fire''), (''class_id'', JInt 0),
      (''confidence'', JNum (fire ?st)), (''bbox'', sim_box a b c d)] # others"
    "list_all (\<lambda>(x, y). a \<le> of_int x / of_int frame_width \<and> of_int x / of_int frame_width \<le> c \<and>
      b \<le> of_int y / of_int frame_height \<and> of_int y / of_int frame_height \<le> d)
      [(238, 198), (289, 305), (272, 358), (204, 358), (187, 305)]"
    using drawn_flame_reported by blast
  moreover have "fire ?st = hundredths 93" by (simp add: confirmed_fire_def)
  ultimately show ?thesis
    by (intro exI [of _ a] exI [of _ b] exI [of _ c] exI [of _ d] exI [of _ others])
      (simp add: frame_width_def frame_height_def field_simps)
qed

text \<open>
  The primary box of the incident update has fixed left and right edges: at that stage the
  flame reaches past its left edge, 0.31.
\<close>

lemma primary_box_misses_flame:
  "\<exists>ps paint. Draw (Polygon ps paint) \<in> set (flame (last (stages confirmed_fire))) \<and>
     list_ex (\<lambda>(x, y). of_int x / of_int frame_width < hundredths 31) ps"
proof -
  have "hundredths 55 \<le> fire (last (stages confirmed_fire))" "187 / 640 < hundredths 31" by code_simp+
  with largest_flame show ?thesis by (auto simp: flame_def frame_width_def)
qed

end
