(* ===== verification/Codec.thy ===== *)
theory Codec
  imports Json Text Wire
begin

text \<open>
  A text of JSON for the examples: an encoding of values as bytes that is read back exactly. The
  theorems take \<open>json.dumps\<close> and \<open>json.loads\<close> as arguments; this pair shows that
  what they ask of them can be met.
\<close>

definition char_byte :: "char \<Rightarrow> byte" where
  "char_byte c = word_of_nat (of_char c)"

definition byte_char :: "byte \<Rightarrow> char" where
  "byte_char b = char_of (unat b)"

lemma byte_char [simp]: "byte_char (char_byte c) = c"
  by (simp add: byte_char_def char_byte_def unsigned_of_nat take_bit_nat_eq_self)

fun put_text :: "string \<Rightarrow> bytes" where
  "put_text [] = [0]"
| "put_text (c # cs) = 1 # char_byte c # put_text cs"

fun get_text :: "bytes \<Rightarrow> (string \<times> bytes) option" where
  "get_text (b # c # bs) = (if b = 0 then Some ([], c # bs)
     else map_option (\<lambda>(s, r). (byte_char c # s, r)) (get_text bs))"
| "get_text [b] = (if b = 0 then Some ([], []) else None)"
| "get_text [] = None"

lemma get_put_text [simp]: "get_text (put_text s @ r) = Some (s, r)"
proof (induction s)
  case Nil
  show ?case by (cases r) simp_all
qed simp

definition put_int :: "int \<Rightarrow> bytes" where
  "put_int i = put_text (str_int i)"

definition get_int :: "bytes \<Rightarrow> (int \<times> bytes) option" where
  "get_int bs = (case get_text bs of None \<Rightarrow> None
     | Some (s, r) \<Rightarrow> map_option (\<lambda>i. (i, r)) (int_of_text s))"

lemma get_put_int [simp]: "get_int (put_int i @ r) = Some (i, r)"
  by (simp add: get_int_def put_int_def int_of_text_str_int)

fun put_json :: "json \<Rightarrow> bytes" where
  "put_json JNull = [0]"
| "put_json (JBool b) = [if b then 1 else 2]"
| "put_json (JInt i) = 3 # put_int i"
| "put_json (JNum x) = 4 # put_int (fst (quotient_of x)) @ put_int (snd (quotient_of x))"
| "put_json (JStr s) = 5 # put_text s"
| "put_json (JArr xs) = 6 # concat (map (\<lambda>x. 1 # put_json x) xs) @ [0]"
| "put_json (JObj d) = 7 # concat (map (\<lambda>p. 1 # put_text (fst p) @ put_json (snd p)) d) @ [0]"

text \<open>The reader; its fuel bounds the bytes it looks at.\<close>

fun get_json :: "nat \<Rightarrow> bytes \<Rightarrow> (json \<times> bytes) option"
  and get_list :: "nat \<Rightarrow> bytes \<Rightarrow> (json list \<times> bytes) option"
  and get_dict :: "nat \<Rightarrow> bytes \<Rightarrow> (dict \<times> bytes) option"
where
  "get_json (Suc n) (b # bs) =
     (if b = 0 then Some (JNull, bs) else if b = 1 then Some (JBool True, bs)
      else if b = 2 then Some (JBool False, bs)
      else if b = 3 then map_option (\<lambda>(i, r). (JInt i, r)) (get_int bs)
      else if b = 4 then Option.bind (get_int bs) (\<lambda>(p, r). Option.bind (get_int r)
          (\<lambda>(q, r). Some (JNum (of_int p / of_int q), r)))
      else if b = 5 then map_option (\<lambda>(s, r). (JStr s, r)) (get_text bs)
      else if b = 6 then map_option (\<lambda>(xs, r). (JArr xs, r)) (get_list n bs)
      else if b = 7 then map_option (\<lambda>(d, r). (JObj d, r)) (get_dict n bs)
      else None)"
| "get_json _ _ = None"
| "get_list (Suc n) (b # bs) = (if b = 0 then Some ([], bs)
     else Option.bind (get_json n bs) (\<lambda>(x, r). map_option (\<lambda>(xs, r). (x # xs, r)) (get_list n r)))"
| "get_list _ _ = None"
| "get_dict (Suc n) (b # bs) = (if b = 0 then Some ([], bs)
     else Option.bind (get_text bs) (\<lambda>(k, r). Option.bind (get_json n r)
       (\<lambda>(v, r). map_option (\<lambda>(d, r). ((k, v) # d, r)) (get_dict n r))))"
| "get_dict _ _ = None"

lemma put_json_nonempty [simp]: "put_json j \<noteq> []"
  by (cases j) simp_all

lemma rat_of_quotient: "(of_int (fst (quotient_of x)) / of_int (snd (quotient_of x)) :: rat) = x"
  using quotient_of_div [of x] by (cases "quotient_of x") simp

lemma get_list_put:
  assumes "\<And>x n r. x \<in> set xs \<Longrightarrow> length (put_json x) \<le> n \<Longrightarrow> get_json n (put_json x @ r) = Some (x, r)"
    and "length (concat (map (\<lambda>x. 1 # put_json x) xs)) < n"
  shows "get_list n (concat (map (\<lambda>x. 1 # put_json x) xs) @ 0 # r) = Some (xs, r)"
  using assms
proof (induction xs arbitrary: n)
  case Nil
  then show ?case by (cases n) simp_all
next
  case (Cons x xs)
  then obtain m where n: "n = Suc m" by (cases n) auto
  from Cons.prems(2) have m: "length (put_json x) \<le> m" "length (concat (map (\<lambda>x. 1 # put_json x) xs)) < m"
    using put_json_nonempty [of x] by (simp_all add: n flip: length_greater_0_conv del: put_json_nonempty)
  from Cons.prems(1) [OF _ m(1)] have "get_json m (put_json x @ r') = Some (x, r')" for r' by simp
  moreover have "get_list m (concat (map (\<lambda>x. 1 # put_json x) xs) @ 0 # r) = Some (xs, r)"
    using Cons.prems(1) m(2) by (intro Cons.IH) simp_all
  ultimately show ?case by (simp add: n)
qed

lemma get_dict_put:
  assumes "\<And>p n r. p \<in> set d \<Longrightarrow> length (put_json (snd p)) \<le> n \<Longrightarrow>
      get_json n (put_json (snd p) @ r) = Some (snd p, r)"
    and "length (concat (map (\<lambda>p. 1 # put_text (fst p) @ put_json (snd p)) d)) < n"
  shows "get_dict n (concat (map (\<lambda>p. 1 # put_text (fst p) @ put_json (snd p)) d) @ 0 # r) = Some (d, r)"
  using assms
proof (induction d arbitrary: n)
  case Nil
  then show ?case by (cases n) simp_all
next
  case (Cons p d)
  obtain k v where p: "p = (k, v)" by (cases p)
  from Cons obtain m where n: "n = Suc m" by (cases n) auto
  from Cons.prems(2) have m: "length (put_json v) \<le> m"
    "length (concat (map (\<lambda>p. 1 # put_text (fst p) @ put_json (snd p)) d)) < m"
    using put_json_nonempty [of v] by (simp_all add: n p flip: length_greater_0_conv del: put_json_nonempty)
  from Cons.prems(1) [of p m] m(1) have "get_json m (put_json v @ r') = Some (v, r')" for r' by (simp add: p)
  moreover have "get_dict m (concat (map (\<lambda>p. 1 # put_text (fst p) @ put_json (snd p)) d) @ 0 # r) = Some (d, r)"
    using Cons.prems(1) m(2) by (intro Cons.IH) simp_all
  ultimately show ?case by (simp add: n p)
qed

lemma get_put_json: "length (put_json j) \<le> n \<Longrightarrow> get_json n (put_json j @ r) = Some (j, r)"
proof (induction j arbitrary: n r)
  case (JArr xs)
  then obtain m where n: "n = Suc m" by (cases n) auto
  have "get_list m (concat (map (\<lambda>x. 1 # put_json x) xs) @ 0 # r) = Some (xs, r)"
    by (rule get_list_put) (use JArr n in \<open>simp_all del: put_json.simps get_json.simps add: put_json.simps(6)\<close>)
  then show ?case by (simp add: n)
next
  case (JObj d)
  then obtain m where n: "n = Suc m" by (cases n) auto
  have "get_json k (put_json (snd p) @ r) = Some (snd p, r)"
    if "p \<in> set d" "length (put_json (snd p)) \<le> k" for p k r
    using JObj.IH [of p "snd p"] that by (cases p) (auto simp del: put_json.simps get_json.simps)
  then have "get_dict m (concat (map (\<lambda>p. 1 # put_text (fst p) @ put_json (snd p)) d) @ 0 # r) = Some (d, r)"
    by (rule get_dict_put) (use JObj.prems n in simp_all)
  then show ?case by (simp add: n)
next
  case (JNum x)
  then obtain m where "n = Suc m" by (cases n) auto
  then show ?case by (simp add: rat_of_quotient)
next
  case (JBool b)
  then obtain m where "n = Suc m" by (cases n) auto
  then show ?case by simp
next
  case (JInt i)
  then obtain m where "n = Suc m" by (cases n) auto
  then show ?case by simp
next
  case (JStr s)
  then obtain m where "n = Suc m" by (cases n) auto
  then show ?case by simp
next
  case JNull
  then obtain m where "n = Suc m" by (cases n) auto
  then show ?case by simp
qed

definition code_dumps :: "dict \<Rightarrow> bytes" where
  "code_dumps d = put_json (JObj d)"

definition code_loads :: "bytes \<Rightarrow> json option" where
  "code_loads bs = map_option fst (get_json (length bs) bs)"

lemma code_round_trip: "code_loads (code_dumps d) = Some (JObj d)"
  using get_put_json [of "JObj d" "length (code_dumps d)" "[]"] by (simp add: code_loads_def code_dumps_def del: put_json.simps)

text \<open>The length of the code, without the bytes and on the integers.\<close>

function decimals :: "int \<Rightarrow> int" where
  "decimals i = (if i < 10 then 1 else 1 + decimals (i div 10))"
  by pat_completeness auto
termination by (relation "measure nat") auto

declare decimals.simps [simp del]

definition text_size :: "string \<Rightarrow> int" where
  "text_size s = 2 * int (length s) + 1"

definition int_size :: "int \<Rightarrow> int" where
  "int_size i = (if i < 0 then 2 * decimals (- i) + 3 else 2 * decimals i + 1)"

fun json_size :: "json \<Rightarrow> int" where
  "json_size JNull = 1"
| "json_size (JBool b) = 1"
| "json_size (JInt i) = 1 + int_size i"
| "json_size (JNum x) = 1 + int_size (fst (quotient_of x)) + int_size (snd (quotient_of x))"
| "json_size (JStr s) = 1 + text_size s"
| "json_size (JArr xs) = 2 + sum_list (map (\<lambda>x. 1 + json_size x) xs)"
| "json_size (JObj d) = 2 + sum_list (map (\<lambda>p. 1 + text_size (fst p) + json_size (snd p)) d)"

lemma length_digits: "int (length (digits n)) = decimals (int n)"
proof (induction n rule: digits.induct)
  case (1 n)
  then show ?case by (subst digits.simps, subst decimals.simps) (simp add: zdiv_int)
qed

lemma length_str_nat: "int (length (str_nat n)) = decimals (int n)"
  by (simp add: str_nat_def length_digits)

lemma length_put_text: "int (length (put_text s)) = text_size s"
  by (induction s) (simp_all add: text_size_def)

lemma length_put_int: "int (length (put_int i)) = int_size i"
  by (simp add: put_int_def length_put_text text_size_def str_int_def length_str_nat int_size_def)

lemma int_length_concat: "int (length (concat (map f xs))) = sum_list (map (\<lambda>x. int (length (f x))) xs)"
  by (induction xs) simp_all

lemma length_put_json: "int (length (put_json j)) = json_size j"
proof (induction j)
  case (JArr xs)
  then have "map (\<lambda>x. int (length (1 # put_json x))) xs = map (\<lambda>x. 1 + json_size x) xs" by simp
  then show ?case using int_length_concat [of "\<lambda>x. 1 # put_json x" xs] by (simp only: put_json.simps json_size.simps) simp
next
  case (JObj d)
  have "int (length (put_json (snd p))) = json_size (snd p)" if "p \<in> set d" for p
    using JObj.IH [of p "snd p"] that by (cases p) auto
  then have "map (\<lambda>p. int (length (1 # put_text (fst p) @ put_json (snd p)))) d
      = map (\<lambda>p. 1 + text_size (fst p) + json_size (snd p)) d"
    by (simp add: length_put_text)
  then show ?case using int_length_concat [of "\<lambda>p. 1 # put_text (fst p) @ put_json (snd p)" d]
    by (simp only: put_json.simps json_size.simps) simp
qed (simp_all add: length_put_int length_put_text)

lemma length_code_dumps: "int (length (code_dumps d)) = json_size (JObj d)"
  by (simp only: code_dumps_def length_put_json)

end
