(* ===== verification/Pipeline.thy ===== *)
theory Pipeline
  imports Edge System Codec
begin

text \<open>
  The edge and the backend together: the packets the device program writes on its connection,
  handled by the backend one after the other. While the network holds, every packet is accepted
  and the backend's row of the open incident follows the edge's state.
\<close>

section \<open>Packets at their times\<close>

type_synonym timed = "clock \<times> int \<times> bool \<times> packet"

fun on_timed :: "env \<Rightarrow> timed list \<Rightarrow> session \<times> world \<Rightarrow> (failure, unit) result \<times> session \<times> world" where
  "on_timed env [] sw = (Ok (), sw)"
| "on_timed env ((ck, bns, dr, k) # tks) sw = (case on_packet env ck bns dr k sw of
       (Inl f, sw) \<Rightarrow> (Err f, sw)
     | (Inr _, sw) \<Rightarrow> on_timed env tks sw)"

definition packet_of :: "timed \<Rightarrow> packet" where
  "packet_of tk = snd (snd (snd tk))"

lemma on_timed_snoc:
  "on_timed env tks sw = (Inr u, sw') \<Longrightarrow> on_timed env (tks @ [tk]) sw = on_timed env [tk] sw'"
  by (induction env tks sw rule: on_timed.induct) (auto split: prod.splits sum.splits)

lemma on_packets_timed:
  "on_packets env ck bns dr ks sw = on_timed env (map (\<lambda>k. (ck, bns, dr, k)) ks) sw"
  by (induction ks arbitrary: sw) (auto split: prod.split sum.split)

text \<open>
  All packets sent on the link so far are accepted by the session \<open>sw\<close> whenever they are
  handled, and \<open>P\<close> holds of the world afterwards.
\<close>

definition follows :: "env \<Rightarrow> session \<times> world \<Rightarrow> (world \<Rightarrow> bool) \<Rightarrow> stream \<Rightarrow> bool" where
  "follows env sw P s \<longleftrightarrow> (\<forall>tks. map packet_of tks = delivered edge_type (last_sent s) \<longrightarrow>
     (\<forall>tk \<in> set tks. fits 8 (fst (snd tk))) \<longrightarrow>
     (\<exists>s' w'. on_timed env tks sw = (Ok (), s', w') \<and> sess_hello s' \<noteq> None
        \<and> last_sequence s' < next_sequence s \<and> P w'))"

text \<open>A packet that every such world handles, whenever it arrives.\<close>

definition handled :: "env \<Rightarrow> packet_type \<Rightarrow> bytes \<Rightarrow> (world \<Rightarrow> bool) \<Rightarrow> (world \<Rightarrow> bool) \<Rightarrow> bool" where
  "handled env ty pl P Q \<longleftrightarrow> (\<forall>hl ck bns dr k w. P w \<longrightarrow> packet_type k = ty \<longrightarrow> packet.payload k = pl \<longrightarrow>
     (0 \<le> monotonic_ns k \<and> sqlite_int (monotonic_ns k)) \<longrightarrow>
     (\<exists>w'. dispatch env ck bns dr hl k w = (Ok (), w') \<and> Q w'))"

lemma handledD:
  "handled env ty pl P Q \<Longrightarrow> P w \<Longrightarrow> 0 \<le> ns \<Longrightarrow> sqlite_int ns \<Longrightarrow>
   \<exists>w'. dispatch env ck bns dr hl (frame_of ty 0 pl sq ns) w = (Ok (), w') \<and> Q w'"
  by (simp add: handled_def frame_of_def)

lemma handledI:
  assumes "\<And>hl ck bns dr k w. P w \<Longrightarrow> packet_type k = ty \<Longrightarrow> packet.payload k = pl \<Longrightarrow>
    sqlite_int (monotonic_ns k) \<Longrightarrow> \<exists>w'. dispatch env ck bns dr hl k w = (Ok (), w') \<and> Q w'"
  shows "handled env ty pl P Q"
  using assms unfolding handled_def by blast

lemma follows_mono: "follows env sw P s \<Longrightarrow> (\<And>w. P w \<Longrightarrow> Q w) \<Longrightarrow> follows env sw Q s"
  unfolding follows_def by blast

lemma follows_send_on_link:
  assumes "send_on_link ty pl ns net s = (Inr b, s')" and "transferred net = Sent" and "link s"
    and "follows env sw P s"
    and "handled env (edge_type ty) pl P Q" and "0 \<le> ns" and "sqlite_int ns"
  shows "link s'" and "follows env sw Q s'"
proof -
  from assms(1,2) have s': "s' = s\<lparr>next_sequence := next_sequence s + 1, wire := wire s',
      last_sent := last_sent s @ [(ty, pl, next_sequence s, ns)]\<rparr>"
    by (auto simp: send_on_link_def next_packet_def split: sum.splits)
  have ls: "last_sent s' = last_sent s @ [(ty, pl, next_sequence s, ns)]" "next_sequence s' = next_sequence s + 1"
    "link s' = link s"
    by (subst s', simp)+
  from assms(3) ls show "link s'" by simp
  let ?k = "frame_of (edge_type ty) 0 pl (next_sequence s) ns"
  have tl: "delivered edge_type (last_sent s') = delivered edge_type (last_sent s) @ [?k]"
    by (simp add: ls delivered_def)
  show "follows env sw Q s'"
    unfolding follows_def
  proof (intro allI impI)
    fix tks :: "timed list"
    assume "map packet_of tks = delivered edge_type (last_sent s')" and fit: "\<forall>tk \<in> set tks. fits 8 (fst (snd tk))"
    then obtain ts tk where tks: "tks = ts @ [tk]" "map packet_of ts = delivered edge_type (last_sent s)"
      "packet_of tk = ?k"
      by (auto simp: tl map_eq_append_conv)
    obtain ck bns dr where tk: "tk = (ck, bns, dr, ?k)" using tks(3) by (cases tk) (auto simp: packet_of_def)
    from assms(4) tks(1,2) fit obtain s1 w1 where r: "on_timed env ts sw = (Ok (), s1, w1)"
      and s1: "sess_hello s1 \<noteq> None" "last_sequence s1 < next_sequence s" "P w1"
      unfolding follows_def by (metis UnCI set_append)
    from s1(1) obtain hl where hl: "sess_hello s1 = Some hl" by blast
    from handledD [OF assms(5) s1(3) assms(6,7)] obtain w2
      where "dispatch env ck bns dr hl ?k w1 = (Ok (), w2)" "Q w2" by blast
    then show "\<exists>s'' w'. on_timed env tks sw = (Ok (), s'', w') \<and> sess_hello s'' \<noteq> None
        \<and> last_sequence s'' < next_sequence s' \<and> Q w'"
      using s1 hl on_timed_snoc [OF r, of tk]
      by (auto simp: tks(1) tk on_packet_def Let_def frame_of_def ls(2))
  qed
qed

section \<open>The row of the open incident\<close>

definition tracks :: "verifier \<Rightarrow> world \<Rightarrow> bool" where
  "tracks v w \<longleftrightarrow> armed w
     \<and> (\<forall>n > counter v. get_incident (mk_incident_id (Verifier.device_id v) (Verifier.boot_id v) n) (store w) = None)
     \<and> (\<forall>n > counter v. map_of (tasks w) (mk_incident_id (Verifier.device_id v) (Verifier.boot_id v) n) = None)
     \<and> (\<forall>i. fire_state.incident_id (state v) = Some i \<longrightarrow> map_of (tasks w) i \<in> {None, Some Sleeping}
          \<and> (case get_incident i (store w) of
               None \<Rightarrow> confirmed (state v) \<longrightarrow> fire_state.hazard_state (state v) = CONFIRMED
             | Some r \<Rightarrow> \<not> response_guarded (response_state r)
                 \<and> (confirmed (state v) \<longrightarrow> fire_state.hazard_state (state v) = CONFIRMED \<or> confirmed_at r \<noteq> None)))"

definition synced :: "verifier \<Rightarrow> world \<Rightarrow> bool" where
  "synced v w \<longleftrightarrow> tracks v w \<and> (\<forall>i. fire_state.incident_id (state v) = Some i \<longrightarrow>
     (\<exists>r. get_incident i (store w) = Some r
        \<and> incident.hazard_state r = fire_state.hazard_state (state v)
        \<and> response_state r = (if confirmed (state v) then AWAITING_RESPONSE else IDLE)
        \<and> (confirmed (state v) \<longrightarrow> map_of (tasks w) i = Some Sleeping \<and> confirmed_at r \<noteq> None)))"

lemma tracks_same:
  assumes "armed w' = armed w" "incidents (store w') = incidents (store w)" "tasks w' = tasks w"
  shows "tracks v w' = tracks v w"
  using assms by (simp add: tracks_def get_incident_def)

lemma synced_same:
  assumes "armed w' = armed w" "incidents (store w') = incidents (store w)" "tasks w' = tasks w"
  shows "synced v w' = synced v w"
  using assms tracks_same [OF assms] by (simp add: synced_def get_incident_def)

lemma tracks_update:
  assumes "synced v w" and "wf v"
  shows "tracks (Verifier.update t dets v) w"
proof -
  have t: "tracks v w" using assms(1) by (simp add: synced_def)
  have r: "\<exists>r. get_incident i (store w) = Some r \<and> \<not> response_guarded (response_state r)
      \<and> map_of (tasks w) i \<in> {None, Some Sleeping} \<and> (confirmed (state v) \<longrightarrow> confirmed_at r \<noteq> None)"
    if "fire_state.incident_id (state v) = Some i" for i
    using assms(1) that by (auto simp: synced_def tracks_def response_guarded_def)
  have n: "fire_state.incident_id (state v) = None \<Longrightarrow> \<not> confirmed (state v)"
    using assms(2) by (auto simp: wf_def)
  show ?thesis
  proof (cases "relevant v dets")
    case True
    with t r n show ?thesis
      by (cases "fire_state.incident_id (state v)")
         (fastforce simp: tracks_def update_relevant [OF True] frame_simps)+
  next
    case False
    with t r show ?thesis
      by (cases "fire_state.incident_id (state v)")
         (fastforce simp: tracks_def update_irrelevant [OF False] frame_simps)+
  qed
qed

text \<open>
  What both sides rely on of \<open>json.dumps\<close> and \<open>json.loads\<close>: a dictionary without
  duplicate keys is read back as it was written.
\<close>

fun clean :: "json \<Rightarrow> bool" where
  "clean (JArr xs) = (\<forall>x \<in> set xs. clean x)"
| "clean (JObj d) = (distinct (map fst d) \<and> (\<forall>p \<in> set d. clean (snd p)))"
| "clean _ = True"

definition faithful :: "loads \<Rightarrow> dumps \<Rightarrow> dict \<Rightarrow> bool" where
  "faithful loads dumps d \<longleftrightarrow> loads (dumps d) = Some (JObj d) \<and> dumps d \<noteq> []"

definition json_text :: "loads \<Rightarrow> dumps \<Rightarrow> bool" where
  "json_text loads dumps \<longleftrightarrow> (\<forall>d. clean (JObj d) \<longrightarrow> faithful loads dumps d)"

lemma json_textD: "json_text loads dumps \<Longrightarrow> clean (JObj d) \<Longrightarrow> faithful loads dumps d"
  by (simp add: json_text_def)

lemma clean_primary_box: "clean (primary_box dets c)"
  by (auto simp: primary_box_def split: list.split prod.split)

lemma clean_as_json: "clean (as_json d)"
  by (simp add: as_json_def split: prod.split)

lemma clean_payloads:
  "clean (JObj (frame_metadata args n f))" "clean (JObj (detections_payload n f))"
  "clean (JObj (update_payload args bid i s f))" "clean (JObj (timeline_payload i s))"
  "clean (JObj (health_payload f))"
  by (simp_all add: frame_metadata_def detections_payload_def update_payload_def timeline_payload_def
      health_payload_def clean_primary_box clean_as_json)

lemma packet_json_faithful:
  "faithful (loads_json env) dumps d \<Longrightarrow> packet.payload k = dumps d \<Longrightarrow> packet_json (loads_json env) k = Ok d"
  by (simp add: faithful_def packet_json_def)

lemma handled_detections:
  assumes "faithful (loads_json env) dumps d"
  shows "handled env DETECTIONS (dumps d) (tracks v) (tracks v)"
proof (rule handledI)
  fix hl :: dict and ck :: clock and bns :: int and dr :: bool and k :: packet and w :: world assume "tracks v w" and k: "packet_type k = DETECTIONS" "packet.payload k = dumps d"
  then have "tracks v (broadcast (DetectionsMessage d) (w\<lparr>reg := (reg w)\<lparr>latest_detections := Some d\<rparr>\<rparr>))"
    by (subst tracks_same [where w = w]) simp_all
  with k packet_json_faithful [OF assms k(2)]
  show "\<exists>w'. dispatch env ck bns dr hl k w = (Ok (), w') \<and> tracks v w'" by (simp add: dispatch_def)
qed

lemma handled_frame:
  assumes "edge_frame_payload dumps m j = Inr pl" and "faithful (loads_json env) dumps m" and "jpeg_ok j"
  shows "handled env FRAME pl (tracks v) (tracks v)"
proof (rule handledI)
  fix hl :: dict and ck :: clock and bns :: int and dr :: bool and k :: packet and w :: world assume "tracks v w" and k: "packet_type k = FRAME" "packet.payload k = pl"
  have "decode_frame_payload (loads_json env) pl = Inr (m, j)"
    using assms by (auto simp: faithful_def intro: edge_frame_delivered)
  moreover have "tracks v (broadcast (FrameMessage f) (w\<lparr>reg := (reg w)\<lparr>latest_frame := Some f\<rparr>\<rparr>))" for f
    using \<open>tracks v w\<close> by (subst tracks_same [where w = w]) simp_all
  ultimately show "\<exists>w'. dispatch env ck bns dr hl k w = (Ok (), w') \<and> tracks v w'"
    using k by (simp add: dispatch_def on_frame_def Let_def)
qed

lemma handled_health:
  assumes "faithful (loads_json env) dumps d"
  shows "handled env HEALTH_UPDATE (dumps d) (synced v) (synced v)"
proof (rule handledI)
  fix hl :: dict and ck :: clock and bns :: int and dr :: bool and k :: packet and w :: world assume s: "synced v w" and k: "packet_type k = HEALTH_UPDATE" "packet.payload k = dumps d"
  obtain w' where w': "on_health env ck d w = (Ok (), w')" "armed w' = armed w" "tasks w' = tasks w"
    "incidents (store w') = incidents (store w)"
    by (simp add: on_health_def update_health_def tx_def Let_def)
  with s have "synced v w'" by (subst synced_same [where w = w]) simp_all
  with w' k packet_json_faithful [OF assms k(2)]
  show "\<exists>w'. dispatch env ck bns dr hl k w = (Ok (), w') \<and> synced v w'" by (simp add: dispatch_def)
qed

lemma handled_event:
  assumes "faithful (loads_json env) dumps (timeline_payload i s)" and "fire_state.incident_id (state v) = Some i"
  shows "handled env INCIDENT_TIMELINE_EVENT (dumps (timeline_payload i s)) (synced v) (synced v)"
proof (rule handledI)
  let ?d = "timeline_payload i s"
  fix hl :: dict and ck :: clock and bns :: int and dr :: bool and k :: packet and w :: world assume s: "synced v w" and k: "packet_type k = INCIDENT_TIMELINE_EVENT"
    "packet.payload k = dumps ?d" and ns: "sqlite_int (monotonic_ns k)"
  from s assms(2) have "get_incident i (store w) \<noteq> None" by (auto simp: synced_def)
  moreover have "get ?d ''incident_id'' = Some (JStr i)" "field_of ?d ''wall_time_utc'' = JNull"
    by (simp_all add: timeline_payload_def field_of_def get_default_def)
  ultimately obtain w' where w': "on_timeline_event env ck k ?d w = (Ok (), w')" "armed w' = armed w"
    "tasks w' = tasks w" "incidents (store w') = incidents (store w)"
    using ns by (auto simp: on_timeline_event_def add_event_def tx_def Let_def)
  with s have "synced v w'" by (subst synced_same [where w = w]) simp_all
  with w' k packet_json_faithful [OF assms(1) k(2)]
  show "\<exists>w'. dispatch env ck bns dr hl k w = (Ok (), w') \<and> synced v w'" by (simp add: dispatch_def)
qed

lemma handled_update:
  assumes "faithful (loads_json env) dumps d" and "validates (check_update env)"
    and u: "incident_update_of d = Some u" "u_incident_id u = i"
      "u_hazard_state u = fire_state.hazard_state (state v)"
      "u_response_state u = (if confirmed (state v) then AWAITING_RESPONSE else IDLE)"
    and ns: "sqlite_int (u_first_detection_monotonic_ns u)" "sqlite_int (u_updated_monotonic_ns u)"
    and i: "fire_state.incident_id (state v) = Some i" "i = mk_incident_id (Verifier.device_id v) (Verifier.boot_id v) (counter v)"
  shows "handled env INCIDENT_UPDATE (dumps d) (tracks v) (synced v)"
proof (rule handledI)
  fix hl :: dict and ck :: clock and bns :: int and dr :: bool and k :: packet and w :: world assume t: "tracks v w" and k: "packet_type k = INCIDENT_UPDATE" "packet.payload k = dumps d"
  have c: "check_update env d = Some u" using assms(2) u(1) by (simp add: validates_def)
  define db where "db = snd (upsert_incident (ck 0) u (expected_device_id (conf env)) (field_of hl ''boot_id'') (store w))"
  have ok: "upsert_incident (ck 0) u (expected_device_id (conf env)) (field_of hl ''boot_id'') (store w) = (Inr (), db)"
    using upsert_incident_Ok [of "ck 0" u "expected_device_id (conf env)" "field_of hl ''boot_id''" "store w"] ns
    by (simp add: db_def prod_eq_iff)
  note rows = get_incident_upsert_incident [OF ok [THEN arg_cong [of _ _ fst], simplified], unfolded ok, simplified]
  define w1 where "w1 = broadcast (IncidentMessage (get_incident i db)) (w\<lparr>store := db\<rparr>)"
  have disp: "dispatch env ck bns dr hl k w = (Ok (), observe i w1)"
    using k t packet_json_faithful [OF assms(1) k(2)]
    by (simp add: dispatch_def on_incident_update_def tracks_def c ok u(2) w1_def)
  let ?new = "new_incident (ck 0) u (expected_device_id (conf env)) (field_of hl ''boot_id'')"
  from t i(1) have open_row: "map_of (tasks w) i \<in> {None, Some Sleeping}"
    "case get_incident i (store w) of
       None \<Rightarrow> confirmed (state v) \<longrightarrow> fire_state.hazard_state (state v) = CONFIRMED
     | Some r \<Rightarrow> \<not> response_guarded (response_state r)
         \<and> (confirmed (state v) \<longrightarrow> fire_state.hazard_state (state v) = CONFIRMED \<or> confirmed_at r \<noteq> None)"
    by (auto simp: tracks_def)
  obtain r where r: "get_incident i db = Some r" "incident.hazard_state r = u_hazard_state u"
    "response_state r = u_response_state u" "confirmed (state v) \<longrightarrow> confirmed_at r \<noteq> None"
  proof (cases "get_incident i (store w)")
    case None
    with open_row(2) rows [of i] that [of ?new] u(2,3) show ?thesis by (simp add: new_incident_def)
  next
    case (Some old)
    with open_row(2) rows [of i] that [of "merge_incident old ?new"] u(2,3) show ?thesis
      by (auto simp: merge_incident_def new_incident_def coalesce_def split: option.splits)
  qed
  have db: "get_incident i (store (observe i w1)) = Some r" "armed (observe i w1)"
    using r t by (simp_all add: w1_def tracks_def)
  have task: "map_of (tasks (observe i w1)) j
      = (if j = i \<and> response_state r = AWAITING_RESPONSE \<and> map_of (tasks w) i = None then Some Sleeping
         else map_of (tasks w) j)" for j
    using r by (simp add: observe_def w1_def broadcast_def)
  have "\<not> response_guarded (response_state r)" using r(3) u(4) by (simp add: response_guarded_def)
  moreover have "get_incident (mk_incident_id (Verifier.device_id v) (Verifier.boot_id v) n) (store (observe i w1)) = None
      \<and> map_of (tasks (observe i w1)) (mk_incident_id (Verifier.device_id v) (Verifier.boot_id v) n) = None"
    if "counter v < n" for n
    unfolding task using that t i(2) rows by (simp add: tracks_def w1_def u(2) mk_incident_id_inj)
  ultimately have "tracks v (observe i w1)"
    using db i(1) r(4) open_row(1) task [of i] by (auto simp: tracks_def)
  moreover have "confirmed (state v) \<Longrightarrow> map_of (tasks (observe i w1)) i = Some Sleeping"
    using r(3) u(4) open_row(1) by (auto simp: task)
  ultimately have "synced v (observe i w1)"
    using db r i(1) u(3,4) by (auto simp: synced_def)
  with disp show "\<exists>w'. dispatch env ck bns dr hl k w = (Ok (), w') \<and> synced v w'" by blast
qed

section \<open>A frame of the edge\<close>

lemma followed_by_Ok:
  "followed_by a b e = (Inr u, e') \<Longrightarrow> \<exists>e1. a e = (Inr (), e1) \<and> b e1 = (Inr u, e')"
  by (auto simp: followed_by_def split: sum.splits prod.splits)

lemma send_bytes_follows:
  assumes "send_bytes dumps loads ty pl f k e = (Inr u, e')" and "transferred (c_network f k) = Sent"
    and "link (link_of e)" and "follows env sw P (link_of e)"
    and "handled env (edge_type ty) pl P Q" and "0 \<le> c_ns f" and "sqlite_int (c_ns f)"
  shows "link (link_of e') \<and> follows env sw Q (link_of e') \<and> gate e' = gate e \<and> boot e' = boot e"
proof -
  from assms(1,3) obtain b s where s: "send_on_link ty pl (c_ns f) (c_network f k) (link_of e) = (Inr b, s)"
    and e': "e' = e\<lparr>link_of := s\<rparr>"
    by (auto simp: send_bytes_def send_packet_def split: sum.splits prod.splits)
  from follows_send_on_link [OF s assms(2-7)] show ?thesis by (simp add: e')
qed

text \<open>What the frames of a run must be, from a moment \<open>t\<close> on.\<close>

definition frame_fits :: "int \<Rightarrow> camera_frame \<Rightarrow> bool" where
  "frame_fits t f \<longleftrightarrow> t \<le> c_ns f \<and> sqlite_int (c_ns f) \<and> (\<forall>d \<in> set (c_detections f). unit_confidence d)
     \<and> jpeg_ok (c_jpeg f) \<and> (\<forall>k. transferred (c_network f k) = Sent)"

definition names_fit :: "string \<Rightarrow> string \<Rightarrow> int \<Rightarrow> bool" where
  "names_fit dev bid N \<longleftrightarrow> length dev \<le> 80 \<and> length bid \<le> 80
     \<and> (\<forall>n. n \<le> N \<longrightarrow> 0 \<le> n \<longrightarrow> length (mk_incident_id dev bid n) \<le> 160)"

definition frames_rel :: "env \<Rightarrow> session \<times> world \<Rightarrow> (verifier \<Rightarrow> world \<Rightarrow> bool) \<Rightarrow> edge \<Rightarrow> bool" where
  "frames_rel env sw P e \<longleftrightarrow> link (link_of e) \<and> follows env sw (P (gate e)) (link_of e)"

lemma send_bytes_rel:
  assumes "send_bytes dumps loads ty pl f k e = (Inr u, e')" and "frames_rel env sw P e"
    and "frame_fits t f" and "0 \<le> t"
    and "handled env (edge_type ty) pl (P (gate e)) (Q (gate e))"
  shows "frames_rel env sw Q e' \<and> gate e' = gate e \<and> boot e' = boot e"
  using send_bytes_follows [OF assms(1) _ _ _ assms(5), of sw] assms(2,3,4)
  by (auto simp: frames_rel_def frame_fits_def)

lemma counter_update_le: "counter (Verifier.update t dets v) \<le> counter v + 1"
  by (cases "relevant v dets") (simp_all add: update_relevant update_irrelevant)

lemma wf_incident_id:
  "wf v \<Longrightarrow> fire_state.incident_id (state v) = Some i \<Longrightarrow>
   i = mk_incident_id (Verifier.device_id v) (Verifier.boot_id v) (counter v)"
  by (simp add: wf_def)

lemma report_change_synced:
  assumes "report_change dumps loads i f e = (Inr u, e')" and "frames_rel env sw synced e"
    and "json_text (loads_json env) dumps"
    and "fire_state.incident_id (state (gate e)) = Some i" and "frame_fits t f" and "0 \<le> t"
  shows "frames_rel env sw synced e' \<and> gate e' = gate e \<and> boot e' = boot e"
proof (cases "fire_state.hazard_state (state (gate e)) = last_state e")
  case True
  with assms(1,2) show ?thesis by (simp add: report_change_def)
next
  case False
  let ?s = "state (gate e)"
  let ?e1 = "e\<lparr>local_log := local_log e @ [state_entry i ?s f]\<rparr>"
  from assms(1) False obtain e2 where e2: "send_bytes dumps loads E_INCIDENT_TIMELINE_EVENT
      (dumps (timeline_payload i ?s)) f 3 ?e1 = (Inr (), e2)"
    and e': "e' = e2\<lparr>last_state := fire_state.hazard_state ?s\<rparr>"
    by (auto simp: report_change_def Let_def assign_def dest!: followed_by_Ok)
  have "handled env INCIDENT_TIMELINE_EVENT (dumps (timeline_payload i ?s)) (synced (gate e)) (synced (gate e))"
    by (intro handled_event json_textD [OF assms(3)] clean_payloads assms(4))
  moreover have "frames_rel env sw synced ?e1" using assms(2) by (simp add: frames_rel_def)
  ultimately show ?thesis
    using send_bytes_rel [OF e2 _ assms(5,6), where env = env and sw = sw and P = synced and Q = synced] by (auto simp: frames_rel_def e')
qed

lemma report_incident_synced:
  assumes "report_incident dumps loads args f e = (Inr u, e')" and rel: "frames_rel env sw tracks e"
    and js: "json_text (loads_json env) dumps" and val: "validates (check_update env)"
    and v: "wf (gate e)" "gate_ok (c_ns f) (gate e)" "Verifier.device_id (gate e) = a_device args"
      "Verifier.boot_id (gate e) = boot e"
    and names: "names_fit (a_device args) (boot e) N" "0 \<le> counter (gate e)" "counter (gate e) \<le> N"
    and fits: "frame_fits t f" "0 \<le> t"
  shows "frames_rel env sw synced e' \<and> gate e' = gate e \<and> boot e' = boot e"
proof (cases "fire_state.incident_id (state (gate e))")
  case None
  have "tracks (gate e) w \<Longrightarrow> synced (gate e) w" for w using None by (simp add: synced_def)
  with rel have "frames_rel env sw synced e" by (auto simp: frames_rel_def intro: follows_mono)
  with assms(1) None show ?thesis by (simp add: report_incident_def)
next
  case (Some i)
  let ?d = "update_payload args (boot e) i (state (gate e)) f"
  from wf_incident_id [OF v(1) Some] have i: "i = mk_incident_id (a_device args) (boot e) (counter (gate e))"
    using v by simp
  then have "i \<noteq> []" by simp
  have c: "0 \<le> c_ns f" "sqlite_int (c_ns f)" "transferred (c_network f k) = Sent" for k
    using fits by (auto simp: frame_fits_def)
  have "length i \<le> 160" "length (a_device args) \<le> 80" "length (boot e) \<le> 80"
    using names i by (auto simp: names_fit_def)
  with update_payload_typed [OF v(2) c(1) \<open>i \<noteq> []\<close>, of args "boot e"] obtain x where
    x: "incident_update_of ?d = Some x" "u_incident_id x = i"
      "u_hazard_state x = fire_state.hazard_state (state (gate e))"
      "u_response_state x = (if confirmed (state (gate e)) then AWAITING_RESPONSE else IDLE)"
    and ns: "u_first_detection_monotonic_ns x = first_detection_ns (state (gate e))"
      "u_updated_monotonic_ns x = c_ns f"
    by blast
  have "sqlite_int (first_detection_ns (state (gate e)))"
    using v(2) c(2) by (auto simp: gate_ok_def sqlite_int_def)
  then have h: "handled env INCIDENT_UPDATE (dumps ?d) (tracks (gate e)) (synced (gate e))"
    using i c(2) v(3,4) Some ns
    by (intro handled_update [where u = x and i = i] json_textD [OF js] clean_payloads val x) simp_all
  obtain ch cs where ch: "i = ch # cs" using \<open>i \<noteq> []\<close> by (cases i) auto
  with assms(1) Some obtain e2 where e2: "send_bytes dumps loads E_INCIDENT_UPDATE (dumps ?d) f 2 e = (Inr (), e2)"
    and r: "report_change dumps loads i f e2 = (Inr u, e')"
    by (auto simp: report_incident_def dest!: followed_by_Ok)
  from send_bytes_rel [OF e2 rel fits] h
  have e2': "frames_rel env sw synced e2" "gate e2 = gate e" "boot e2 = boot e" by simp_all
  from report_change_synced [OF r e2'(1) js _ fits] Some e2' show ?thesis by simp
qed

lemma see_tracks:
  assumes "see args f e = (Inr u, e')" and "frames_rel env sw synced e" and "wf (gate e)"
  shows "frames_rel env sw tracks e' \<and> gate e' = Verifier.update (c_ns f) (c_detections f) (gate e) \<and> boot e' = boot e"
proof -
  from assms(1) have e': "e' = e\<lparr>gate := Verifier.update (c_ns f) (c_detections f) (gate e),
      frame_sequence := frame_sequence e + 1, alert := alert e'\<rparr>"
    by (auto simp: see_def assign_def Let_def)
  have g: "gate e' = Verifier.update (c_ns f) (c_detections f) (gate e)" "link_of e' = link_of e" "boot e' = boot e"
    by (subst e', simp)+
  with assms(2,3) show ?thesis
    by (auto simp: frames_rel_def intro: follows_mono tracks_update)
qed

lemma send_frame_tracks:
  assumes "send_frame dumps loads args f e = (Inr u, e')" and "frames_rel env sw tracks e"
    and "json_text (loads_json env) dumps" and "frame_fits t f" and "0 \<le> t"
  shows "frames_rel env sw tracks e' \<and> gate e' = gate e \<and> boot e' = boot e"
proof -
  from assms(1) obtain pl where pl: "edge_frame_payload dumps (frame_metadata args (frame_sequence e) f) (c_jpeg f) = Inr pl"
    and s: "send_bytes dumps loads E_FRAME pl f 0 e = (Inr u, e')"
    by (auto simp: send_frame_def split: sum.splits)
  have "handled env FRAME pl (tracks (gate e)) (tracks (gate e))"
    using assms(4) by (intro handled_frame [OF pl] json_textD [OF assms(3)] clean_payloads) (simp add: frame_fits_def)
  with send_bytes_rel [OF s assms(2,4,5)] show ?thesis by simp
qed

lemma send_detections_tracks:
  assumes "send_detections dumps loads f e = (Inr u, e')" and "frames_rel env sw tracks e"
    and "json_text (loads_json env) dumps" and "frame_fits t f" and "0 \<le> t"
  shows "frames_rel env sw tracks e' \<and> gate e' = gate e \<and> boot e' = boot e"
proof -
  have "handled env DETECTIONS (dumps (detections_payload (frame_sequence e) f)) (tracks (gate e)) (tracks (gate e))"
    by (intro handled_detections json_textD [OF assms(3)] clean_payloads)
  with send_bytes_rel [OF assms(1) [unfolded send_detections_def] assms(2,4,5)] show ?thesis by simp
qed

lemma report_health_synced:
  assumes "report_health dumps loads f e = (Inr u, e')" and "frames_rel env sw synced e"
    and "json_text (loads_json env) dumps" and "frame_fits t f" and "0 \<le> t"
  shows "frames_rel env sw synced e' \<and> gate e' = gate e \<and> boot e' = boot e"
proof (cases "1 \<le> fsub (fst (c_health f)) (last_health e)")
  case True
  have h: "handled env HEALTH_UPDATE (dumps (health_payload f)) (synced (gate e)) (synced (gate e))"
    by (intro handled_health json_textD [OF assms(3)] clean_payloads)
  from True assms(1) have s: "send_bytes dumps loads E_HEALTH_UPDATE (dumps (health_payload f)) f 4
      (e\<lparr>last_health := snd (c_health f)\<rparr>) = (Inr u, e')"
    by (simp add: report_health_def)
  have "frames_rel env sw synced (e\<lparr>last_health := snd (c_health f)\<rparr>)"
    using assms(2) by (simp add: frames_rel_def)
  from send_bytes_rel [OF s this assms(4,5)] h show ?thesis by simp
next
  case False
  with assms(1,2) show ?thesis by (simp add: report_health_def)
qed

lemma log_health_synced:
  assumes "log_health f e = (Inr u, e')" and "frames_rel env sw synced e"
  shows "frames_rel env sw synced e' \<and> gate e' = gate e \<and> boot e' = boot e"
  using assms by (auto simp: log_health_def frames_rel_def split: if_splits)

section \<open>The frames of a run\<close>

text \<open>The edge after a frame, between two rounds of its loop.\<close>

definition edge_ok :: "edge_args \<Rightarrow> string \<Rightarrow> int \<Rightarrow> edge \<Rightarrow> bool" where
  "edge_ok args bid t e \<longleftrightarrow> wf (gate e) \<and> gate_ok t (gate e) \<and> Verifier.device_id (gate e) = a_device args
     \<and> Verifier.boot_id (gate e) = bid \<and> boot e = bid \<and> 0 \<le> counter (gate e)"

lemma frame_step_synced:
  assumes "frame_step dumps loads args (Some f) e = (Inr u, e')" and "frames_rel env sw synced e"
    and j: "json_text (loads_json env) dumps" and val: "validates (check_update env)"
    and ok: "edge_ok args bid t e" and names: "names_fit (a_device args) bid N" "counter (gate e) < N"
    and f: "frame_fits t f" and t: "0 \<le> t"
  shows "frames_rel env sw synced e' \<and> edge_ok args bid (c_ns f) e' \<and> counter (gate e') \<le> counter (gate e) + 1"
proof -
  let ?v = "Verifier.update (c_ns f) (c_detections f) (gate e)"
  from assms(1) obtain e1 e2 e3 e4 e5 where run: "see args f e = (Inr (), e1)"
    "send_frame dumps loads args f e1 = (Inr (), e2)" "send_detections dumps loads f e2 = (Inr (), e3)"
    "report_incident dumps loads args f e3 = (Inr (), e4)" "report_health dumps loads f e4 = (Inr (), e5)"
    "log_health f e5 = (Inr u, e')"
    by (auto simp: frame_step_def dest!: followed_by_Ok)
  have v: "wf ?v" "gate_ok (c_ns f) ?v" "counter ?v \<le> N" "0 \<le> counter ?v" "Verifier.device_id ?v = a_device args"
    "Verifier.boot_id ?v = bid"
    using ok f names(2) t counter_update_le [of "c_ns f" "c_detections f" "gate e"]
      counter_step_mono [of "gate e" "(c_ns f, c_detections f)"]
    by (auto simp: edge_ok_def frame_fits_def frame_simps Verifier.step_def intro: wf_update gate_ok_update)
  from see_tracks [OF run(1) assms(2)] ok have e1: "frames_rel env sw tracks e1" "gate e1 = ?v" "boot e1 = bid"
    by (auto simp: edge_ok_def)
  from send_frame_tracks [OF run(2) e1(1) j f t] e1
  have e2: "frames_rel env sw tracks e2" "gate e2 = ?v" "boot e2 = bid" by simp_all
  from send_detections_tracks [OF run(3) e2(1) j f t] e2
  have e3: "frames_rel env sw tracks e3" "gate e3 = ?v" "boot e3 = bid" by simp_all
  have "frames_rel env sw synced e4 \<and> gate e4 = gate e3 \<and> boot e4 = boot e3"
    by (rule report_incident_synced [OF run(4) e3(1) j val, where N = N and t = t])
       (use v e3 names(1) f t in simp_all)
  with e3 have e4: "frames_rel env sw synced e4" "gate e4 = ?v" "boot e4 = bid" by simp_all
  from report_health_synced [OF run(5) e4(1) j f t] e4
  have e5: "frames_rel env sw synced e5" "gate e5 = ?v" "boot e5 = bid" by simp_all
  from log_health_synced [OF run(6) e5(1)] e5
  have "frames_rel env sw synced e'" "gate e' = ?v" "boot e' = bid" by simp_all
  with v counter_update_le [of "c_ns f" "c_detections f" "gate e"] show ?thesis by (simp add: edge_ok_def)
qed

fun frames_fit :: "int \<Rightarrow> camera_frame option list \<Rightarrow> bool" where
  "frames_fit t [] = True"
| "frames_fit t (None # fs) = frames_fit t fs"
| "frames_fit t (Some f # fs) = (frame_fits t f \<and> frames_fit (c_ns f) fs)"

lemma frames_synced:
  assumes "frames_loop dumps loads args fs e = (Inr u, e')" and "frames_rel env sw synced e"
    and "json_text (loads_json env) dumps"
    and "validates (check_update env)" and "edge_ok args bid t e" and "names_fit (a_device args) bid N"
    and "counter (gate e) + int (length fs) \<le> N" and "frames_fit t fs" and "0 \<le> t"
  shows "frames_rel env sw synced e' \<and> (\<exists>t'. edge_ok args bid t' e')"
  using assms
proof (induction fs arbitrary: e t)
  case (Cons x fs)
  from Cons.prems(1) obtain e1 where e1: "frame_step dumps loads args x e = (Inr (), e1)"
    and loop: "frames_loop dumps loads args fs e1 = (Inr u, e')"
    by (auto dest!: followed_by_Ok)
  then obtain f where f: "x = Some f" by (auto simp: frame_step_def split: option.splits)
  have fits: "frame_fits t f" "frames_fit (c_ns f) fs" using Cons.prems(8) f by simp_all
  have "counter (gate e) < N" using Cons.prems(7) by simp
  from frame_step_synced [OF e1 [unfolded f] Cons.prems(2-6) this fits(1) Cons.prems(9)]
  have s: "frames_rel env sw synced e1" "edge_ok args bid (c_ns f) e1" "counter (gate e1) \<le> counter (gate e) + 1"
    by simp_all
  have "0 \<le> c_ns f" using fits(1) Cons.prems(9) by (simp add: frame_fits_def)
  then show ?case
    using s Cons.prems(7) by (intro Cons.IH [OF loop s(1) Cons.prems(3,4) s(2) Cons.prems(6) _ fits(2)]) simp_all
qed auto

section \<open>The connection\<close>

definition idle :: "env \<Rightarrow> edge_args \<Rightarrow> string \<Rightarrow> world \<Rightarrow> bool" where
  "idle env args bid w \<longleftrightarrow> armed w \<and> (\<forall>n. get_incident (mk_incident_id (a_device args) bid n) (store w) = None
     \<and> map_of (tasks w) (mk_incident_id (a_device args) bid n) = None)"

lemma idle_synced: "idle env args bid w \<Longrightarrow> synced (default_verifier (a_device args) bid) w"
  by (simp add: idle_def synced_def tracks_def default_verifier_def fire_verifier_def fire_state0_def)

lemma connect_up:
  assumes "connect dumps loads net (new_stream dev tok bid) = (Inr True, s)"
  shows "link s \<and> last_sent s = [(E_HELLO, dumps (hello_payload (new_stream dev tok bid)), 1, hello_ns net)]
    \<and> next_sequence s = 2"
  using assms
  by (auto simp: connect_def next_packet_def new_stream_def connect_failed_def hello_payload_def
      split: if_splits dial.splits sum.splits prod.splits connection_error.splits)

text \<open>The HELLO of an edge with the right name and token is accepted.\<close>

lemma encode_packet_fits:
  assumes "fits 8 sq" "fits 8 ns" "length pl < 2 ^ 32"
  shows "\<exists>bs. encode_packet ty pl sq ns 0 = Ok bs"
  using assms fits_crc [of pl] by (cases ty) (simp_all add: encode_packet_def pack_header_def VERSION_def fits_def)

lemma edge_encode_packet_fits:
  assumes "fits 8 sq" "fits 8 ns" "length pl < 2 ^ 32"
  shows "\<exists>bs. edge_encode_packet ty pl sq ns = Ok bs"
  using assms fits_crc [of pl] by (cases ty) (simp_all add: edge_encode_packet_def pack_header_def fits_def)

lemma hello_accepted:
  assumes k: "packet_type k = HELLO" "packet.payload k = dumps (hello_payload (new_stream dev tok bid))"
    and "json_text (loads_json env) dumps" and "dev = expected_device_id (conf env)"
    and "tok = device_token (conf env)" "ascii tok"
    and "fits 8 bns" and "length (dumps_json env ack_payload) < 2 ^ 32"
  shows "\<exists>d w'. authenticate env ck bns dr k wr w = (Ok d, w') \<and> armed w' = armed w
    \<and> incidents (store w') = incidents (store w) \<and> tasks w' = tasks w"
proof -
  let ?h = "hello_payload (new_stream dev tok bid)"
  have "clean (JObj ?h)" by (simp add: hello_payload_def)
  with packet_json_faithful [OF json_textD [OF assms(3)] k(2)] have "packet_json (loads_json env) k = Ok ?h" .
  then have c: "check_hello env k = Ok (pop ''device_token'' ?h)"
    using assms(4-6)
    by (simp add: check_hello_def hello_required_def hello_payload_def new_stream_def has_key_def field_of_def
        get_default_def equals_one_def compare_digest_def)
  define rg where "rg = register (new_connection dev (JStr bid) wr) (reg w)"
  have boot: "field_of (pop ''device_token'' ?h) ''boot_id'' = JStr bid"
    "get_default (pop ''device_token'' ?h) ''software_version'' x = JStr ''poc-0.1.0''" for x
    by (simp_all add: field_of_def get_default_def pop_def hello_payload_def new_stream_def)
  obtain db where db: "upsert_device (ck 0) (hello_row dev (pop ''device_token'' ?h)) True (store w) = (Inr (), db)"
    "incidents db = incidents (store w)"
    by (simp add: upsert_device_def tx_def hello_row_def boot)
  obtain bs where "encode_packet HELLO_ACK (dumps_json env ack_payload) 1 bns 0 = Ok bs"
    using encode_packet_fits [of 1 bns] assms(7,8) by (auto simp: fits_def)
  moreover have "connected_to dev rg = Some (new_connection dev (JStr bid) wr)"
    by (simp add: rg_def connected_register new_connection_def)
  ultimately obtain x rg' where "send_control (dumps_json env) bns dr dev HELLO_ACK ack_payload rg = (Inr x, rg')"
    by (cases "wr \<in> set (closing rg)") (auto simp: send_control_def send_def new_connection_def)
  then show ?thesis
    using db c by (simp add: authenticate_def boot rg_def flip: assms(4))
qed

lemma edge_loop_synced:
  assumes run: "edge_loop dumps loads args tok bid net fs = (Inr u, e)"
    and connected: "fst (connect dumps loads net (new_stream (a_device args) tok bid)) = Ok True"
    and idle: "idle env args bid w" and js: "json_text (loads_json env) dumps"
    and val: "validates (check_update env)"
    and known: "a_device args = expected_device_id (conf env)" "tok = device_token (conf env)" "ascii tok"
    and ack: "length (dumps_json env ack_payload) < 2 ^ 32"
    and frames: "names_fit (a_device args) bid (int (length fs))" "frames_fit 0 fs"
  shows "frames_rel env (new_session env wr, w) synced e \<and> wf (gate e)"
proof -
  let ?e = "new_edge args tok bid" and ?s = "new_session env wr"
  obtain str where c: "connect dumps loads net (new_stream (a_device args) tok bid) = (Inr True, str)"
    using connected by (metis prod.collapse)
  note up = connect_up [OF c]
  let ?e1 = "?e\<lparr>link_of := str\<rparr>"
  have gate: "gate ?e = default_verifier (a_device args) bid" "boot ?e = bid" by (simp_all add: new_edge_def)
  have loop: "frames_loop dumps loads args fs ?e1 = (Inr u, e)"
    using run c by (simp add: edge_loop_def Let_def new_edge_def)
  have "follows env (?s, w) (synced (gate ?e)) str"
    unfolding follows_def
  proof (intro allI impI)
    fix tks :: "timed list"
    let ?k = "frame_of HELLO 0 (dumps (hello_payload (new_stream (a_device args) tok bid))) 1 (hello_ns net)"
    assume "map packet_of tks = delivered edge_type (last_sent str)" and fit: "\<forall>tk \<in> set tks. fits 8 (fst (snd tk))"
    with up have "map packet_of tks = [?k]" by (simp add: delivered_def)
    then obtain ck bns dr where tks: "tks = [(ck, bns, dr, ?k)]" by (auto simp: map_eq_Cons_conv packet_of_def)
    have "packet_type ?k = HELLO"
      "packet.payload ?k = dumps (hello_payload (new_stream (a_device args) tok bid))"
      by (simp_all add: frame_of_def)
    from hello_accepted [OF this js known _ ack, of bns ck dr wr w] fit tks obtain d w' where
      a: "authenticate env ck bns dr ?k wr w = (Ok d, w')" "armed w' = armed w"
      "incidents (store w') = incidents (store w)" "tasks w' = tasks w" by auto
    have "idle env args bid w'" using idle a by (simp add: idle_def get_incident_def)
    with a(1) up show "\<exists>s' w'. on_timed env tks (?s, w) = (Ok (), s', w') \<and> sess_hello s' \<noteq> None
        \<and> last_sequence s' < next_sequence str \<and> synced (gate ?e) w'"
      by (simp add: tks on_packet_def new_session_def Let_def idle_synced gate frame_of_def)
  qed
  then have rel: "frames_rel env (?s, w) synced ?e1"
    using up by (simp add: frames_rel_def)
  have "edge_ok args bid 0 ?e1"
    by (simp add: edge_ok_def gate gate_ok_default wf_default)
       (simp add: default_verifier_def fire_verifier_def)
  moreover have "counter (gate ?e1) + int (length fs) \<le> int (length fs)"
    by (simp add: gate) (simp add: default_verifier_def fire_verifier_def)
  ultimately show ?thesis
    using frames_synced [OF loop rel js val _ frames(1) _ frames(2)] by (auto simp: edge_ok_def)
qed

section \<open>Chunks of bytes\<close>

text \<open>The chunks a connection reads, each with the clock of its handling.\<close>

type_synonym arrival = "clock \<times> int \<times> bool \<times> bytes"

definition chunk_of :: "arrival \<Rightarrow> bytes" where
  "chunk_of a = snd (snd (snd a))"

fun on_chunks :: "env \<Rightarrow> arrival list \<Rightarrow> session \<times> world \<Rightarrow> session \<times> world" where
  "on_chunks env [] sw = sw"
| "on_chunks env ((ck, bns, dr, bs) # as) sw = on_chunks env as (on_chunk env ck bns dr bs sw)"

fun timed_packets :: "arrival list \<Rightarrow> parser \<Rightarrow> timed list" where
  "timed_packets [] p = []"
| "timed_packets ((ck, bns, dr, bs) # as) p = (case feed bs p of
     (Inl e, p) \<Rightarrow> []
   | (Inr ks, p) \<Rightarrow> map (\<lambda>k. (ck, bns, dr, k)) ks @ timed_packets as p)"

lemma timed_packets_all:
  "feed_all (map chunk_of as) p = (Ok ks, p') \<Longrightarrow> map packet_of (timed_packets as p) = ks"
  by (induction as p arbitrary: ks p' rule: timed_packets.induct)
     (auto simp: chunk_of_def packet_of_def comp_def split: sum.splits prod.splits)

lemma timed_packets_clock:
  "tk \<in> set (timed_packets as p) \<Longrightarrow> \<exists>a \<in> set as. fst (snd tk) = fst (snd a)"
  by (induction as p rule: timed_packets.induct) (auto split: sum.splits prod.splits)

text \<open>The handling of packets neither reads nor changes the parser.\<close>

lemma on_packet_parser:
  "on_packet env ck bns dr k (s, w) = (r, s', w') \<Longrightarrow>
   on_packet env ck bns dr k (s\<lparr>sess_parser := p\<rparr>, w) = (r, s'\<lparr>sess_parser := p\<rparr>, w')
   \<and> sess_parser s' = sess_parser s \<and> sess_open s' = sess_open s"
  by (auto simp: on_packet_def Let_def split: if_splits option.splits sum.splits prod.splits)

lemma on_timed_parser:
  "on_timed env tks (s, w) = (r, s', w') \<Longrightarrow>
   on_timed env tks (s\<lparr>sess_parser := p\<rparr>, w) = (r, s'\<lparr>sess_parser := p\<rparr>, w')
   \<and> sess_parser s' = sess_parser s \<and> sess_open s' = sess_open s"
proof (induction tks arbitrary: s w)
  case (Cons tk tks)
  obtain ck bns dr k where tk: "tk = (ck, bns, dr, k)" by (cases tk)
  obtain q s1 w1 where q: "on_packet env ck bns dr k (s, w) = (q, s1, w1)" by (cases "on_packet env ck bns dr k (s, w)")
  from on_packet_parser [OF this, of p] Cons show ?case by (auto simp: tk q split: sum.splits)
qed simp

lemma on_timed_append:
  "on_timed env (a @ b) sw = (Inr u, sw') \<Longrightarrow> \<exists>sw1. on_timed env a sw = (Inr (), sw1) \<and> on_timed env b sw1 = (Inr u, sw')"
  by (induction env a sw rule: on_timed.induct) (auto split: sum.splits prod.splits)

lemma step_on_chunks: "device_step w (snd (on_chunks env as (s, w)))"
proof (induction as arbitrary: s w)
  case (Cons a as)
  obtain ck bns dr bs where a: "a = (ck, bns, dr, bs)" by (cases a)
  obtain s1 w1 where c: "on_chunk env ck bns dr bs (s, w) = (s1, w1)" by fastforce
  with step_on_chunk [of w env ck bns dr bs s] have "device_step w w1" by simp
  with Cons.IH [of w1 s1] show ?case by (auto simp: a c intro: device_step_trans)
qed simp

lemma on_chunks_timed:
  assumes "feed_all (map chunk_of as) (sess_parser s) = (Ok ks, p')"
    and "on_timed env (timed_packets as (sess_parser s)) (s, w) = (Inr (), s', w')"
    and "sess_open s" and "[] \<notin> chunk_of ` set as"
  shows "on_chunks env as (s, w) = (s'\<lparr>sess_parser := p'\<rparr>, w')"
  using assms
proof (induction as arbitrary: s w ks s')
  case (Cons a as)
  obtain ck bns dr bs where a: "a = (ck, bns, dr, bs)" by (cases a)
  then have chunk: "chunk_of a = bs" by (simp add: chunk_of_def)
  from Cons.prems(1) obtain ks1 p1 ks2 where f: "feed bs (sess_parser s) = (Inr ks1, p1)"
    "feed_all (map chunk_of as) p1 = (Ok ks2, p')"
    using a chunk by (auto split: sum.splits prod.splits)
  with Cons.prems(2) obtain s1 w1 where
    t1: "on_timed env (map (\<lambda>k. (ck, bns, dr, k)) ks1) (s, w) = (Inr (), s1, w1)"
    and t2: "on_timed env (timed_packets as p1) (s1, w1) = (Inr (), s', w')"
    by (auto simp: a dest!: on_timed_append)
  let ?s1 = "s1\<lparr>sess_parser := p1\<rparr>"
  note c1 = on_timed_parser [OF t1, of p1] and c2 = on_timed_parser [OF t2, of p1]
  have "on_chunk env ck bns dr bs (s, w) = (?s1, w1)"
    using Cons.prems(3,4) f(1) c1 by (auto simp: on_chunk_def a chunk_of_def on_packets_timed)
  moreover have "on_chunks env as (?s1, w1) = (s'\<lparr>sess_parser := p'\<rparr>, w')"
    using Cons.IH [of ?s1 ks2 w1 "s'\<lparr>sess_parser := p1\<rparr>"] f(2) c1 c2 Cons.prems(3,4) by simp
  ultimately show ?case by (simp add: a)
qed simp

section \<open>Runs without an exception\<close>

text \<open>
  While the network holds and what a frame sends has at most \<open>B\<close> bytes, no packet fails to be
  encoded. \<open>v\<close> is the gate after the frame, \<open>n\<close> its number.
\<close>

definition small :: "int \<Rightarrow> bytes \<Rightarrow> bool" where
  "small B pl \<longleftrightarrow> int (length pl) \<le> B"

definition frame_small :: "dumps \<Rightarrow> edge_args \<Rightarrow> string \<Rightarrow> int \<Rightarrow> int \<Rightarrow> verifier \<Rightarrow> camera_frame \<Rightarrow> bool" where
  "frame_small dumps args bid B n v f \<longleftrightarrow>
     small (B - 4 - int (length (c_jpeg f))) (dumps (frame_metadata args n f))
     \<and> small B (dumps (detections_payload n f)) \<and> small B (dumps (health_payload f))
     \<and> (case fire_state.incident_id (state v) of None \<Rightarrow> True
        | Some i \<Rightarrow> small B (dumps (update_payload args bid i (state v) f)) \<and> small B (dumps (timeline_payload i (state v))))"

fun frames_small :: "dumps \<Rightarrow> edge_args \<Rightarrow> string \<Rightarrow> int \<Rightarrow> int \<Rightarrow> verifier \<Rightarrow> camera_frame list \<Rightarrow> bool" where
  "frames_small dumps args bid B n v [] = True"
| "frames_small dumps args bid B n v (f # fs) =
     (let v = Verifier.update (c_ns f) (c_detections f) v
      in frame_small dumps args bid B (n + 1) v f \<and> frames_small dumps args bid B (n + 1) v fs)"

definition running :: "int \<Rightarrow> int \<Rightarrow> verifier \<Rightarrow> string \<Rightarrow> int \<Rightarrow> edge \<Rightarrow> bool" where
  "running B N v bid n e \<longleftrightarrow> link (link_of e) \<and> 1 \<le> next_sequence (link_of e) \<and> next_sequence (link_of e) \<le> N
     \<and> payloads_within (nat B) B (last_sent (link_of e)) \<and> gate e = v \<and> boot e = bid \<and> frame_sequence e = n"

lemma running_frames [simp]:
  "running B N v bid n (e\<lparr>last_health := x\<rparr>) = running B N v bid n e"
  "running B N v bid n (e\<lparr>local_log := l\<rparr>) = running B N v bid n e"
  "running B N v bid n (e\<lparr>last_state := h\<rparr>) = running B N v bid n e"
  "running B N v bid n (e\<lparr>last_local_log := x\<rparr>) = running B N v bid n e"
  by (simp_all add: running_def)

lemma running_mono: "running B N v bid n e \<Longrightarrow> N \<le> N' \<Longrightarrow> running B N' v bid n e"
  by (simp add: running_def)

lemma send_bytes_running:
  assumes "running B N v bid n e" and "transferred (c_network f k) = Sent" and "N < 2 ^ 63"
    and "fits 8 (c_ns f)" and "small B pl" and "B < 2 ^ 31"
  shows "\<exists>e'. send_bytes dumps loads ty pl f k e = (Ok (), e') \<and> running B (N + 1) v bid n e'"
proof -
  have "fits 8 (next_sequence (link_of e))" "length pl < 2 ^ 32"
    using assms(1,3,5,6) by (simp_all add: running_def fits_def small_def)
  from edge_encode_packet_fits [OF this(1) assms(4) this(2)] obtain bs where
    "edge_encode_packet ty pl (next_sequence (link_of e)) (c_ns f) = Ok bs" by blast
  with assms(1,2,5) show ?thesis
    by (auto simp: send_bytes_def send_packet_def send_on_link_def next_packet_def running_def
        payloads_within_def small_def)
qed

lemma report_incident_running:
  assumes run: "running B N v bid n e" and net: "\<forall>k. transferred (c_network f k) = Sent" and N: "N + 2 < 2 ^ 63"
    and ns: "fits 8 (c_ns f)" and sm: "frame_small dumps args bid B n v f" and B: "B < 2 ^ 31"
  shows "\<exists>e'. report_incident dumps loads args f e = (Ok (), e') \<and> running B (N + 2) v bid n e'"
proof (cases "fire_state.incident_id (state v)")
  case None
  with run running_mono [OF run, of "N + 2"] show ?thesis by (simp add: report_incident_def running_def)
next
  case (Some i)
  with sm have s: "small B (dumps (update_payload args bid i (state v) f))" "small B (dumps (timeline_payload i (state v)))"
    by (simp_all add: frame_small_def)
  have g: "gate e = v" "boot e = bid" using run by (simp_all add: running_def)
  from net have net2: "transferred (c_network f 2) = Sent" and net3: "transferred (c_network f 3) = Sent" by simp_all
  show ?thesis
  proof (cases i)
    case Nil
    with Some g running_mono [OF run, of "N + 2"] show ?thesis by (simp add: report_incident_def)
  next
    case (Cons c cs)
    obtain e1 where e1: "send_bytes dumps loads E_INCIDENT_UPDATE (dumps (update_payload args bid i (state v) f)) f 2 e
        = (Ok (), e1)" "running B (N + 1) v bid n e1"
      using send_bytes_running [OF run net2 _ ns s(1) B, where loads = loads and dumps = dumps and ty = E_INCIDENT_UPDATE] N by auto
    then have g1: "gate e1 = v" by (simp add: running_def)
    obtain e2 where e2: "report_change dumps loads i f e1 = (Ok (), e2)" "running B (N + 2) v bid n e2"
    proof (cases "fire_state.hazard_state (state v) = last_state e1")
      case True
      with that [of e1] g1 running_mono [OF e1(2), of "N + 2"] show ?thesis by (simp add: report_change_def)
    next
      case False
      let ?e1 = "e1\<lparr>local_log := local_log e1 @ [state_entry i (state v) f]\<rparr>"
      have run1: "running B (N + 1) v bid n ?e1" using e1(2) by simp
      obtain e3 where "send_bytes dumps loads E_INCIDENT_TIMELINE_EVENT (dumps (timeline_payload i (state v))) f 3 ?e1
          = (Ok (), e3)" "running B (N + 1 + 1) v bid n e3"
        using send_bytes_running [OF run1 net3 _ ns s(2) B, where loads = loads and dumps = dumps and ty = E_INCIDENT_TIMELINE_EVENT] N by auto
      with that [of "e3\<lparr>last_state := fire_state.hazard_state (state v)\<rparr>"] False g1 show ?thesis
        by (simp add: report_change_def Let_def followed_by_def assign_def add.commute)
    qed
    with e1 Some Cons g show ?thesis by (simp add: report_incident_def followed_by_def)
  qed
qed

lemma frame_step_running:
  assumes run: "running B N v bid n e" and f: "frame_fits t f" "0 \<le> t" and N: "N + 5 < 2 ^ 63"
    and v': "v' = Verifier.update (c_ns f) (c_detections f) v"
    and sm: "frame_small dumps args bid B (n + 1) v' f" and B: "B < 2 ^ 31"
  shows "\<exists>e'. frame_step dumps loads args (Some f) e = (Ok (), e') \<and> running B (N + 5) v' bid (n + 1) e'"
proof -
  have ns: "fits 8 (c_ns f)" and net: "\<forall>k. transferred (c_network f k) = Sent"
    using f by (simp_all add: frame_fits_def fits_def sqlite_int_def)
  obtain e1 where e1: "see args f e = (Ok (), e1)" "running B N v' bid (n + 1) e1"
    using run by (simp add: see_def assign_def Let_def running_def v')
  have g: "frame_sequence e1 = n + 1" using e1(2) by (simp add: running_def)
  define pl where "pl = be_bytes 4 (int (length (dumps (frame_metadata args (n + 1) f)))) @ dumps (frame_metadata args (n + 1) f) @ c_jpeg f"
  have pl: "edge_frame_payload dumps (frame_metadata args (n + 1) f) (c_jpeg f) = Ok pl" "small B pl"
    using sm B by (auto simp: edge_frame_payload_def Let_def pl_def frame_small_def small_def fits_def)
  obtain e2 where e2: "send_frame dumps loads args f e1 = (Ok (), e2)" "running B (N + 1) v' bid (n + 1) e2"
    using send_bytes_running [OF e1(2) _ _ ns pl(2) B, of 0 dumps loads E_FRAME] net N g pl(1)
    by (auto simp: send_frame_def)
  have s: "small B (dumps (detections_payload (n + 1) f))" "small B (dumps (health_payload f))"
    using sm by (simp_all add: frame_small_def)
  obtain e3 where e3: "send_detections dumps loads f e2 = (Ok (), e3)" "running B (N + 2) v' bid (n + 1) e3"
    using send_bytes_running [OF e2(2) _ _ ns s(1) B, of 1 dumps loads E_DETECTIONS] net N e2(2)
    by (auto simp: send_detections_def running_def)
  obtain e4 where e4: "report_incident dumps loads args f e3 = (Ok (), e4)" "running B (N + 2 + 2) v' bid (n + 1) e4"
    using report_incident_running [OF e3(2) net _ ns sm B, of loads] N by auto
  then have e4: "report_incident dumps loads args f e3 = (Ok (), e4)" "running B (N + 4) v' bid (n + 1) e4"
    by (auto intro: running_mono)
  obtain e5 where e5: "report_health dumps loads f e4 = (Ok (), e5)" "running B (N + 5) v' bid (n + 1) e5"
  proof (cases "1 \<le> fsub (fst (c_health f)) (last_health e4)")
    case True
    let ?e4 = "e4\<lparr>last_health := snd (c_health f)\<rparr>"
    have "running B (N + 4) v' bid (n + 1) ?e4" using e4(2) by simp
    from send_bytes_running [OF this _ _ ns s(2) B, of 4 dumps loads E_HEALTH_UPDATE] net N True that
    show ?thesis by (auto simp: report_health_def add.commute)
  next
    case False
    with that [of e4] running_mono [OF e4(2), of "N + 5"] show ?thesis by (simp add: report_health_def)
  qed
  have "\<exists>e6. log_health f e5 = (Ok (), e6) \<and> running B (N + 5) v' bid (n + 1) e6"
    using e5(2) by (simp add: log_health_def)
  with e1(1) e2(1) e3(1) e4(1) e5(1) show ?thesis by (auto simp: frame_step_def followed_by_def)
qed

lemma frames_running:
  assumes "running B N v bid n e" and "frames_fit t (map Some fs)" "0 \<le> t" and "N + 5 * int (length fs) < 2 ^ 63"
    and "frames_small dumps args bid B n v fs" and "B < 2 ^ 31"
  shows "\<exists>e'. frames_loop dumps loads args (map Some fs) e = (Ok (), e')
     \<and> running B (N + 5 * int (length fs)) (run (map (\<lambda>f. (c_ns f, c_detections f)) fs) v) bid (n + int (length fs)) e'"
  using assms
proof (induction fs arbitrary: N v n e t)
  case (Cons f fs)
  let ?v = "Verifier.update (c_ns f) (c_detections f) v"
  have f: "frame_fits t f" "frames_fit (c_ns f) (map Some fs)" "0 \<le> c_ns f" "N + 5 < 2 ^ 63"
    using Cons.prems by (auto simp: frame_fits_def)
  from Cons.prems(5) have "frame_small dumps args bid B (n + 1) ?v f" by (simp add: Let_def)
  from frame_step_running [OF Cons.prems(1) f(1) Cons.prems(3) f(4) refl this Cons.prems(6), of loads]
  obtain e1 where e1: "frame_step dumps loads args (Some f) e = (Ok (), e1)" "running B (N + 5) ?v bid (n + 1) e1"
    by blast
  from Cons.IH [OF e1(2) f(2,3)] Cons.prems(4,5,6) show ?case
    by (auto simp: Let_def followed_by_def e1(1) Verifier.step_def algebra_simps)
qed simp

section \<open>What the theorems assume\<close>

text \<open>A run of the edge on a network that holds, without an exception.\<close>

definition steady_run ::
  "dumps \<Rightarrow> loads \<Rightarrow> edge_args \<Rightarrow> string \<Rightarrow> string \<Rightarrow> network \<Rightarrow> camera_frame option list \<Rightarrow> edge \<Rightarrow> bool" where
  "steady_run dumps loads args tok bid net fs e \<longleftrightarrow>
     edge_loop dumps loads args tok bid net fs = (Ok (), e)
     \<and> fst (connect dumps loads net (new_stream (a_device args) tok bid)) = Ok True
     \<and> frames_fit 0 fs \<and> names_fit (a_device args) bid (int (length fs))"

text \<open>The edge is the device the backend expects, and neither side's JSON is in the way.\<close>

definition compatible :: "env \<Rightarrow> dumps \<Rightarrow> edge_args \<Rightarrow> string \<Rightarrow> bool" where
  "compatible env dumps args tok \<longleftrightarrow> a_device args = expected_device_id (conf env)
     \<and> tok = device_token (conf env) \<and> ascii tok
     \<and> json_text (loads_json env) dumps \<and> validates (check_update env)
     \<and> length (dumps_json env ack_payload) < 2 ^ 32"

text \<open>The bytes of the connection arrive, in chunks the parser's buffer has room for.\<close>

definition arrives :: "env \<Rightarrow> edge \<Rightarrow> arrival list \<Rightarrow> bool" where
  "arrives env e as \<longleftrightarrow> concat (map chunk_of as) = concat (wire (link_of e)) \<and> as \<noteq> []
     \<and> [] \<notin> chunk_of ` set as \<and> (\<forall>a \<in> set as. fits 8 (fst (snd a)))
     \<and> (let m = settings.max_payload_bytes (conf env) in
          \<exists>L. payloads_within L m (last_sent (link_of e)) \<and> chunks_within L m (map chunk_of as))"

lemma edge_reaches_backend:
  assumes "steady_run dumps loads args tok bid net fs e" and "compatible env dumps args tok"
    and "idle env args bid w" and "arrives env e as"
  shows "\<exists>s' w'. on_chunks env as (new_session env wr, w) = (s', w') \<and> sess_open s' \<and> synced (gate e) w' \<and> wf (gate e)"
proof -
  let ?m = "settings.max_payload_bytes (conf env)" and ?ms = "last_sent (link_of e)"
  let ?s = "new_session env wr"
  from assms(1) have run: "edge_loop dumps loads args tok bid net fs = (Ok (), e)"
    by (simp add: steady_run_def)
  have rel: "frames_rel env (?s, w) synced e \<and> wf (gate e)"
    by (rule edge_loop_synced [OF run _ assms(3)]) (insert assms(1,2), unfold steady_run_def compatible_def, blast+)
  from assms(4) obtain L where arr: "concat (map chunk_of as) = concat (wire (link_of e))" "as \<noteq> []"
    "[] \<notin> chunk_of ` set as" "\<forall>a \<in> set as. fits 8 (fst (snd a))" "payloads_within L ?m ?ms"
    "chunks_within L ?m (map chunk_of as)"
    by (auto simp: arrives_def Let_def)
  from edge_loop_link_ok [of dumps loads args tok bid net fs] run rel
  have "encodes edge_encode_packet ?ms (wire (link_of e))" by (simp add: frames_rel_def link_ok_def)
  from edge_codec.feed_stream [OF this arr(5,6,1)] arr(2)
  have feed: "feed_all (map chunk_of as) (sess_parser ?s) = (Ok (delivered edge_type ?ms), new_parser ?m)"
    by (simp add: new_session_def)
  let ?tks = "timed_packets as (sess_parser ?s)"
  have "\<forall>tk \<in> set ?tks. fits 8 (fst (snd tk))" using timed_packets_clock arr(4) by fastforce
  with rel timed_packets_all [OF feed] obtain s' w' where
    t: "on_timed env ?tks (?s, w) = (Ok (), s', w')" and sync: "synced (gate e) w'"
    unfolding frames_rel_def follows_def by blast
  have "sess_open s'" using on_timed_parser [OF t, of "sess_parser ?s"] by (simp add: new_session_def)
  with on_chunks_timed [OF feed t _ arr(3)] sync rel show ?thesis by (auto simp: new_session_def)
qed

lemma edge_loop_running:
  assumes c: "connect dumps loads net (new_stream (a_device args) tok bid) = (Ok True, s)"
    and fits: "frames_fit 0 (map Some fs)" and n: "int (length fs) < 2 ^ 60" and B: "B < 2 ^ 31"
    and sm: "small B (dumps (hello_payload (new_stream (a_device args) tok bid)))"
      "frames_small dumps args bid B 0 (default_verifier (a_device args) bid) fs"
  shows "\<exists>e. edge_loop dumps loads args tok bid net (map Some fs) = (Ok (), e) \<and> link (link_of e)
     \<and> payloads_within (nat B) B (last_sent (link_of e))
     \<and> gate e = run (map (\<lambda>f. (c_ns f, c_detections f)) fs) (default_verifier (a_device args) bid)"
proof -
  let ?e = "(new_edge args tok bid)\<lparr>link_of := s\<rparr>" and ?v = "default_verifier (a_device args) bid"
  have "running B 2 ?v bid 0 ?e"
    using connect_up [OF c] sm(1) by (simp add: running_def new_edge_def small_def)
  from frames_running [OF this fits _ _ sm(2) B, of loads] n
  obtain e where "frames_loop dumps loads args (map Some fs) ?e = (Ok (), e)"
    "running B (2 + 5 * int (length fs)) (run (map (\<lambda>f. (c_ns f, c_detections f)) fs) ?v) bid (int (length fs)) e"
    by auto
  moreover have "link_of (new_edge args tok bid) = new_stream (a_device args) tok bid" by (simp add: new_edge_def)
  ultimately show ?thesis using c by (simp add: edge_loop_def Let_def running_def)
qed

section \<open>An example\<close>

text \<open>Six frames with a fire in two and a half seconds, sent byte by byte.\<close>

definition pipe_args :: edge_args where
  "pipe_args = \<lparr>a_device = ''ignis-qnxpi-01'', a_jpeg_quality = 75, a_has_lcd = False\<rparr>"

definition pipe_env :: env where
  "pipe_env = \<lparr>conf = call_settings, loads_json = code_loads, dumps_json = code_dumps, repr_json = (\<lambda>_. []),
     sha256 = (\<lambda>d. d), check_update = incident_update_of\<rparr>"

definition pipe_fire :: detection where
  "pipe_fire = \<lparr>class_name = ''fire'', class_id = 0, confidence = 1, bbox = (0, 0, 1, 1)\<rparr>"

definition pipe_frame :: "int \<Rightarrow> camera_frame" where
  "pipe_frame t = (demo_frame t [pipe_fire])\<lparr>c_jpeg := [0xFF, 0xD8, 0xFF, 0xD9]\<rparr>"

definition pipe_frames :: "camera_frame list" where
  "pipe_frames = map (\<lambda>k. pipe_frame (k * 500000000)) [0, 1, 2, 3, 4, 5]"

definition pipe_gate :: verifier where
  "pipe_gate = run (map (\<lambda>f. (c_ns f, c_detections f)) pipe_frames) (default_verifier ''ignis-qnxpi-01'' ''b'')"

lemma pipe_gate_state:
  "fire_state.incident_id (state pipe_gate) = Some ''ignis-qnxpi-01-b-1'' \<and> confirmed (state pipe_gate)
   \<and> fire_state.hazard_state (state pipe_gate) = CONFIRMED"
  by code_simp

text \<open>The sizes, with those of the code in the place of its bytes.\<close>

definition small_json :: "dict \<Rightarrow> bool" where
  "small_json d \<longleftrightarrow> json_size (JObj d) < 4000"

definition pipe_small :: "int \<Rightarrow> verifier \<Rightarrow> camera_frame \<Rightarrow> bool" where
  "pipe_small n v f \<longleftrightarrow> small_json (frame_metadata pipe_args n f) \<and> small_json (detections_payload n f)
     \<and> small_json (health_payload f) \<and> length (c_jpeg f) = 4
     \<and> (case fire_state.incident_id (state v) of None \<Rightarrow> True
        | Some i \<Rightarrow> small_json (update_payload pipe_args ''b'' i (state v) f) \<and> small_json (timeline_payload i (state v)))"

fun pipe_all_small :: "int \<Rightarrow> verifier \<Rightarrow> camera_frame list \<Rightarrow> bool" where
  "pipe_all_small n v [] = True"
| "pipe_all_small n v (f # fs) = (case Verifier.update (c_ns f) (c_detections f) v of
     v \<Rightarrow> pipe_small (n + 1) v f \<and> pipe_all_small (n + 1) v fs)"

lemma small_code: "small_json d \<Longrightarrow> small 4992 (code_dumps d) \<and> small 5000 (code_dumps d)"
  by (simp add: small_json_def small_def length_code_dumps del: json_size.simps)

lemma pipe_small_code: "pipe_small n v f \<Longrightarrow> frame_small code_dumps pipe_args ''b'' 5000 n v f"
  by (auto simp: pipe_small_def frame_small_def dest!: small_code split: option.splits)

lemma pipe_all_small_code:
  "pipe_all_small n v fs \<Longrightarrow> frames_small code_dumps pipe_args ''b'' 5000 n v fs"
  by (induction fs arbitrary: n v) (simp_all add: pipe_small_code Let_def)

lemma pipe_frames_small: "pipe_all_small 0 (default_verifier ''ignis-qnxpi-01'' ''b'') pipe_frames"
  by code_simp

lemma pipe_connected:
  assumes "fst (receive_ack loads [take 3 demo_ack, drop 3 demo_ack]) = Ok [(''accepted'', JBool True)]"
  shows "\<exists>s. connect code_dumps loads demo_network (new_stream ''ignis-qnxpi-01'' ''replace-me'' ''b'') = (Inr True, s)
     \<and> small 5000 (code_dumps (hello_payload (new_stream ''ignis-qnxpi-01'' ''replace-me'' ''b'')))"
proof -
  let ?h = "hello_payload (new_stream ''ignis-qnxpi-01'' ''replace-me'' ''b'')"
  have "small_json ?h" by code_simp
  then have s: "small 5000 (code_dumps ?h)" by (simp add: small_code)
  then obtain bs where b: "edge_encode_packet E_HELLO (code_dumps ?h) 1 5 = Ok bs"
    using edge_encode_packet_fits [of 1 5 "code_dumps ?h"] by (auto simp: fits_def small_def)
  have "next_sequence (new_stream d tok bd) = 1" "next_reconnect (new_stream d tok bd) = 0" for d tok bd
    by (simp_all add: new_stream_def)
  then show ?thesis
    using b s assms by (simp add: connect_def next_packet_def demo_network_def del: take.simps drop.simps)
qed

lemma json_text_code: "json_text code_loads code_dumps"
  by (auto simp: json_text_def faithful_def code_round_trip) (simp add: code_dumps_def)

definition pipe_world :: world where
  "pipe_world = (new_world pipe_env)\<lparr>armed := True\<rparr>"

definition pipe_arrivals :: "edge \<Rightarrow> arrival list" where
  "pipe_arrivals e = map (\<lambda>b. (\<lambda>_. 100, 7, True, [b])) (concat (wire (link_of e)))"

lemma pipe_names: "names_fit (a_device pipe_args) ''b'' 6"
proof -
  have "list_all (\<lambda>n. length (mk_incident_id (a_device pipe_args) ''b'' n) \<le> 160) [0, 1, 2, 3, 4, 5, 6]" by code_simp
  moreover have "n \<in> set [0, 1, 2, 3, 4, 5, 6]" if "n \<le> 6" "0 \<le> n" for n :: int using that by auto
  ultimately have "\<forall>n. n \<le> 6 \<longrightarrow> 0 \<le> n \<longrightarrow> length (mk_incident_id (a_device pipe_args) ''b'' n) \<le> 160"
    unfolding list_all_iff by blast
  then show ?thesis by (simp add: names_fit_def pipe_args_def)
qed

lemma pipe_frames_fit: "frames_fit 0 (map Some pipe_frames)"
  by (simp add: pipe_frames_def frame_fits_def pipe_frame_def demo_frame_def pipe_fire_def unit_confidence_def
      jpeg_ok_def sqlite_int_def demo_network_def)

lemma pipe_compatible: "compatible pipe_env code_dumps pipe_args ''replace-me''"
proof -
  have "small_json ack_payload" by code_simp
  then have "length (dumps_json pipe_env ack_payload) < 2 ^ 32"
    using small_code [of ack_payload] by (simp add: pipe_env_def small_def)
  moreover have "a_device pipe_args = expected_device_id (conf pipe_env)"
    "''replace-me'' = device_token (conf pipe_env)" "ascii ''replace-me''" by code_simp+
  moreover have "validates (check_update pipe_env)" "json_text (loads_json pipe_env) code_dumps"
    using json_text_code by (simp_all add: validates_def pipe_env_def)
  ultimately show ?thesis by (simp add: compatible_def)
qed

lemma pipe_idle: "idle pipe_env pipe_args ''b'' pipe_world"
  by (simp add: idle_def pipe_world_def new_world_def)

lemma toy_acknowledged:
  "fst (receive_ack toy_loads [take 3 demo_ack, drop 3 demo_ack]) = Ok [(''accepted'', JBool True)]"
  by code_simp

lemma pipe_run:
  assumes "fst (receive_ack loads [take 3 demo_ack, drop 3 demo_ack]) = Ok [(''accepted'', JBool True)]"
  shows "\<exists>e. steady_run code_dumps loads pipe_args ''replace-me'' ''b'' demo_network (map Some pipe_frames) e
     \<and> arrives pipe_env e (pipe_arrivals e) \<and> gate e = pipe_gate"
proof -
  have dev: "a_device pipe_args = ''ignis-qnxpi-01''" by (simp add: pipe_args_def)
  obtain s where c: "connect code_dumps loads demo_network (new_stream (a_device pipe_args) ''replace-me'' ''b'') = (Ok True, s)"
    and h: "small 5000 (code_dumps (hello_payload (new_stream (a_device pipe_args) ''replace-me'' ''b'')))"
    using pipe_connected [OF assms] dev by auto
  have len: "int (length pipe_frames) = 6" by (simp add: pipe_frames_def)
  from edge_loop_running [OF c pipe_frames_fit _ _ h] pipe_all_small_code [OF pipe_frames_small] len dev
  obtain e where e: "edge_loop code_dumps loads pipe_args ''replace-me'' ''b'' demo_network (map Some pipe_frames) = (Ok (), e)"
    "link (link_of e)" "payloads_within 5000 5000 (last_sent (link_of e))" "gate e = pipe_gate"
    by (auto simp: pipe_gate_def)
  have run: "steady_run code_dumps loads pipe_args ''replace-me'' ''b'' demo_network (map Some pipe_frames) e"
    using e(1) c pipe_frames_fit pipe_names len by (simp add: steady_run_def)
  from edge_loop_link_ok [of code_dumps loads pipe_args "''replace-me''" "''b''" demo_network "map Some pipe_frames"] e
  have "encodes edge_encode_packet (last_sent (link_of e)) (wire (link_of e))" "last_sent (link_of e) \<noteq> []"
    by (simp_all add: link_ok_def)
  then have "concat (wire (link_of e)) \<noteq> []"
    by (cases "last_sent (link_of e)") (auto simp: edge_encode_packet_def HEADER_SIZE_def
        split: sum.splits dest!: pack_header_layout(1))
  moreover have bytes: "concat (map (\<lambda>b. [b]) xs) = xs" for xs :: bytes by (induction xs) auto
  moreover have "map chunk_of (pipe_arrivals e) = map (\<lambda>b. [b]) (concat (wire (link_of e)))"
    by (simp add: pipe_arrivals_def chunk_of_def)
  moreover have "payloads_within 5000 2097152 (last_sent (link_of e))"
    using e(3) by (auto simp: payloads_within_def)
  moreover have "settings.max_payload_bytes (conf pipe_env) = 2097152" by code_simp
  ultimately have "arrives pipe_env e (pipe_arrivals e)"
    by (auto simp: arrives_def Let_def bytes chunks_within_def HEADER_SIZE_def intro!: exI [of _ 5000])
       (auto simp: pipe_arrivals_def fits_def chunk_of_def)
  with run e(4) show ?thesis by blast
qed

section \<open>Properties\<close>

text \<open>
  C2. From the camera to the dashboard: the known edge runs over any frames on a network that
  holds; its bytes reach an armed backend in any chunks, at any times. Then every packet is
  accepted, the connection stays open, and the backend's row of the open incident has the hazard
  state of the edge, awaits a response exactly when the edge has confirmed the fire, and then
  its confirmation time is stored and its response timer runs.
\<close>

theorem edge_state_reaches_backend:
  assumes "steady_run dumps loads args tok bid net fs e" and "compatible env dumps args tok"
    and "idle env args bid w" and "arrives env e as"
  shows "\<exists>s' w'. on_chunks env as (new_session env wr, w) = (s', w') \<and> sess_open s'
     \<and> (\<forall>i. fire_state.incident_id (state (gate e)) = Some i \<longrightarrow>
          (\<exists>r. get_incident i (store w') = Some r
             \<and> incident.hazard_state r = fire_state.hazard_state (state (gate e))
             \<and> response_state r = (if confirmed (state (gate e)) then AWAITING_RESPONSE else IDLE)
             \<and> (confirmed (state (gate e)) \<longrightarrow>
                  map_of (tasks w') i = Some Sleeping \<and> confirmed_at r \<noteq> None)))"
  using edge_reaches_backend [OF assms, of wr] by (fastforce simp: synced_def)

theorem edge_state_reaches_backend_witness:
  "\<exists>as s' w' r. on_chunks pipe_env as (new_session pipe_env 1, pipe_world) = (s', w') \<and> sess_open s'
     \<and> get_incident ''ignis-qnxpi-01-b-1'' (store w') = Some r \<and> incident.hazard_state r = CONFIRMED
     \<and> map_of (tasks w') ''ignis-qnxpi-01-b-1'' = Some Sleeping"
proof -
  from pipe_run [OF toy_acknowledged] obtain e where
    e: "steady_run code_dumps toy_loads pipe_args ''replace-me'' ''b'' demo_network (map Some pipe_frames) e"
    "arrives pipe_env e (pipe_arrivals e)" "gate e = pipe_gate" by blast
  from edge_state_reaches_backend [OF e(1) pipe_compatible pipe_idle e(2), of 1] pipe_gate_state
  show ?thesis unfolding e(3) by fastforce
qed

text \<open>
  From the camera to the telephone: when that run has confirmed a fire, calls are enabled and
  configured, and none was placed before, the timer of the incident, once it fires unanswered,
  sends a request to the provider.
\<close>

theorem unanswered_fire_is_dialled:
  assumes "steady_run dumps loads args tok bid net fs e" and "compatible env dumps args tok"
    and "idle env args bid w" and "arrives env e as"
    and "fire_state.incident_id (state (gate e)) = Some i" and "confirmed (state (gate e))"
    and "demo_calls_enabled (conf env)" and "call_provider (conf env) = ''elevenlabs''"
    and "elevenlabs_api_key (conf env) \<noteq> []" "dispatch_agent_id (conf env) \<noteq> []" "phone_number_id (conf env) \<noteq> []"
    and "validate_destination (demo_dispatch_number (conf env)) (demo_allowed_numbers (conf env)) = Ok ()"
    and "attempts (store w) = []" and "0 < max_calls_per_incident (conf env)"
    and "(s', w') = on_chunks env as (new_session env wr, w)"
  shows "\<exists>q. requests (on_timeout env ck i w') = requests w @ [q]"
proof -
  from edge_reaches_backend [OF assms(1-4), of wr] assms(15) have "synced (gate e) w'" "wf (gate e)" by auto
  with assms(5,6) obtain r where r: "get_incident i (store w') = Some r" "due r" "confirmed_at r \<noteq> None"
    "map_of (tasks w') i = Some Sleeping" "response_state r = AWAITING_RESPONSE"
    by (auto simp: synced_def due_def wf_def)
  from step_on_chunks [of w env as "new_session env wr"] assms(15)
  have "attempts (store w') = []" "requests w' = requests w"
    using assms(13) by (simp_all add: device_step_def split: prod.splits) (metis snd_conv)+
  with r assms(14) have "may_reserve (ck 3) i (global_call_cooldown_seconds (conf env))
      (max_calls_per_incident (conf env)) (store w')"
    by (simp add: may_reserve_def active_count_def)
  from timeout_requests [where ck = ck, OF r(4,1,2) assms(7-12) this] \<open>requests w' = requests w\<close> show ?thesis by simp
qed

theorem unanswered_fire_is_dialled_witness:
  "\<exists>as s' w'. (s', w') = on_chunks pipe_env as (new_session pipe_env 1, pipe_world)
     \<and> length (requests (on_timeout pipe_env (\<lambda>_. 200) ''ignis-qnxpi-01-b-1'' w')) = 1"
proof -
  from pipe_run [OF toy_acknowledged] obtain e where
    e: "steady_run code_dumps toy_loads pipe_args ''replace-me'' ''b'' demo_network (map Some pipe_frames) e"
    "arrives pipe_env e (pipe_arrivals e)" "gate e = pipe_gate" by blast
  obtain s' w' where w': "(s', w') = on_chunks pipe_env (pipe_arrivals e) (new_session pipe_env 1, pipe_world)"
    by (metis prod.collapse)
  have cfg: "demo_calls_enabled (conf pipe_env)" "call_provider (conf pipe_env) = ''elevenlabs''"
    "elevenlabs_api_key (conf pipe_env) \<noteq> []" "dispatch_agent_id (conf pipe_env) \<noteq> []"
    "phone_number_id (conf pipe_env) \<noteq> []" "0 < max_calls_per_incident (conf pipe_env)"
    by (simp_all add: pipe_env_def call_settings_def default_settings_def)
  have val: "validate_destination (demo_dispatch_number (conf pipe_env)) (demo_allowed_numbers (conf pipe_env)) = Ok ()"
    by code_simp
  have w: "attempts (store pipe_world) = []" "requests pipe_world = []"
    by (simp_all add: pipe_world_def new_world_def empty_db_def)
  have i: "fire_state.incident_id (state (gate e)) = Some ''ignis-qnxpi-01-b-1''" "confirmed (state (gate e))"
    using pipe_gate_state by (simp_all add: e(3))
  from unanswered_fire_is_dialled [OF e(1) pipe_compatible pipe_idle e(2) i cfg(1-5) val w(1) cfg(6) w', of "\<lambda>_. 200"] w(2)
  have "length (requests (on_timeout pipe_env (\<lambda>_. 200) ''ignis-qnxpi-01-b-1'' w')) = 1" by auto
  with w' show ?thesis by blast
qed

end
