(* ===== verification/Training.thy ===== *)
theory Training
  imports Json Text Wire "HOL-Library.Multiset" "HOL-Library.Char_ord" "HOL-Library.List_Lexorder"
begin

text \<open>
  The dataset tools that decide what the detector is trained and judged on,
  \<^verbatim>\<open>src/training/ignis_training/split_by_source.py\<close>, \<^verbatim>\<open>validate_split.py\<close>,
  \<^verbatim>\<open>calibrate_thresholds.py\<close>, \<^verbatim>\<open>convert_annotations.py\<close> and \<^verbatim>\<open>extract_frames.py\<close>: the deterministic split of the
  records by a hash of their source, the check that no source is in two partitions, the
  choice of the confidence threshold, the frames taken from a video and the conversion of a box. Records are the
  dictionaries of theory \<open>Json\<close>; SHA-256 of a text is the argument \<open>sha256\<close>; reading and
  writing the files is left out.
\<close>

datatype training_error =
  BadRatios | MissingSource | MissingPartition | MissingField
| SourceLeakage string string string | DuplicatePath string
| LengthMismatch | NoCalibrationData | BadBox | DivisionByZero

section \<open>The split by source\<close>

text \<open>\<open>assign_source\<close>: the first eight bytes of the digest as a fraction of 2^64 - 1.\<close>

definition hash_fraction :: "bytes \<Rightarrow> rat" where
  "hash_fraction digest = fdiv (of_int (be_val (take 8 digest))) (of_int (2 ^ 64 - 1))"

definition assign_source ::
  "(string \<Rightarrow> bytes) \<Rightarrow> string \<Rightarrow> string \<Rightarrow> rat \<Rightarrow> rat \<Rightarrow> string" where
  "assign_source sha256 source_id seed train validation =
     (let value = hash_fraction (sha256 (seed @ '':'' @ source_id)) in
      if value < train then ''train''
      else if value < fadd train validation then ''validation''
      else ''test'')"

type_synonym groups = "(string \<times> dict list) list"

definition source_of :: "(json \<Rightarrow> string) \<Rightarrow> dict \<Rightarrow> string" where
  "source_of repr r = strip (py_str repr (get_default r ''source_id'' (JStr '''')))"

fun group_records :: "(json \<Rightarrow> string) \<Rightarrow> dict list \<Rightarrow> groups \<Rightarrow> (training_error, groups) result" where
  "group_records repr [] grouped = Ok grouped"
| "group_records repr (r # rs) grouped =
     (let source_id = source_of repr r in
      if source_id = [] then Err MissingSource
      else group_records repr rs (AList.map_default source_id [r] (\<lambda>old. old @ [r]) grouped))"

fun extend_all :: "(string \<Rightarrow> string) \<Rightarrow> groups \<Rightarrow> groups \<Rightarrow> groups" where
  "extend_all assign result [] = result"
| "extend_all assign result ((s, rs) # gs) =
     extend_all assign (AList.map_entry (assign s) (\<lambda>old. old @ rs) result) gs"

definition split_records ::
  "(json \<Rightarrow> string) \<Rightarrow> (string \<Rightarrow> bytes) \<Rightarrow> dict list \<Rightarrow> string \<Rightarrow> rat \<Rightarrow> rat
   \<Rightarrow> (training_error, groups) result" where
  "split_records repr sha256 records seed train validation =
     (if \<not> (0 < train \<and> train < 1) \<or> \<not> (0 \<le> validation \<and> validation < 1) \<or> 1 \<le> fadd train validation
      then Err BadRatios
      else rbind (group_records repr records []) (\<lambda>grouped.
        Ok (extend_all (\<lambda>s. assign_source sha256 s seed train validation)
              [(''train'', []), (''validation'', []), (''test'', [])] (sort_key fst grouped))))"

section \<open>The check of a split\<close>

definition record_source :: "(json \<Rightarrow> string) \<Rightarrow> dict \<Rightarrow> string" where
  "record_source repr r = py_str repr (get_default r ''source_id'' (JStr ''''))"

definition record_path :: "(json \<Rightarrow> string) \<Rightarrow> dict \<Rightarrow> string" where
  "record_path repr r = py_str repr (get_default r ''path'' (JStr ''''))"

type_synonym seen = "(string \<rightharpoonup> string) \<times> string set"

fun check_records ::
  "(json \<Rightarrow> string) \<Rightarrow> string \<Rightarrow> dict list \<Rightarrow> seen \<Rightarrow> (training_error, seen) result" where
  "check_records repr pn [] seen = Ok seen"
| "check_records repr pn (r # rs) (sources, paths) =
     (let s = record_source repr r; path = record_path repr r in
      if s = [] \<or> path = [] then Err MissingField
      else let sources' = (if sources s = None then sources(s \<mapsto> pn) else sources);
               previous = the (sources' s)
           in if previous \<noteq> pn then Err (SourceLeakage s previous pn)
              else if path \<in> paths then Err (DuplicatePath path)
              else check_records repr pn rs (sources', insert path paths))"

fun check_partitions :: "(json \<Rightarrow> string) \<Rightarrow> groups \<Rightarrow> seen \<Rightarrow> (training_error, seen) result" where
  "check_partitions repr [] seen = Ok seen"
| "check_partitions repr ((pn, rs) # ps) seen =
     rbind (check_records repr pn rs seen) (check_partitions repr ps)"

definition validate_split ::
  "(json \<Rightarrow> string) \<Rightarrow> groups \<Rightarrow> (training_error, (string \<times> nat) list) result" where
  "validate_split repr split =
     (if set (map fst split) \<noteq> {''train'', ''validation'', ''test''} then Err MissingPartition
      else rbind (check_partitions repr split (Map.empty, {})) (\<lambda>_.
        Ok (map (\<lambda>(pn, rs). (pn, length rs)) split)))"

section \<open>The confidence threshold\<close>

record calibration =
  threshold :: rat
  precision :: rat
  recall :: rat
  f1 :: rat

definition count_where :: "('a \<Rightarrow> bool) \<Rightarrow> 'a list \<Rightarrow> int" where
  "count_where P xs = int (length (filter P xs))"

text \<open>The body of the loop of \<open>best_f1_threshold\<close> for one step.\<close>

definition measure_at :: "(int \<times> rat) list \<Rightarrow> int \<Rightarrow> calibration" where
  "measure_at pairs step =
     (let thr = fdiv (of_int step) 100;
          true_positive = count_where (\<lambda>(label, score). label = 1 \<and> thr \<le> score) pairs;
          false_positive = count_where (\<lambda>(label, score). label = 0 \<and> thr \<le> score) pairs;
          false_negative = count_where (\<lambda>(label, score). label = 1 \<and> score < thr) pairs;
          prec = fdiv (of_int true_positive) (of_int (max 1 (true_positive + false_positive)));
          rec = fdiv (of_int true_positive) (of_int (max 1 (true_positive + false_negative)))
      in \<lparr>threshold = thr, precision = prec, recall = rec,
          f1 = fdiv (fmul (fmul 2 prec) rec) (max (fl (1 / 10 ^ 12)) (fadd prec rec))\<rparr>)"

fun best_of :: "(int \<times> rat) list \<Rightarrow> calibration \<Rightarrow> int list \<Rightarrow> calibration" where
  "best_of pairs best [] = best"
| "best_of pairs best (step # steps) =
     (let m = measure_at pairs step in
      best_of pairs (if f1 best < f1 m then m else best) steps)"

definition best_f1_threshold :: "int list \<Rightarrow> rat list \<Rightarrow> (training_error, calibration) result" where
  "best_f1_threshold labels scores =
     (if length labels \<noteq> length scores then Err LengthMismatch
      else if labels = [] then Err NoCalibrationData
      else Ok (best_of (zip labels scores)
             \<lparr>threshold = 1/2, precision = 0, recall = 0, f1 = - 1\<rparr> [1..99]))"

section \<open>Frames of a video\<close>

text \<open>
  The loop of \<^verbatim>\<open>extract_frames.py\<close> over the frames the capture delivers: the files written, with
  the name of each. A remainder by zero is an error of the first frame.
\<close>

definition frame_file :: "nat \<Rightarrow> string" where
  "frame_file n = ''frame-'' @ replicate (6 - length (str_nat n)) (CHR ''0'') @ str_nat n @ ''.jpg''"

fun extract_loop :: "int \<Rightarrow> int \<Rightarrow> nat \<Rightarrow> 'a list \<Rightarrow> (training_error, (string \<times> 'a) list) result" where
  "extract_loop every index written [] = Ok []"
| "extract_loop every index written (f # fs) =
     (if every = 0 then Err DivisionByZero
      else if index mod every = 0
        then rbind (extract_loop every (index + 1) (written + 1) fs) (\<lambda>ws. Ok ((frame_file written, f) # ws))
      else extract_loop every (index + 1) written fs)"

definition extract_frames :: "int \<Rightarrow> 'a list \<Rightarrow> (training_error, (string \<times> 'a) list) result" where
  "extract_frames every frames = extract_loop every 0 0 frames"

section \<open>Boxes\<close>

text \<open>\<open>coco_box_to_yolo\<close>: a corner with a size becomes a centre with a size, as fractions of the image.\<close>

definition coco_box_to_yolo ::
  "rat \<times> rat \<times> rat \<times> rat \<Rightarrow> int \<Rightarrow> int \<Rightarrow> (training_error, rat \<times> rat \<times> rat \<times> rat) result" where
  "coco_box_to_yolo box image_width image_height = (case box of (x, y, width, height) \<Rightarrow>
     if image_width \<le> 0 \<or> image_height \<le> 0 \<or> width \<le> 0 \<or> height \<le> 0 then Err BadBox
     else Ok (fdiv (fadd x (fdiv width 2)) (fl (of_int image_width)),
              fdiv (fadd y (fdiv height 2)) (fl (of_int image_height)),
              fdiv width (fl (of_int image_width)),
              fdiv height (fl (of_int image_height))))"

section \<open>What the split contains\<close>

text \<open>The records of a group list, and the groups that hold the records of one source each.\<close>

abbreviation pooled :: "groups \<Rightarrow> dict multiset" where
  "pooled g \<equiv> mset (concat (map snd g))"

definition by_source :: "(json \<Rightarrow> string) \<Rightarrow> groups \<Rightarrow> bool" where
  "by_source repr g \<longleftrightarrow> list_all (\<lambda>(s, rs). list_all (\<lambda>r. source_of repr r = s) rs) g"

lemma pooled_add: "pooled (AList.map_default s [r] (\<lambda>old. old @ [r]) g) = pooled g + {#r#}"
  by (induction g) auto

lemma by_source_add:
  "by_source repr g \<Longrightarrow> source_of repr r = s \<Longrightarrow>
   by_source repr (AList.map_default s [r] (\<lambda>old. old @ [r]) g)"
  by (induction g) (auto simp: by_source_def)

lemma group_records_Ok:
  assumes "group_records repr rs g = Ok g'" and "by_source repr g"
  shows "pooled g' = pooled g + mset rs" and "by_source repr g'"
    and "list_all (\<lambda>r. source_of repr r \<noteq> []) rs"
  using assms
  by (induction rs arbitrary: g) (auto simp: Let_def pooled_add by_source_add split: if_splits)

lemma pooled_sort: "pooled (sort_key f g) = pooled g"
proof -
  have "sum_mset (mset (map (mset \<circ> snd) (sort_key f g))) = sum_mset (mset (map (mset \<circ> snd) g))"
    by (simp del: sum_mset_sum_list)
  then have "sum_list (map (mset \<circ> snd) (sort_key f g)) = sum_list (map (mset \<circ> snd) g)"
    by (simp only: sum_mset_sum_list)
  then show ?thesis by (simp add: mset_concat)
qed

lemma by_source_sort: "by_source repr g \<Longrightarrow> by_source repr (sort_key f g)"
  by (simp add: by_source_def list_all_iff)

lemma map_fst_map_entry: "map fst (AList.map_entry k f xs) = map fst xs"
  by (induction xs) auto

lemma extend_all_Some:
  assumes "by_source repr g" and "map_of result p = Some part"
  shows "\<exists>part'. map_of (extend_all assign result g) p = Some part' \<and>
           mset part' = mset part + filter_mset (\<lambda>r. assign (source_of repr r) = p) (pooled g)"
  using assms
proof (induction g arbitrary: result part)
  case (Cons g gs)
  obtain s rs where g: "g = (s, rs)" by (cases g)
  let ?result = "AList.map_entry (assign s) (\<lambda>old. old @ rs) result"
  let ?part = "if assign s = p then part @ rs else part"
  have grp: "by_source repr gs" "\<And>r. r \<in> set rs \<Longrightarrow> source_of repr r = s"
    using Cons.prems(1) g by (auto simp: by_source_def list_all_iff)
  have "map_of ?result p = Some ?part" using Cons.prems(2) by (auto simp: AList.map_of_map_entry)
  from Cons.IH [OF grp(1) this] obtain part' where
    "map_of (extend_all assign ?result gs) p = Some part'"
    "mset part' = mset ?part + filter_mset (\<lambda>r. assign (source_of repr r) = p) (pooled gs)" by blast
  moreover have "filter_mset (\<lambda>r. assign (source_of repr r) = p) (mset rs) =
      filter_mset (\<lambda>_. assign s = p) (mset rs)"
    using grp(2) by (intro filter_mset_cong) auto
  ultimately show ?case by (simp add: g)
qed simp

lemma extend_all_keys: "map fst (extend_all assign result g) = map fst result"
  by (induction assign result g rule: extend_all.induct) (auto simp: map_fst_map_entry)

text \<open>Each partition is the multiset of the records whose source the hash sends there.\<close>

definition partitioned ::
  "(json \<Rightarrow> string) \<Rightarrow> (string \<Rightarrow> string) \<Rightarrow> dict list \<Rightarrow> groups \<Rightarrow> bool" where
  "partitioned repr assign rs split \<longleftrightarrow>
     map fst split = [''train'', ''validation'', ''test''] \<and>
     list_all (\<lambda>(p, part). mset part = filter_mset (\<lambda>r. assign (source_of repr r) = p) (mset rs)) split"

lemma split_records_Ok:
  assumes "split_records repr sha256 rs seed train validation = Ok split"
  shows "partitioned repr (\<lambda>s. assign_source sha256 s seed train validation) rs split"
    and "list_all (\<lambda>r. source_of repr r \<noteq> []) rs"
proof -
  let ?assign = "\<lambda>s. assign_source sha256 s seed train validation"
  let ?empty = "[(''train'', []), (''validation'', []), (''test'', [])] :: groups"
  from assms obtain g where g: "group_records repr rs [] = Ok g"
    and split: "split = extend_all ?assign ?empty (sort_key fst g)"
    by (auto simp: split_records_def rbind_Ok split: if_splits)
  have "by_source repr []" by (simp add: by_source_def)
  note grouped = group_records_Ok [OF g this]
  have keys: "map fst split = [''train'', ''validation'', ''test'']"
    by (simp add: split extend_all_keys)
  have part: "mset part = filter_mset (\<lambda>r. ?assign (source_of repr r) = p) (mset rs)"
    if "(p, part) \<in> set split" for p part
  proof -
    from that have "p \<in> set (map fst split)" by force
    then have "map_of ?empty p = Some []" unfolding keys by auto
    from extend_all_Some [OF by_source_sort [OF grouped(2)] this] obtain part' where
      "map_of split p = Some part'"
      "mset part' = filter_mset (\<lambda>r. ?assign (source_of repr r) = p) (pooled (sort_key fst g))"
      by (auto simp: split)
    moreover have "map_of split p = Some part" using that keys by (simp add: map_of_is_SomeI)
    ultimately show ?thesis by (simp add: pooled_sort grouped(1))
  qed
  show "partitioned repr ?assign rs split"
    using keys part by (auto simp: partitioned_def list_all_iff)
  show "list_all (\<lambda>r. source_of repr r \<noteq> []) rs" by (rule grouped(3))
qed

section \<open>What the check accepts\<close>

definition fields_given :: "(json \<Rightarrow> string) \<Rightarrow> dict \<Rightarrow> bool" where
  "fields_given repr r \<longleftrightarrow> record_source repr r \<noteq> [] \<and> record_path repr r \<noteq> []"

lemma check_records_Ok:
  "check_records repr p rs (S, D) = Ok (S', D') \<longleftrightarrow>
     list_all (fields_given repr) rs \<and> distinct (map (record_path repr) rs) \<and>
     record_path repr ` set rs \<inter> D = {} \<and>
     list_all (\<lambda>r. S (record_source repr r) \<in> {None, Some p}) rs \<and>
     S' = (\<lambda>s. if s \<in> record_source repr ` set rs then Some p else S s) \<and>
     D' = D \<union> record_path repr ` set rs"
proof (induction rs arbitrary: S D)
  case Nil
  then show ?case by auto
next
  case (Cons r rs)
  let ?s = "record_source repr r" and ?path = "record_path repr r"
  have step: "check_records repr p (r # rs) (S, D) = Ok (S', D') \<longleftrightarrow>
      fields_given repr r \<and> S ?s \<in> {None, Some p} \<and> ?path \<notin> D \<and>
      check_records repr p rs (S(?s \<mapsto> p), insert ?path D) = Ok (S', D')"
    by (cases "S ?s") (auto simp: fields_given_def Let_def fun_upd_idem)
  have claimed: "(\<lambda>s. if s \<in> record_source repr ` set rs then Some p else (S(?s \<mapsto> p)) s)
      = (\<lambda>s. if s \<in> record_source repr ` set (r # rs) then Some p else S s)"
    by auto
  show ?case
    unfolding step Cons.IH claimed by (auto simp: list_all_iff split: if_splits)
qed

text \<open>No source has records in two partitions.\<close>

definition apart :: "(json \<Rightarrow> string) \<Rightarrow> string \<times> dict list \<Rightarrow> string \<times> dict list \<Rightarrow> bool" where
  "apart repr x y \<longleftrightarrow> fst x = fst y \<or>
     record_source repr ` set (snd x) \<inter> record_source repr ` set (snd y) = {}"

definition no_leakage :: "(json \<Rightarrow> string) \<Rightarrow> groups \<Rightarrow> bool" where
  "no_leakage repr split \<longleftrightarrow> list_all (\<lambda>x. list_all (apart repr x) split) split"

definition free_for :: "(json \<Rightarrow> string) \<Rightarrow> (string \<rightharpoonup> string) \<Rightarrow> groups \<Rightarrow> bool" where
  "free_for repr S split \<longleftrightarrow>
     list_all (\<lambda>(p, rs). list_all (\<lambda>r. S (record_source repr r) \<in> {None, Some p}) rs) split"

lemma apart_refl: "apart repr x x"
  by (simp add: apart_def)

lemma apart_commute: "apart repr x y \<longleftrightarrow> apart repr y x"
  by (auto simp: apart_def)

lemma no_leakage_Cons:
  "no_leakage repr (x # ps) \<longleftrightarrow> no_leakage repr ps \<and> list_all (apart repr x) ps"
  by (auto simp: no_leakage_def list_all_iff apart_refl apart_commute)

lemma free_for_claimed:
  assumes "list_all (\<lambda>r. S (record_source repr r) \<in> {None, Some p}) rs"
  shows "free_for repr (\<lambda>s. if s \<in> record_source repr ` set rs then Some p else S s) ps \<longleftrightarrow>
    free_for repr S ps \<and>
    list_all (apart repr (p, rs)) ps"
proof -
  have part: "list_all (\<lambda>r. (if record_source repr r \<in> record_source repr ` set rs then Some p
                      else S (record_source repr r)) \<in> {None, Some p'}) rs' \<longleftrightarrow>
    list_all (\<lambda>r. S (record_source repr r) \<in> {None, Some p'}) rs' \<and>
    (p = p' \<or> record_source repr ` set rs \<inter> record_source repr ` set rs' = {})" for p' rs'
  proof -
    have "S (record_source repr r) \<in> {None, Some p}"
      if "record_source repr r \<in> record_source repr ` set rs" for r
      using assms that by (force simp: list_all_iff)
    then have elem: "(if record_source repr r \<in> record_source repr ` set rs then Some p
                else S (record_source repr r)) \<in> {None, Some p'} \<longleftrightarrow>
        (record_source repr r \<in> record_source repr ` set rs \<longrightarrow> p = p') \<and>
        S (record_source repr r) \<in> {None, Some p'}" for r
      by auto
    have outside: "A \<inter> record_source repr ` X = {} \<longleftrightarrow>
        (\<forall>r\<in>X. record_source repr r \<notin> A)" for A X
      by auto
    show ?thesis
    proof (cases "p = p'")
      case True
      then show ?thesis unfolding list_all_iff elem by simp
    next
      case False
      then show ?thesis
        unfolding list_all_iff elem outside ball_conj_distrib by (simp only: simp_thms conj_commute)
    qed
  qed
  show ?thesis
    unfolding free_for_def by (induction ps) (simp_all only: list.pred_inject case_prod_unfold part apart_def
        fst_conv snd_conv simp_thms conj_ac)
qed

lemma check_partitions_Ok:
  "is_ok (check_partitions repr ps (S, D)) \<longleftrightarrow>
     list_all (fields_given repr) (concat (map snd ps)) \<and>
     distinct (map (record_path repr) (concat (map snd ps))) \<and>
     record_path repr ` set (concat (map snd ps)) \<inter> D = {} \<and>
     free_for repr S ps \<and> no_leakage repr ps"
proof (induction ps arbitrary: S D)
  case Nil
  then show ?case by (simp add: free_for_def no_leakage_def)
next
  case (Cons q ps)
  obtain p rs where q: "q = (p, rs)" by (cases q)
  let ?S = "\<lambda>s. if s \<in> record_source repr ` set rs then Some p else S s"
  let ?D = "D \<union> record_path repr ` set rs"
  let ?mine = "list_all (fields_given repr) rs \<and> distinct (map (record_path repr) rs) \<and>
     record_path repr ` set rs \<inter> D = {} \<and>
     list_all (\<lambda>r. S (record_source repr r) \<in> {None, Some p}) rs"
  have "is_ok (check_partitions repr (q # ps) (S, D)) \<longleftrightarrow>
      ?mine \<and> is_ok (check_partitions repr ps (?S, ?D))"
    by (auto simp: q is_ok_iff rbind_Ok check_records_Ok)
  also have "\<dots> \<longleftrightarrow> ?mine \<and>
     list_all (fields_given repr) (concat (map snd ps)) \<and>
     distinct (map (record_path repr) (concat (map snd ps))) \<and>
     record_path repr ` set (concat (map snd ps)) \<inter> ?D = {} \<and>
     free_for repr S ps \<and>
     list_all (apart repr (p, rs)) ps \<and>
     no_leakage repr ps"
    unfolding Cons.IH by (rule conj_cong [OF refl]) (auto simp: free_for_claimed)
  also have "\<dots> \<longleftrightarrow> list_all (fields_given repr) (concat (map snd (q # ps))) \<and>
     distinct (map (record_path repr) (concat (map snd (q # ps)))) \<and>
     record_path repr ` set (concat (map snd (q # ps))) \<inter> D = {} \<and>
     free_for repr S (q # ps) \<and> no_leakage repr (q # ps)"
    unfolding q no_leakage_Cons free_for_def list.map concat.simps map_append distinct_append
      list_all_append set_append image_Un snd_conv set_map list.pred_inject case_prod_conv
    by blast
  finally show ?case .
qed

text \<open>
  C36. The check accepts a split exactly when it has the three partitions, every record names its
  source and path, no path occurs twice and no source is in two partitions; it then returns
  the size of each partition.
\<close>

theorem validate_split_exact:
  "validate_split repr split =
     Ok (map (\<lambda>(pn, rs). (pn, length rs)) split) \<longleftrightarrow>
   set (map fst split) = {''train'', ''validation'', ''test''} \<and>
   list_all (fields_given repr) (concat (map snd split)) \<and>
   distinct (map (record_path repr) (concat (map snd split))) \<and>
   no_leakage repr split"
proof -
  have "validate_split repr split = Ok (map (\<lambda>(pn, rs). (pn, length rs)) split) \<longleftrightarrow>
      set (map fst split) = {''train'', ''validation'', ''test''} \<and>
      is_ok (check_partitions repr split (Map.empty, {}))"
    by (auto simp: validate_split_def is_ok_iff rbind_Ok)
  then show ?thesis by (auto simp: check_partitions_Ok free_for_def list_all_iff)
qed

section \<open>The split passes the check\<close>

lemma assign_source_cases:
  "assign_source sha256 s seed train validation \<in> {''train'', ''validation'', ''test''}"
  by (simp add: assign_source_def Let_def)

lemma partitioned_pooled:
  assumes "partitioned repr assign rs split"
    and "\<And>s. assign s \<in> {''train'', ''validation'', ''test''}"
  shows "pooled split = mset rs"
proof -
  from assms(1) obtain A B C where split: "split = [(''train'', A), (''validation'', B), (''test'', C)]"
    by (auto simp: partitioned_def map_eq_Cons_conv)
  have "filter_mset (\<lambda>r. assign (source_of repr r) = ''train'') M +
      (filter_mset (\<lambda>r. assign (source_of repr r) = ''validation'') M +
       filter_mset (\<lambda>r. assign (source_of repr r) = ''test'') M) = M" for M
    using assms(2) by (induction M) force+
  with assms(1) show ?thesis by (simp add: partitioned_def split)
qed

lemma partitioned_no_leakage:
  assumes "partitioned repr assign rs split"
  shows "no_leakage repr split"
proof -
  have home: "assign (source_of repr r) = fst x" if "x \<in> set split" "r \<in> set (snd x)" for x r
  proof -
    from assms that(1) have "mset (snd x) = filter_mset (\<lambda>r. assign (source_of repr r) = fst x) (mset rs)"
      by (cases x) (auto simp: partitioned_def list_all_iff)
    with that(2) show ?thesis by (metis (mono_tags, lifting) filter_mset_eq_conv mem_Collect_eq
        set_mset_filter set_mset_mset)
  qed
  have "source_of repr r = strip (record_source repr r)" for r
    by (simp add: source_of_def record_source_def)
  with home have "apart repr x y" if "x \<in> set split" "y \<in> set split" for x y
    using that unfolding apart_def by (metis (no_types, lifting) disjoint_iff imageE)
  then show ?thesis by (simp add: no_leakage_def list_all_iff)
qed

text \<open>
  C35. A split whose records have distinct, non-empty paths passes the check, and nothing is
  lost or added: each partition holds exactly the records whose source the hash sends there,
  and the sizes the check returns add up to the number of records.
\<close>

theorem split_passes_check:
  assumes "split_records repr sha256 rs seed train validation = Ok split"
    and "distinct (map (record_path repr) rs)"
    and "list_all (\<lambda>r. record_path repr r \<noteq> []) rs"
  shows "partitioned repr (\<lambda>s. assign_source sha256 s seed train validation) rs split \<and>
    validate_split repr split = Ok (map (\<lambda>(pn, part). (pn, length part)) split) \<and>
    sum_list (map (\<lambda>(pn, part). length part) split) = length rs"
proof -
  note part = split_records_Ok [OF assms(1)]
  have pool: "pooled split = mset rs" by (rule partitioned_pooled [OF part(1) assign_source_cases])
  then have all: "set (concat (map snd split)) = set rs" by (metis set_mset_mset)
  have "mset (map (record_path repr) (concat (map snd split))) = mset (map (record_path repr) rs)"
    using pool by (metis mset_map)
  then have "distinct (map (record_path repr) (concat (map snd split)))"
    using assms(2) by (metis mset_eq_imp_distinct_iff)
  moreover have "list_all (fields_given repr) (concat (map snd split))"
    using assms(3) part(2) unfolding list_all_iff all
    by (auto simp: fields_given_def source_of_def record_source_def strip_def)
  moreover have "set (map fst split) = {''train'', ''validation'', ''test''}"
    using part(1) by (simp add: partitioned_def)
  ultimately have "validate_split repr split = Ok (map (\<lambda>(pn, rs). (pn, length rs)) split)"
    using partitioned_no_leakage [OF part(1)] by (simp only: validate_split_exact simp_thms)
  moreover have "sum_list (map (\<lambda>(pn, part). length part) split) = length rs"
    using arg_cong [OF pool, of size] by (simp add: length_concat o_def case_prod_unfold)
  ultimately show ?thesis using part(1) by blast
qed

text \<open>Four frames from three cameras, and a digest that looks at the last letter of the source.\<close>

definition demo_digest :: "string \<Rightarrow> bytes" where
  "demo_digest t = replicate 8 (if last t = CHR ''a'' then 0 else if last t = CHR ''b'' then 200 else 255)"

definition demo_record :: "string \<Rightarrow> string \<Rightarrow> dict" where
  "demo_record s p = [(''source_id'', JStr s), (''path'', JStr p)]"

definition demo_records :: "dict list" where
  "demo_records = [demo_record ''cam-b'' ''1.jpg'', demo_record ''cam-a'' ''2.jpg'',
     demo_record '' cam-b'' ''3.jpg'', demo_record ''cam-c'' ''4.jpg'']"

lemma demo_split:
  "split_records (\<lambda>_. []) demo_digest demo_records ''ignis-v1'' (fl (7 / 10)) (fl (15 / 100)) =
     Ok [(''train'', [demo_record ''cam-a'' ''2.jpg'']),
         (''validation'', [demo_record ''cam-b'' ''1.jpg'', demo_record '' cam-b'' ''3.jpg'']),
         (''test'', [demo_record ''cam-c'' ''4.jpg''])]"
  by code_simp

theorem split_passes_check_witness:
  "validate_split (\<lambda>_. [])
     [(''train'', [demo_record ''cam-a'' ''2.jpg'']),
      (''validation'', [demo_record ''cam-b'' ''1.jpg'', demo_record '' cam-b'' ''3.jpg'']),
      (''test'', [demo_record ''cam-c'' ''4.jpg''])] =
   Ok [(''train'', 1), (''validation'', 2), (''test'', 1)]"
proof -
  have "distinct (map (record_path (\<lambda>_. [])) demo_records)"
    "list_all (\<lambda>r. record_path (\<lambda>_. []) r \<noteq> []) demo_records"
    by (simp_all add: demo_records_def demo_record_def record_path_def get_default_def)
  from split_passes_check [OF demo_split this] show ?thesis by simp
qed

section \<open>The threshold\<close>

text \<open>The best of a list of steps: no step beats it, and no earlier one equals it.\<close>

lemma best_of_spec:
  "best_of pairs best steps = best \<and> list_all (\<lambda>k. f1 (measure_at pairs k) \<le> f1 best) steps \<or>
   (\<exists>us k vs. steps = us @ k # vs \<and> best_of pairs best steps = measure_at pairs k \<and>
      f1 best < f1 (measure_at pairs k) \<and>
      list_all (\<lambda>j. f1 (measure_at pairs j) < f1 (measure_at pairs k)) us \<and>
      list_all (\<lambda>j. f1 (measure_at pairs j) \<le> f1 (measure_at pairs k)) vs)"
proof (induction steps arbitrary: best)
  case (Cons step steps)
  let ?m = "measure_at pairs step"
  show ?case
  proof (cases "f1 best < f1 ?m")
    case True
    from Cons.IH [of ?m] show ?thesis
    proof (elim disjE exE conjE)
      assume "best_of pairs ?m steps = ?m" "list_all (\<lambda>k. f1 (measure_at pairs k) \<le> f1 ?m) steps"
      with True show ?thesis
        by (intro disjI2 exI [of _ "[]"] exI [of _ step] exI [of _ steps]) simp
    next
      fix us k vs
      assume "steps = us @ k # vs" "best_of pairs ?m steps = measure_at pairs k"
        "f1 ?m < f1 (measure_at pairs k)"
        "list_all (\<lambda>j. f1 (measure_at pairs j) < f1 (measure_at pairs k)) us"
        "list_all (\<lambda>j. f1 (measure_at pairs j) \<le> f1 (measure_at pairs k)) vs"
      with True show ?thesis
        by (intro disjI2 exI [of _ "step # us"] exI [of _ k] exI [of _ vs]) simp
    qed
  next
    case False
    from Cons.IH [of best] show ?thesis
    proof (elim disjE exE conjE)
      assume "best_of pairs best steps = best" "list_all (\<lambda>k. f1 (measure_at pairs k) \<le> f1 best) steps"
      with False show ?thesis by (simp add: Let_def)
    next
      fix us k vs
      assume "steps = us @ k # vs" "best_of pairs best steps = measure_at pairs k"
        "f1 best < f1 (measure_at pairs k)"
        "list_all (\<lambda>j. f1 (measure_at pairs j) < f1 (measure_at pairs k)) us"
        "list_all (\<lambda>j. f1 (measure_at pairs j) \<le> f1 (measure_at pairs k)) vs"
      with False show ?thesis
        by (intro disjI2 exI [of _ "step # us"] exI [of _ k] exI [of _ vs]) (simp add: Let_def)
    qed
  qed
qed simp

lemma count_where_nonneg [simp]: "0 \<le> count_where P xs"
  by (simp add: count_where_def)

lemma fl_fdiv [simp]: "fl (fdiv a b) = fdiv a b"
  by (simp add: fdiv_def binary64.rnd_idem)

lemma share_unit:
  assumes "0 \<le> a" and "0 \<le> b"
  shows "0 \<le> fdiv (of_int a) (of_int (max 1 (a + b)))" "fdiv (of_int a) (of_int (max 1 (a + b))) \<le> 1"
proof -
  have "a \<le> max 1 (a + b)" "0 < max 1 (a + b)" using assms by simp_all
  then have "(of_int a :: rat) \<le> of_int (max 1 (a + b))" "(0 :: rat) < of_int (max 1 (a + b))"
    by (simp_all only: of_int_le_iff of_int_0_less_iff)
  then show "0 \<le> fdiv (of_int a) (of_int (max 1 (a + b)))"
    "fdiv (of_int a) (of_int (max 1 (a + b))) \<le> 1"
    using binary64.ratio_unit assms(1) by (simp_all only: fdiv_def of_int_0_le_iff)
qed

text \<open>The harmonic mean of two rounded shares stays in the unit interval, roundings included.\<close>

lemma f1_unit:
  assumes "0 \<le> p" "p \<le> 1" "0 \<le> r" "r \<le> 1" and "fl p = p"
  shows "0 \<le> fdiv (fmul (fmul 2 p) r) (max (fl (1 / 10 ^ 12)) (fadd p r))"
    and "fdiv (fmul (fmul 2 p) r) (max (fl (1 / 10 ^ 12)) (fadd p r)) \<le> 1"
proof -
  have two: "fmul 2 p = 2 * p" using binary64.rnd_double [of p] assms(5) by (simp add: fmul_def)
  have tiny: "0 < fl (1 / 10 ^ 12)" by code_simp
  have "0 \<le> p * (1 - r) + r * (1 - p)" using assms by simp
  then have "2 * p * r \<le> p + r" by (simp add: algebra_simps)
  then have "fl (2 * p * r) \<le> fl (p + r)" by (rule fl_mono)
  then have "fmul (fmul 2 p) r \<le> max (fl (1 / 10 ^ 12)) (fadd p r)"
    unfolding two by (simp add: fmul_def fadd_def)
  moreover have "0 \<le> fmul (fmul 2 p) r" unfolding two using assms by (simp add: fmul_def fl_nonneg)
  ultimately show "0 \<le> fdiv (fmul (fmul 2 p) r) (max (fl (1 / 10 ^ 12)) (fadd p r))"
    "fdiv (fmul (fmul 2 p) r) (max (fl (1 / 10 ^ 12)) (fadd p r)) \<le> 1"
    using tiny binary64.ratio_unit [of "fmul (fmul 2 p) r" "max (fl (1 / 10 ^ 12)) (fadd p r)"]
    by (simp_all add: fdiv_def)
qed

definition sound_measure :: "calibration \<Rightarrow> bool" where
  "sound_measure m \<longleftrightarrow> 0 \<le> precision m \<and> precision m \<le> 1 \<and> 0 \<le> recall m \<and> recall m \<le> 1 \<and>
     0 \<le> f1 m \<and> f1 m \<le> 1"

lemma measure_at_sound: "sound_measure (measure_at pairs k)"
  unfolding sound_measure_def measure_at_def Let_def calibration.simps
  by (intro conjI share_unit f1_unit count_where_nonneg) (rule fl_fdiv)+

text \<open>
  What the measures of a threshold on the data are, by the samples themselves: those with a wanted label
  and a score that reaches the threshold, out of those that are found, and out of those that should be.
  F1 is the harmonic mean of the two shares in the arithmetic of floats, zero shares kept apart.
\<close>

definition samples :: "int list \<Rightarrow> rat list \<Rightarrow> (int \<Rightarrow> rat \<Rightarrow> bool) \<Rightarrow> nat set" where
  "samples labels scores P = {n. n < length labels \<and> P (labels ! n) (scores ! n)}"

definition measures :: "int list \<Rightarrow> rat list \<Rightarrow> int \<Rightarrow> calibration \<Rightarrow> bool" where
  "measures labels scores k m \<longleftrightarrow>
     threshold m = fl (of_int k / 100)
   \<and> (let fires = card (samples labels scores (\<lambda>label score. label = 1));
         alarms = card (samples labels scores (\<lambda>label score. label \<in> {0, 1} \<and> threshold m \<le> score));
         right = card (samples labels scores (\<lambda>label score. label = 1 \<and> threshold m \<le> score))
      in precision m = fl (if alarms = 0 then 0 else of_nat right / of_nat alarms)
       \<and> recall m = fl (if fires = 0 then 0 else of_nat right / of_nat fires))
   \<and> f1 m = fl (fl (2 * precision m * recall m) / max (fl (1 / 10 ^ 12)) (fl (precision m + recall m)))"

lemma count_samples:
  assumes "length labels = length scores"
  shows "count_where P (zip labels scores) = int (card (samples labels scores (\<lambda>l s. P (l, s))))"
proof -
  have "{n. n < length (zip labels scores) \<and> P (zip labels scores ! n)} = samples labels scores (\<lambda>l s. P (l, s))"
    using assms by (auto simp: samples_def)
  then show ?thesis by (simp add: count_where_def length_filter_conv_card)
qed

lemma card_samples_split:
  assumes "\<And>l s. R l s \<longleftrightarrow> P l s \<or> Q l s" and "\<And>l s. \<not> (P l s \<and> Q l s)"
  shows "card (samples labels scores R) = card (samples labels scores P) + card (samples labels scores Q)"
proof -
  have "samples labels scores R = samples labels scores P \<union> samples labels scores Q"
    "samples labels scores P \<inter> samples labels scores Q = {}"
    using assms by (auto simp: samples_def)
  moreover have "finite (samples labels scores P)" "finite (samples labels scores Q)" by (simp_all add: samples_def)
  ultimately show ?thesis by (simp add: card_Un_disjoint)
qed

lemma share_of_samples:
  "fdiv (of_int (int a)) (of_int (max 1 (int (a + b)))) = fl (if a + b = 0 then 0 else of_nat a / of_nat (a + b))"
  by (cases "a + b") (auto simp: fdiv_def max_def)

lemma measure_at_measures:
  assumes "length labels = length scores"
  shows "measures labels scores k (measure_at (zip labels scores) k)"
proof -
  define thr where "thr = fdiv (of_int k) 100"
  define tp where "tp = card (samples labels scores (\<lambda>label score. label = 1 \<and> thr \<le> score))"
  define fp where "fp = card (samples labels scores (\<lambda>label score. label = 0 \<and> thr \<le> score))"
  define fn where "fn = card (samples labels scores (\<lambda>label score. label = 1 \<and> score < thr))"
  have alarms: "card (samples labels scores (\<lambda>label score. label \<in> {0, 1} \<and> thr \<le> score)) = tp + fp"
    unfolding tp_def fp_def by (rule card_samples_split) auto
  have fires: "card (samples labels scores (\<lambda>label score. label = 1)) = tp + fn"
    unfolding tp_def fn_def by (rule card_samples_split) auto
  have m: "measure_at (zip labels scores) k =
      (let prec = fdiv (of_int (int tp)) (of_int (max 1 (int (tp + fp))));
           rec = fdiv (of_int (int tp)) (of_int (max 1 (int (tp + fn))))
       in \<lparr>threshold = thr, precision = prec, recall = rec,
           f1 = fdiv (fmul (fmul 2 prec) rec) (max (fl (1 / 10 ^ 12)) (fadd prec rec))\<rparr>)"
    by (simp add: measure_at_def count_samples [OF assms] Let_def flip: thr_def tp_def fp_def fn_def)
  have two: "fl (2 * fl x) = 2 * fl x" for x by (simp add: fl_representable representable_double representable_fl)
  show ?thesis
    unfolding m measures_def Let_def calibration.simps share_of_samples alarms fires tp_def [symmetric]
    by (simp add: two thr_def fdiv_def fmul_def fadd_def)
qed

lemma measures_unique: "measures labels scores k a \<Longrightarrow> measures labels scores k b \<Longrightarrow> a = b"
  by (cases a; cases b) (simp add: measures_def Let_def)

text \<open>
  C37. On calibration data of equal lengths the result is the measures of one of the 99 steps on the data:
  its precision is the share of fires among the samples that reach the threshold, its recall the
  share of those samples among the fires, its F1 made of the two, all in the unit interval; no step has
  a larger F1 and every smaller step has a strictly smaller one.
\<close>

theorem calibrated_threshold_best:
  assumes "length labels = length scores" and "labels \<noteq> []"
  shows "\<exists>us k vs m. [1..99] = us @ k # vs \<and> best_f1_threshold labels scores = Ok m \<and>
    measures labels scores k m \<and> sound_measure m \<and>
    (\<forall>j m'. measures labels scores j m' \<longrightarrow>
       (j \<in> set us \<longrightarrow> f1 m' < f1 m) \<and> (j \<in> set vs \<longrightarrow> f1 m' \<le> f1 m))"
proof -
  let ?start = "\<lparr>threshold = 1/2, precision = 0, recall = 0, f1 = - 1\<rparr>" and ?m = "measure_at (zip labels scores)"
  have "f1 ?start < f1 (?m 1)"
    using measure_at_sound [of "zip labels scores" 1] by (simp add: sound_measure_def)
  then have "\<not> list_all (\<lambda>k. f1 (?m k) \<le> f1 ?start) [1..99]"
    by (auto simp: list_all_iff intro!: bexI [of _ 1])
  with best_of_spec [of "zip labels scores" ?start "[1..99]"] assms obtain us k vs where
    k: "[1..99] = us @ k # vs" "best_f1_threshold labels scores = Ok (?m k)"
      "list_all (\<lambda>j. f1 (?m j) < f1 (?m k)) us" "list_all (\<lambda>j. f1 (?m j) \<le> f1 (?m k)) vs"
    unfolding best_f1_threshold_def by auto
  have "f1 m' = f1 (?m j)" if "measures labels scores j m'" for j m'
    using measures_unique [OF that measure_at_measures [OF assms(1)]] by simp
  with k measure_at_sound measure_at_measures [OF assms(1)] show ?thesis
    by (intro exI [of _ us] exI [of _ k] exI [of _ vs] exI [of _ "?m k"]) (auto simp: list_all_iff)
qed

theorem calibrated_threshold_best_witness:
  "\<exists>m k. best_f1_threshold [1, 0, 1, 0] [9/10, 1/2, 6/10, 1/10] = Ok m \<and> k \<in> set [1..99] \<and>
    measures [1, 0, 1, 0] [9/10, 1/2, 6/10, 1/10] k m \<and> sound_measure m"
  using calibrated_threshold_best [of "[1, 0, 1, 0]" "[9/10, 1/2, 6/10, 1/10]"] by fastforce

section \<open>Converted boxes\<close>

text \<open>
  A box of floats inside the image, the image's sides at most 2^53, becomes four fractions
  between 0 and 1.
\<close>

theorem converted_box_unit:
  assumes "0 \<le> x" "0 \<le> y" "0 < w" "0 < h" "x + w \<le> of_int iw" "y + h \<le> of_int ih"
    and "iw \<le> 2 ^ 53" "ih \<le> 2 ^ 53" and "fl w = w" "fl h = h"
  shows "\<exists>cx cy bw bh. coco_box_to_yolo (x, y, w, h) iw ih = Ok (cx, cy, bw, bh) \<and>
    list_all (\<lambda>v. 0 \<le> v \<and> v \<le> 1) [cx, cy, bw, bh]"
proof -
  have axis: "0 < n \<and>
      0 \<le> fdiv (fadd c (fdiv s 2)) (fl (of_int n)) \<and> fdiv (fadd c (fdiv s 2)) (fl (of_int n)) \<le> 1 \<and>
      0 \<le> fdiv s (fl (of_int n)) \<and> fdiv s (fl (of_int n)) \<le> 1"
    if "0 \<le> c" "0 < s" "c + s \<le> of_int n" "n \<le> 2 ^ 53" "fl s = s" for c s :: rat and n :: int
  proof -
    from that have n: "(0::rat) < of_int n" by linarith
    then have sides: "fl (of_int n) = of_int n" using that(4) by (simp add: binary64.rnd_int)
    have "fdiv s 2 \<le> s" unfolding fdiv_def using that(2,5) by (intro binary64.le_fixed) auto
    then have "fadd c (fdiv s 2) \<le> of_int n"
      unfolding fadd_def using that(3) sides by (intro binary64.le_fixed) auto
    moreover have "0 \<le> fadd c (fdiv s 2)"
      using that(1,2) by (simp add: fadd_def fdiv_def fl_nonneg)
    ultimately show ?thesis
      unfolding sides using that n binary64.ratio_unit [of s "of_int n"]
        binary64.ratio_unit [of "fadd c (fdiv s 2)" "of_int n"]
      by (simp add: fdiv_def)
  qed
  from axis [of x w iw] axis [of y h ih] assms show ?thesis
    by (simp add: coco_box_to_yolo_def)
qed

theorem converted_box_unit_witness:
  "\<exists>cx cy bw bh. coco_box_to_yolo (64, 32, 128, 96) 320 240 = Ok (cx, cy, bw, bh) \<and>
    list_all (\<lambda>v. 0 \<le> v \<and> v \<le> 1) [cx, cy, bw, bh]"
proof (rule converted_box_unit)
  show "fl 128 = 128" "fl 96 = 96" by code_simp+
qed simp_all

section \<open>Extracted frames\<close>

lemma digits_of_padded: "undigits 0 (map (\<lambda>c. of_char c - 48) (replicate k (CHR ''0'') @ str_nat n)) = n"
proof -
  have "map (\<lambda>c. of_char c - 48) (str_nat n) = digits n"
    by (simp add: str_nat_def o_def map_idI of_char_digit_char digits_less_10)
  moreover have "undigits 0 (replicate k 0 @ ds) = undigits 0 ds" for ds by (induction k) simp_all
  ultimately show ?thesis by (simp add: map_replicate_const)
qed

lemma inj_frame_file: "inj frame_file"
proof
  fix m n assume "frame_file m = frame_file n"
  then have "replicate (6 - length (str_nat m)) (CHR ''0'') @ str_nat m
      = replicate (6 - length (str_nat n)) (CHR ''0'') @ str_nat n"
    by (simp add: frame_file_def)
  then show "m = n" by (metis digits_of_padded)
qed

text \<open>The frames whose number is a multiple, from a number on.\<close>

definition kept_frames :: "int \<Rightarrow> int \<Rightarrow> 'a list \<Rightarrow> 'a list" where
  "kept_frames every index frames = map snd (filter (\<lambda>p. (index + int (fst p)) mod every = 0) (enumerate 0 frames))"

lemma kept_frames_Cons:
  "kept_frames every index (f # fs) = (if index mod every = 0 then [f] else []) @ kept_frames every (index + 1) fs"
  by (simp add: kept_frames_def enumerate_Suc_eq filter_map o_def add.assoc)

lemma extract_loop_kept:
  "every \<noteq> 0 \<Longrightarrow> extract_loop every index n fs =
     Ok (zip (map frame_file [n..<n + length (kept_frames every index fs)]) (kept_frames every index fs))"
proof (induction fs arbitrary: index n)
  case (Cons f fs)
  then show ?case
    by (simp add: kept_frames_Cons upt_conv_Cons del: upt_Suc)
qed (simp add: kept_frames_def)

text \<open>
  The files written are the frames whose number is a multiple of the argument, in their order,
  under names that are all different.
\<close>

lemma extracted_frames:
  assumes "every \<noteq> 0"
  shows "\<exists>files. extract_frames every frames = Ok files \<and> distinct (map fst files) \<and>
    map snd files = map snd (filter (\<lambda>p. int (fst p) mod every = 0) (enumerate 0 frames))"
proof -
  define ks where "ks = kept_frames every 0 frames"
  have "extract_frames every frames = Ok (zip (map frame_file [0..<length ks]) ks)"
    using extract_loop_kept [OF assms, of 0 0 frames] by (simp add: extract_frames_def ks_def)
  moreover have "distinct (map frame_file [0..<length ks])"
    using inj_frame_file by (auto simp: distinct_map intro: inj_on_subset)
  ultimately show ?thesis by (simp add: ks_def kept_frames_def)
qed

end
