(* ===== verification/Inference.thy ===== *)
theory Inference
  imports Detector Frames Rounding
begin

text \<open>
  The detector around its post-processing, class \<^verbatim>\<open>TFLiteDetector\<close> of
  \<^verbatim>\<open>src/poc/pi/ignis_poc/model.py\<close>: the check of the weights against the manifest's hash,
  the manifest contract, the input tensor with its normalisation and quantisation, and
  \<^verbatim>\<open>detect\<close> with its two decoders (theory \<open>Detector\<close>). The TFLite interpreter and OpenCV are
  not under \<^verbatim>\<open>src/\<close>: the tensor details of a model file, the outputs of an invocation and the
  image operations are arguments. NumPy's float32 arithmetic is rounded by \<open>f32\<close>. The measured
  duration that \<^verbatim>\<open>detect\<close> also returns is left out.
\<close>

section \<open>Reading the manifest\<close>

definition field_of :: "dict \<Rightarrow> string \<Rightarrow> (model_error, json) result" where
  "field_of d k = (case get d k of None \<Rightarrow> Err BadManifest | Some v \<Rightarrow> Ok v)"

fun as_dict :: "json \<Rightarrow> (model_error, dict) result" where
  "as_dict (JObj d) = Ok d"
| "as_dict _ = Err BadManifest"

text \<open>\<open>int(value)\<close> and the items of \<open>for value in v\<close>.\<close>

fun int_of_json :: "json \<Rightarrow> int option" where
  "int_of_json (JInt i) = Some i"
| "int_of_json (JBool b) = Some (if b then 1 else 0)"
| "int_of_json (JNum x) = Some (py_int x)"
| "int_of_json (JStr s) = int_of_text s"
| "int_of_json _ = None"

fun elements :: "json \<Rightarrow> (model_error, json list) result" where
  "elements (JArr xs) = Ok xs"
| "elements (JStr s) = Ok (map (\<lambda>c. JStr [c]) s)"
| "elements (JObj d) = Ok (map (\<lambda>p. JStr (fst p)) d)"
| "elements _ = Err BadManifest"

definition int_at :: "dict \<Rightarrow> string \<Rightarrow> (model_error, int) result" where
  "int_at d k = rbind (field_of d k) (\<lambda>v.
     case int_of_json v of None \<Rightarrow> Err BadManifest | Some i \<Rightarrow> Ok i)"

fun decoder_of :: "(json \<Rightarrow> string) \<Rightarrow> json \<Rightarrow> decoder" where
  "decoder_of repr v = (if v = JStr ''ssd'' then SSD else if v = JStr ''yolo_v8'' then YOLO_V8
     else OtherDecoder (py_str repr v))"

section \<open>The contract\<close>

text \<open>What the interpreter tells of a tensor; no quantisation is \<open>(0.0, 0)\<close>.\<close>

record tensor_detail =
  tensor_index :: int
  tensor_shape :: "int list"
  tensor_dtype :: string
  tensor_quantization :: "rat \<times> int"

definition label_set :: "(json \<Rightarrow> string) \<Rightarrow> json list \<Rightarrow> string set" where
  "label_set repr vs = set (map (\<lambda>v. lower (py_str repr v)) vs)"

definition validate_contract ::
  "(json \<Rightarrow> string) \<Rightarrow> dict \<Rightarrow> tensor_detail \<Rightarrow> int \<Rightarrow> (model_error, unit) result" where
  "validate_contract repr manifest inp n_outputs =
     rbind (field_of manifest ''input'') (\<lambda>expected.
     rbind (rbind (field_of manifest ''labels'') as_dict) (\<lambda>label_map.
     rbind (elements (get_default manifest ''ignored_labels'' (JArr []))) (\<lambda>ignored.
       let labels = label_set repr (map snd label_map); ignored_labels = label_set repr ignored in
       if \<not> {''fire'', ''smoke''} \<subseteq> labels then Err LabelsMissing
       else if labels - {''fire'', ''smoke''} \<noteq> ignored_labels then Err UndeclaredLabels
       else rbind (as_dict expected) (\<lambda>expected.
         rbind (int_at expected ''height'') (\<lambda>h.
         rbind (int_at expected ''width'') (\<lambda>w.
         rbind (int_at expected ''channels'') (\<lambda>ch.
           if tensor_shape inp \<noteq> [1, h, w, ch] then Err ShapeMismatch
           else rbind (field_of expected ''dtype'') (\<lambda>dt.
             if tensor_dtype inp \<noteq> py_str repr dt then Err DtypeMismatch
             else rbind (rbind (field_of manifest ''outputs'') as_dict) (\<lambda>outputs.
               case decoder_of repr (get_default outputs ''decoder'' (JStr ''ssd'')) of
                 OtherDecoder d \<Rightarrow> Err (UnsupportedDecoder d)
               | dec \<Rightarrow> check_indices (\<lambda>k. Option.bind (get outputs k) int_of_json) n_outputs
                          (decoder_keys dec))))))))))"

section \<open>The constructor\<close>

text \<open>\<open>interpreter\<close> gives the input and output details of a model file.\<close>

type_synonym interpreter = "bytes \<Rightarrow> tensor_detail list \<times> tensor_detail list"

record detector =
  d_manifest :: dict
  d_threshold :: rat
  d_input :: tensor_detail
  d_outputs :: "tensor_detail list"

definition load_detector ::
  "loads \<Rightarrow> (json \<Rightarrow> string) \<Rightarrow> (bytes \<Rightarrow> string) \<Rightarrow> interpreter \<Rightarrow> bytes \<Rightarrow> bytes \<Rightarrow> rat
   \<Rightarrow> (model_error, detector) result" where
  "load_detector loads repr sha256_hex interpreter model manifest_text thr =
     (case loads manifest_text of
        Some (JObj manifest) \<Rightarrow>
          (let expected_hash = lower (py_str repr (get_default manifest ''model_sha256'' (JStr ''''))) in
           if expected_hash \<noteq> [] \<and> expected_hash \<noteq> ''replace-at-export'' \<and>
              sha256_hex model \<noteq> expected_hash
           then Err HashMismatch
           else (case interpreter model of
               (inp # _, outputs) \<Rightarrow>
                 rbind (validate_contract repr manifest inp (int (length outputs))) (\<lambda>_.
                   Ok \<lparr>d_manifest = manifest, d_threshold = thr, d_input = inp, d_outputs = outputs\<rparr>)
             | _ \<Rightarrow> Err BadTensor))
      | _ \<Rightarrow> Err BadManifest)"

section \<open>The input tensor\<close>

definition f32 :: "rat \<Rightarrow> rat" where "f32 = round_bits 24 (- 149)"
definition f16 :: "rat \<Rightarrow> rat" where "f16 = round_bits 11 (- 24)"

datatype tensor = Floats "rat list" | Ints "int list"

definition real_values :: "json option \<Rightarrow> int list \<Rightarrow> (model_error, rat list) result" where
  "real_values normalization px =
     (if normalization = Some (JStr ''zero_to_one'') then Ok (map (\<lambda>p. f32 (of_int p / 255)) px)
      else if normalization = Some (JStr ''minus_one_to_one'')
      then Ok (map (\<lambda>p. f32 (f32 (of_int p - 255 / 2) / (255 / 2))) px)
      else if normalization = Some (JStr ''none'') then Ok (map of_int px)
      else Err BadNormalization)"

fun int_limits :: "string \<Rightarrow> (int \<times> int) option" where
  "int_limits t = map_of [(''uint8'', (0, 255)), (''int8'', (- 128, 127)),
     (''uint16'', (0, 65535)), (''int16'', (- 32768, 32767)),
     (''uint32'', (0, 2 ^ 32 - 1)), (''int32'', (- (2 ^ 31), 2 ^ 31 - 1)),
     (''uint64'', (0, 2 ^ 64 - 1)), (''int64'', (- (2 ^ 63), 2 ^ 63 - 1))] t"

definition quantize :: "rat \<Rightarrow> int \<Rightarrow> int \<Rightarrow> int \<Rightarrow> rat \<Rightarrow> int" where
  "quantize scale zero lo hi r =
     min (max (rne (f32 (f32 (r / f32 scale) + f32 (of_int zero)))) lo) hi"

definition prepare_input_tensor ::
  "tensor_detail \<Rightarrow> dict \<Rightarrow> int list \<Rightarrow> (model_error, tensor) result" where
  "prepare_input_tensor detail inp px =
     rbind (as_dict (get_default inp ''normalization'' (JObj []))) (\<lambda>normalization.
     rbind (real_values (get normalization ''type'') px) (\<lambda>reals.
       let t = tensor_dtype detail in
       if t = ''float32'' \<or> t = ''float64'' then Ok (Floats reals)
       else if t = ''float16'' then Ok (Floats (map f16 reals))
       else (case int_limits t of
           None \<Rightarrow> Err UnsupportedDtype
         | Some (lo, hi) \<Rightarrow>
             (case tensor_quantization detail of (scale, zero) \<Rightarrow>
                if scale = 0 then Err NoQuantization
                else Ok (Ints (map (quantize scale zero lo hi) reals))))))"

section \<open>Detecting\<close>

text \<open>
  The image operations: resizing to a width and height, the conversion to RGB, and the values
  of the pixels in memory order. A NumPy array is its shape and its values in that order.
\<close>

record 'img vision =
  resize :: "'img \<Rightarrow> int \<Rightarrow> int \<Rightarrow> 'img"
  to_rgb :: "'img \<Rightarrow> 'img"
  values_of :: "'img \<Rightarrow> int list"

record ndarray =
  nd_shape :: "nat list"
  nd_values :: "rat list"

definition squeeze :: "ndarray \<Rightarrow> ndarray" where
  "squeeze a = a\<lparr>nd_shape := filter (\<lambda>n. n \<noteq> 1) (nd_shape a)\<rparr>"

definition rows_of :: "nat \<Rightarrow> nat \<Rightarrow> rat list \<Rightarrow> rat list list" where
  "rows_of r c vs = map (\<lambda>i. take c (drop (i * c) vs)) [0..<r]"

text \<open>The local function \<open>output\<close>; \<open>got\<close> gives the values of a tensor after the invocation.\<close>

definition dequantize :: "rat \<times> int \<Rightarrow> ndarray \<Rightarrow> ndarray" where
  "dequantize q a = (case q of (scale, zero) \<Rightarrow>
     if scale = 0 then a
     else a\<lparr>nd_values := map (\<lambda>x. f32 (f32 (f32 x - f32 (of_int zero)) * f32 scale)) (nd_values a)\<rparr>)"

definition output_of ::
  "detector \<Rightarrow> dict \<Rightarrow> (int \<Rightarrow> ndarray) \<Rightarrow> string \<Rightarrow> (model_error, ndarray) result" where
  "output_of d contract got position = rbind (int_at contract position) (\<lambda>i.
     if 0 \<le> i \<and> i < int (length (d_outputs d))
     then let detail = d_outputs d ! nat i in
       Ok (squeeze (dequantize (tensor_quantization detail) (got (tensor_index detail))))
     else Err BadTensor)"

text \<open>
  \<open>{int(key): value}\<close> of the labels. A value that is no string is no class name the code
  compares equal to fire or smoke; it is kept as the empty text.
\<close>

fun label_table :: "dict \<Rightarrow> labels \<Rightarrow> (model_error, labels) result" where
  "label_table [] acc = Ok acc"
| "label_table ((k, v) # d) acc = (case int_of_text k of
     None \<Rightarrow> Err BadManifest
   | Some i \<Rightarrow> label_table d (AList.update i (case v of JStr s \<Rightarrow> s | _ \<Rightarrow> '''') acc))"

definition decode_predictions ::
  "rat \<Rightarrow> labels \<Rightarrow> bool \<Rightarrow> int \<Rightarrow> int \<Rightarrow> ndarray \<Rightarrow> (model_error, detection list) result" where
  "decode_predictions thr labels pixels w h a = (case nd_shape (squeeze a) of
     [r, c] \<Rightarrow> decode_yolo_v8 thr labels pixels w h 2 r c (rows_of r c (nd_values a))
   | s \<Rightarrow> decode_yolo_v8 thr labels pixels w h (length s) 0 0 [])"

text \<open>
  \<open>np.atleast_1d\<close> and \<open>np.atleast_2d\<close>, and the rows of the boxes. With more than two axes a row is no
  list of numbers; it is the empty one here, which the loop cannot unpack either.
\<close>

definition flat_of :: "ndarray \<Rightarrow> (model_error, rat list) result" where
  "flat_of a = (if length (nd_shape a) \<le> 1 then Ok (nd_values a) else Err BadTensor)"

definition boxes_of :: "ndarray \<Rightarrow> rat list list" where
  "boxes_of a = (case nd_shape a of
     [] \<Rightarrow> rows_of 1 1 (nd_values a) | [c] \<Rightarrow> rows_of 1 c (nd_values a)
   | [r, c] \<Rightarrow> rows_of r c (nd_values a) | r # _ \<Rightarrow> replicate r [])"

definition decode_boxes ::
  "detector \<Rightarrow> dict \<Rightarrow> labels \<Rightarrow> (int \<Rightarrow> ndarray) \<Rightarrow> (model_error, detection list) result" where
  "decode_boxes d contract labels got =
     rbind (output_of d contract got ''boxes_index'') (\<lambda>boxes.
     rbind (rbind (output_of d contract got ''classes_index'') flat_of) (\<lambda>classes.
     rbind (rbind (output_of d contract got ''scores_index'') flat_of) (\<lambda>scores.
     rbind (rbind (output_of d contract got ''count_index'') flat_of) (\<lambda>counts.
       case counts of
         [] \<Rightarrow> Err BadTensor
       | n # _ \<Rightarrow> decode_ssd (d_threshold d) labels
           (truthy (get_default contract ''classes_are_zero_based'' (JBool True)))
           (py_int n) scores classes (boxes_of boxes)))))"

text \<open>\<open>invoke\<close> sets the input tensor of an index, runs the model and gives its output tensors.\<close>

definition detect ::
  "'img vision \<Rightarrow> (int \<Rightarrow> tensor \<Rightarrow> int \<Rightarrow> ndarray) \<Rightarrow> detector \<Rightarrow> 'img
   \<Rightarrow> (model_error, detection list) result" where
  "detect vis invoke d bgr =
     rbind (rbind (field_of (d_manifest d) ''input'') as_dict) (\<lambda>expected.
     rbind (int_at expected ''width'') (\<lambda>w.
     rbind (int_at expected ''height'') (\<lambda>h.
     rbind (field_of expected ''color_order'') (\<lambda>order.
       let resized = resize vis bgr w h;
           image = (if order = JStr ''RGB'' then to_rgb vis resized else resized)
       in rbind (prepare_input_tensor (d_input d) expected (values_of vis image)) (\<lambda>tensor.
          let got = invoke (tensor_index (d_input d)) tensor in
          rbind (rbind (field_of (d_manifest d) ''outputs'') as_dict) (\<lambda>contract.
          rbind (rbind (rbind (field_of (d_manifest d) ''labels'') as_dict) (\<lambda>m. label_table m []))
            (\<lambda>labels.
             if get_default contract ''decoder'' (JStr ''ssd'') = JStr ''yolo_v8''
             then rbind (output_of d contract got ''predictions_index'')
                    (decode_predictions (d_threshold d) labels
                       (truthy (get_default contract ''coordinates_are_input_pixels'' (JBool True))) w h)
             else decode_boxes d contract labels got)))))))"

section \<open>What a loaded detector has been checked for\<close>

text \<open>The contract, with the values the manifest holds.\<close>

definition contract_holds ::
  "(json \<Rightarrow> string) \<Rightarrow> dict \<Rightarrow> tensor_detail \<Rightarrow> int \<Rightarrow> bool" where
  "contract_holds repr manifest inp n \<longleftrightarrow>
     (\<exists>expected label_map ignored outputs h w ch dt.
        get manifest ''input'' = Some (JObj expected) \<and> get manifest ''labels'' = Some (JObj label_map) \<and>
        elements (get_default manifest ''ignored_labels'' (JArr [])) = Ok ignored \<and>
        get manifest ''outputs'' = Some (JObj outputs) \<and>
        {''fire'', ''smoke''} \<subseteq> label_set repr (map snd label_map) \<and>
        label_set repr (map snd label_map) - {''fire'', ''smoke''} = label_set repr ignored \<and>
        int_at expected ''height'' = Ok h \<and> int_at expected ''width'' = Ok w \<and>
        int_at expected ''channels'' = Ok ch \<and> tensor_shape inp = [1, h, w, ch] \<and>
        get expected ''dtype'' = Some dt \<and> tensor_dtype inp = py_str repr dt \<and>
        (let dec = decoder_of repr (get_default outputs ''decoder'' (JStr ''ssd'')) in
         dec \<in> {SSD, YOLO_V8} \<and>
         list_all (\<lambda>k. \<exists>i. int_at outputs k = Ok i \<and> 0 \<le> i \<and> i < n) (decoder_keys dec)))"

lemma as_dict_Ok: "as_dict v = Ok d \<longleftrightarrow> v = JObj d"
  by (cases v) auto

lemma field_of_Ok: "field_of d k = Ok v \<longleftrightarrow> get d k = Some v"
  by (simp add: field_of_def split: option.split)

lemma dict_at_Ok: "rbind (field_of d k) as_dict = Ok e \<longleftrightarrow> get d k = Some (JObj e)"
  by (auto simp: rbind_Ok field_of_Ok as_dict_Ok)

lemma int_at_Ok: "int_at d k = Ok i \<longleftrightarrow> Option.bind (get d k) int_of_json = Some i"
  by (auto simp: int_at_def field_of_def rbind_def bind_eq_Some_conv split: option.splits)

lemma check_indices_Ok:
  "check_indices outs n ks = Ok () \<longleftrightarrow> list_all (\<lambda>k. \<exists>i. outs k = Some i \<and> 0 \<le> i \<and> i < n) ks"
  by (induction outs n ks rule: check_indices.induct) (auto split: option.splits)

lemma guarded_Ok: "(if b then Err e else r) = Ok u \<longleftrightarrow> \<not> b \<and> r = Ok u"
  by simp

lemma validate_contract_Ok:
  "validate_contract repr manifest inp n = Ok () \<longleftrightarrow> contract_holds repr manifest inp n"
proof -
  have dec: "(case dec of
          SSD \<Rightarrow> check_indices (\<lambda>k. Option.bind (get outputs k) int_of_json) n (decoder_keys SSD)
        | YOLO_V8 \<Rightarrow> check_indices (\<lambda>k. Option.bind (get outputs k) int_of_json) n (decoder_keys YOLO_V8)
        | OtherDecoder d \<Rightarrow> Err (UnsupportedDecoder d)) = Ok ()
      \<longleftrightarrow> dec \<in> {SSD, YOLO_V8} \<and>
        list_all (\<lambda>k. \<exists>i. int_at outputs k = Ok i \<and> 0 \<le> i \<and> i < n) (decoder_keys dec)"
    for dec outputs
    by (cases dec) (simp_all add: check_indices_Ok int_at_Ok del: check_indices.simps decoder_keys.simps)
  show ?thesis
    unfolding validate_contract_def contract_holds_def Let_def rbind_Ok field_of_Ok as_dict_Ok guarded_Ok dec not_not
      ex_simps conj_assoc
    by (intro iffI; elim exE conjE; hypsubst?; intro exI conjI; (assumption | rule refl))
qed

lemma load_detector_Ok:
  "load_detector loads repr sha256_hex interpreter model mtext thr = Ok d \<longleftrightarrow>
     (\<exists>manifest inp more outputs. loads mtext = Some (JObj manifest) \<and>
        interpreter model = (inp # more, outputs) \<and>
        (let expected_hash = lower (py_str repr (get_default manifest ''model_sha256'' (JStr ''''))) in
         expected_hash \<in> {'''', ''replace-at-export'', sha256_hex model}) \<and>
        contract_holds repr manifest inp (int (length outputs)) \<and>
        d = \<lparr>d_manifest = manifest, d_threshold = thr, d_input = inp, d_outputs = outputs\<rparr>)"
  by (auto simp: load_detector_def Let_def rbind_Ok validate_contract_Ok
           split: option.splits json.splits list.splits prod.splits if_splits)

section \<open>What is detected\<close>

lemma decode_predictions_nms:
  assumes "decode_predictions thr labels pixels w h a = Ok ds"
  shows "list_all (sound_detection thr) ds" and "pairwise_compatible (fl (45/100)) ds"
proof -
  from assms obtain r c m where dec: "decode_yolo_v8 thr labels pixels w h 2 r c m = Ok ds"
    by (auto simp: decode_predictions_def decode_yolo_v8_def Let_def split: list.splits if_splits)
  then show "list_all (sound_detection thr) ds"
    by (auto simp: list_all_iff intro: decode_yolo_v8_sound)
  from dec obtain cands where "ds = class_aware_nms cands (fl (45/100))"
    by (auto simp: decode_yolo_v8_def decode_yolo_rows_def Let_def split: if_splits)
  then show "pairwise_compatible (fl (45/100)) ds"
    unfolding class_aware_nms_def
    by (simp only:) (rule nms_loop_compatible, simp add: pairwise_compatible_def)
qed

lemma first_of_list:
  "(case xs of [] \<Rightarrow> Err e | n # _ \<Rightarrow> f n) = Ok y \<longleftrightarrow> (\<exists>n ys. xs = n # ys \<and> f n = Ok y)"
  by (cases xs) auto

lemma decode_boxes_sound:
  "decode_boxes d contract labels got = Ok ds \<Longrightarrow> list_all (sound_detection (d_threshold d)) ds"
  by (auto simp: decode_boxes_def rbind_Ok list_all_iff first_of_list intro: decode_ssd_sound)

text \<open>The two ways \<open>detect\<close> ends, with what it has read by then.\<close>

lemma detect_Ok:
  assumes "detect vis invoke d frame = Ok ds"
  obtains expct w h contract label_map labels got where
    "get (d_manifest d) ''input'' = Some (JObj expct)"
    "get (d_manifest d) ''outputs'' = Some (JObj contract)"
    "get (d_manifest d) ''labels'' = Some (JObj label_map)" "label_table label_map [] = Ok labels"
    "(if get_default contract ''decoder'' (JStr ''ssd'') = JStr ''yolo_v8''
     then rbind (output_of d contract got ''predictions_index'')
            (decode_predictions (d_threshold d) labels
               (truthy (get_default contract ''coordinates_are_input_pixels'' (JBool True))) w h)
     else decode_boxes d contract labels got) = Ok ds"
  using assms unfolding detect_def Let_def rbind_Ok field_of_Ok as_dict_Ok
  by (elim exE conjE) (rule that; (assumption | simp))

lemma detect_sound:
  "detect vis invoke d frame = Ok ds \<Longrightarrow> list_all (sound_detection (d_threshold d)) ds"
  by (erule detect_Ok) (auto simp: rbind_Ok dest: decode_predictions_nms decode_boxes_sound split: if_splits)

text \<open>
  C27. Whatever the interpreter returns for a frame, every detection handed to the verifier is a
  fire or smoke of at least the threshold with a proper box inside the unit square, and with
  the YOLO decoder no two of the same class overlap more than 0.45.
\<close>

theorem detections_sound:
  assumes "detect vis invoke d frame = Ok ds"
  shows "list_all (\<lambda>x. hazard_class (class_name x) \<and> d_threshold d \<le> confidence x \<and> good_box (bbox x)) ds \<and>
    (\<exists>contract. get (d_manifest d) ''outputs'' = Some (JObj contract) \<and>
       (get_default contract ''decoder'' (JStr ''ssd'') = JStr ''yolo_v8'' \<longrightarrow>
        pairwise_compatible (fl (45/100)) ds))"
proof -
  from assms obtain contract w h labels got where out: "get (d_manifest d) ''outputs'' = Some (JObj contract)"
    and run: "(if get_default contract ''decoder'' (JStr ''ssd'') = JStr ''yolo_v8''
     then rbind (output_of d contract got ''predictions_index'')
            (decode_predictions (d_threshold d) labels
               (truthy (get_default contract ''coordinates_are_input_pixels'' (JBool True))) w h)
     else decode_boxes d contract labels got) = Ok ds"
    by (rule detect_Ok)
  have "list_all (\<lambda>x. hazard_class (class_name x) \<and> d_threshold d \<le> confidence x \<and> good_box (bbox x)) ds"
    using detect_sound [OF assms] by (simp add: list_all_iff sound_detection_def)
  moreover have "pairwise_compatible (fl (45/100)) ds"
    if "get_default contract ''decoder'' (JStr ''ssd'') = JStr ''yolo_v8''"
    using run that by (auto simp: rbind_Ok dest: decode_predictions_nms)
  ultimately show ?thesis using out by blast
qed

text \<open>A detector with one invocation: a single row of a normalised YOLO output.\<close>

definition demo_manifest :: "string \<Rightarrow> string \<Rightarrow> dict" where
  "demo_manifest fire smoke =
     [(''model_sha256'', JStr ''replace-at-export''),
      (''input'', JObj [(''width'', JInt 320), (''height'', JInt 320), (''channels'', JInt 3),
         (''dtype'', JStr ''float32''), (''color_order'', JStr ''RGB''),
         (''normalization'', JObj [(''type'', JStr ''zero_to_one'')])]),
      (''outputs'', JObj [(''decoder'', JStr ''yolo_v8''), (''predictions_index'', JInt 0),
         (''coordinates_are_input_pixels'', JBool False)]),
      (''labels'', JObj [(''0'', JStr fire), (''1'', JStr smoke)])]"

definition demo_detail :: "int list \<Rightarrow> tensor_detail" where
  "demo_detail shape = \<lparr>tensor_index = 0, tensor_shape = shape, tensor_dtype = ''float32'',
     tensor_quantization = (0, 0)\<rparr>"

definition demo_detector :: "string \<Rightarrow> string \<Rightarrow> detector" where
  "demo_detector fire smoke = \<lparr>d_manifest = demo_manifest fire smoke, d_threshold = 1/2,
     d_input = demo_detail [1, 320, 320, 3], d_outputs = [demo_detail [1, 6, 1]]\<rparr>"

definition demo_vision :: "int list vision" where
  "demo_vision = \<lparr>resize = (\<lambda>img w h. img), to_rgb = (\<lambda>img. img), values_of = (\<lambda>img. img)\<rparr>"

definition demo_invoke :: "int \<Rightarrow> tensor \<Rightarrow> int \<Rightarrow> ndarray" where
  "demo_invoke i t j = \<lparr>nd_shape = [1, 2, 6],
     nd_values = [1/2, 1/2, 1/4, 1/4, 3/4, 1/8, 1/2, 1/2, 1/4, 1/4, 1/8, 1/4]\<rparr>"

definition demo_fire :: detection where
  "demo_fire = \<lparr>class_name = ''fire'', class_id = 0, confidence = 3/4, bbox = (3/8, 3/8, 5/8, 5/8)\<rparr>"

lemma demo_row:
  "decode_row (1/2) [(0, ''fire''), (1, ''smoke'')] False 320 320 (1/2, 1/2, 1/4, 1/4) [3/4, 1/8]
     = Some demo_fire"
proof -
  have sums: "fdiv (1/4) 2 = 1/8" "fsub (1/2) (1/8) = 3/8" "fadd (1/2) (1/8) = 5/8" by code_simp+
  show ?thesis by (simp add: decode_row_def hazard_class_def label_of_def Let_def demo_fire_def sums)
qed

lemma demo_detects:
  "detect demo_vision demo_invoke (demo_detector ''fire'' ''smoke'') [0, 0, 0] = Ok [demo_fire]"
proof -
  have "label_table [(''0'', JStr ''fire''), (''1'', JStr ''smoke'')] [] = Ok [(0, ''fire''), (1, ''smoke'')]"
    by code_simp
  moreover have "decode_yolo_v8 (1/2) [(0, ''fire''), (1, ''smoke'')] False 320 320 2 2 6
      [[1/2, 1/2, 1/4, 1/4, 3/4, 1/8], [1/2, 1/2, 1/4, 1/4, 1/8, 1/4]] = Ok [demo_fire]"
    by (simp add: decode_yolo_v8_def decode_yolo_rows_def map_filter_simps split_row_def demo_row
        class_aware_nms_def by_confidence_def)
       (simp add: decode_row_def Let_def)
  ultimately show ?thesis
    by (simp add: detect_def demo_vision_def demo_invoke_def demo_detector_def demo_manifest_def
        demo_detail_def field_of_def int_at_def get_def get_default_def prepare_input_tensor_def
        real_values_def f32_def round_bits_def output_of_def dequantize_def squeeze_def
        decode_predictions_def rows_of_def upt_rec Let_def)
qed

theorem detections_sound_witness:
  "list_all (\<lambda>x. hazard_class (class_name x) \<and> 1/2 \<le> confidence x \<and> good_box (bbox x))
     [demo_fire]"
  using detections_sound [OF demo_detects] by (simp add: demo_detector_def)

text \<open>The labels are compared as written when decoding, though the contract ignores their case.\<close>

lemma label_table_texts:
  assumes "label_table m acc = Ok labels" and "list_all (\<lambda>(k, v). v \<notin> {JStr ''fire'', JStr ''smoke''}) m"
    and "list_all (\<lambda>(i, n). \<not> hazard_class n) acc"
  shows "list_all (\<lambda>(i, n). \<not> hazard_class n) labels"
  using assms
proof (induction m acc rule: label_table.induct)
  case (2 k v d acc)
  from "2.prems"(1) obtain i where i: "int_of_text k = Some i"
    and rest: "label_table d (AList.update i (case v of JStr s \<Rightarrow> s | _ \<Rightarrow> '''') acc) = Ok labels"
    by (auto split: option.splits)
  have "\<not> hazard_class (case v of JStr s \<Rightarrow> s | _ \<Rightarrow> '''')"
    using "2.prems"(2) by (auto simp: hazard_class_def split: json.splits)
  then have "list_all (\<lambda>(i, n). \<not> hazard_class n) (AList.update i (case v of JStr s \<Rightarrow> s | _ \<Rightarrow> '''') acc)"
    using "2.prems"(3) by (induction acc) auto
  from "2.IH" [OF i rest _ this] "2.prems"(2) show ?case by simp
qed simp

lemma no_hazard_label: "list_all (\<lambda>(i, n). \<not> hazard_class n) labels \<Longrightarrow> \<not> hazard_class (label_of labels i)"
  by (auto simp: label_of_def hazard_class_def list_all_iff split: option.splits dest!: map_of_SomeD)

text \<open>
  A detector whose labels spell the hazards with capitals passes the contract check, and then
  reports nothing, whatever the model sees.
\<close>

theorem capitalised_labels_blind:
  "load_detector (\<lambda>_. Some (JObj (demo_manifest ''Fire'' ''Smoke''))) repr sha256_hex
     (\<lambda>_. ([demo_detail [1, 320, 320, 3]], [demo_detail [1, 6, 1]])) model mtext (1/2)
     = Ok (demo_detector ''Fire'' ''Smoke'') \<and>
   detect vis invoke (demo_detector ''Fire'' ''Smoke'') frame \<in> insert (Ok []) (range Err)"
proof
  have "lower ''Fire'' = ''fire''" "lower ''Smoke'' = ''smoke''"
    "lower ''replace-at-export'' = ''replace-at-export''"
    by code_simp+
  then show "load_detector (\<lambda>_. Some (JObj (demo_manifest ''Fire'' ''Smoke''))) repr sha256_hex
     (\<lambda>_. ([demo_detail [1, 320, 320, 3]], [demo_detail [1, 6, 1]])) model mtext (1/2)
     = Ok (demo_detector ''Fire'' ''Smoke'')"
    by (simp add: load_detector_def validate_contract_def demo_manifest_def demo_detail_def
        demo_detector_def field_of_def int_at_def get_def get_default_def label_set_def Let_def)
  show "detect vis invoke (demo_detector ''Fire'' ''Smoke'') frame \<in> insert (Ok []) (range Err)"
  proof (cases "detect vis invoke (demo_detector ''Fire'' ''Smoke'') frame")
    case (Inr ds)
    from Inr obtain contract w h label_map labels got where
      m: "get (d_manifest (demo_detector ''Fire'' ''Smoke'')) ''labels'' = Some (JObj label_map)"
        "label_table label_map [] = Ok labels"
      and c: "get (d_manifest (demo_detector ''Fire'' ''Smoke'')) ''outputs'' = Some (JObj contract)"
      and run: "(if get_default contract ''decoder'' (JStr ''ssd'') = JStr ''yolo_v8''
        then rbind (output_of (demo_detector ''Fire'' ''Smoke'') contract got ''predictions_index'')
          (decode_predictions (d_threshold (demo_detector ''Fire'' ''Smoke'')) labels
             (truthy (get_default contract ''coordinates_are_input_pixels'' (JBool True))) w h)
        else decode_boxes (demo_detector ''Fire'' ''Smoke'') contract labels got) = Ok ds"
      by (rule detect_Ok)
    have "list_all (\<lambda>(i, n). \<not> hazard_class n) labels"
      by (rule label_table_texts [OF m(2)])
        (use m(1) in \<open>auto simp: demo_detector_def demo_manifest_def\<close>)
    then have "decode_row thr labels px w h c s = None" for thr px w h c s
      by (simp add: decode_row_def no_hazard_label)
    moreover from run c obtain a where
      "decode_predictions (1/2) labels (truthy (get_default contract ''coordinates_are_input_pixels''
         (JBool True))) w h a = Ok ds"
      by (auto simp: rbind_Ok demo_detector_def demo_manifest_def get_default_def)
    ultimately have "ds = []"
      by (auto simp: decode_predictions_def decode_yolo_v8_def decode_yolo_rows_def map_filter_def
          class_aware_nms_def by_confidence_def Let_def split: list.splits if_splits)
    with Inr show ?thesis by simp
  qed simp
qed

section \<open>Quantised input\<close>

text \<open>How far \<open>f32\<close> moves a value: half a unit of its last place, or of the smallest one.\<close>

lemma f32_error: "\<bar>f32 x - x\<bar> \<le> \<bar>x\<bar> / 16777216 + 1 / 18446744073709551616"
proof -
  have "(2::rat) powi (- 149 - 1) \<le> 2 powi (- 64)" by (intro power_int_increasing) auto
  also have "\<dots> = 1 / 2 ^ 64" by (simp add: power_int_minus)
  finally have "(2::rat) powi (- 149 - 1) \<le> 1 / 2 ^ 64" .
  with round_bits_error [of 24 "- 149" x] show ?thesis
    by (simp add: f32_def power_int_minus field_simps)
qed

lemma rne_near: "\<bar>x - of_int k\<bar> < 1 / 2 \<Longrightarrow> rne x = k"
proof -
  assume "\<bar>x - of_int k\<bar> < 1 / 2"
  with rne_dist [of x] have "\<bar>of_int (rne x) - (of_int k :: rat)\<bar> < 1" by linarith
  then have "\<bar>of_int (rne x - k) :: rat\<bar> < 1" by simp
  then show ?thesis by linarith
qed

text \<open>The scale 1/255 of a quantised input, as float32: division by it gives the pixel back.\<close>

lemma pixel_recovered:
  assumes "0 \<le> p" "p \<le> 255"
  shows "\<bar>f32 (f32 (of_int p / 255) / f32 (f32 (1 / 255))) - of_int p\<bar> \<le> 1 / 4096"
proof -
  define s1 s2 r where "s1 = f32 (1 / 255)" and "s2 = f32 s1" and "r = f32 (of_int p / 255)"
  define x where "x = (of_int p :: rat)"
  have x: "0 \<le> x" "x \<le> 255" using assms by (simp_all add: x_def)
  have s1: "\<bar>s1 - 1 / 255\<bar> \<le> 1 / 2147483648"
    unfolding s1_def by (rule order_trans [OF f32_error]) simp
  then have "\<bar>s1\<bar> \<le> 1 / 254" by linarith
  then have "\<bar>s2 - s1\<bar> \<le> 1 / 254 / 16777216 + 1 / 18446744073709551616"
    using f32_error [of s1] by (simp add: s2_def)
  with s1 have s2: "\<bar>s2 - 1 / 255\<bar> \<le> 1 / 1073741824" by linarith
  then have low: "1 / 256 \<le> s2" by linarith
  have "\<bar>r - x / 255\<bar> \<le> \<bar>x / 255\<bar> / 16777216 + 1 / 18446744073709551616"
    using f32_error [of "x / 255"] by (simp add: r_def x_def)
  with x have r: "\<bar>r - x / 255\<bar> \<le> 1 / 8388608" by linarith
  have "\<bar>x * (s2 - 1 / 255)\<bar> \<le> 255 * (1 / 1073741824)"
    unfolding abs_mult using x s2 by (intro mult_mono) auto
  then have "\<bar>r - x * s2\<bar> \<le> 1 / 2097152" using r unfolding right_diff_distrib by linarith
  then have "\<bar>r - x * s2\<bar> / s2 \<le> (1 / 2097152) / (1 / 256)" using low by (intro frac_le) auto
  moreover have "r / s2 - x = (r - x * s2) / s2" using low by (simp add: diff_divide_distrib)
  ultimately have q: "\<bar>r / s2 - x\<bar> \<le> 1 / 8192" using low by (simp add: abs_divide)
  with x have "\<bar>r / s2\<bar> \<le> 256" by linarith
  then have "\<bar>f32 (r / s2) - r / s2\<bar> \<le> 256 / 16777216 + 1 / 18446744073709551616"
    using f32_error [of "r / s2"] by simp
  with q have "\<bar>f32 (r / s2) - x\<bar> \<le> 1 / 4096" by linarith
  then show ?thesis by (simp add: x_def r_def s1_def s2_def)
qed

lemma quantize_pixel:
  assumes "0 \<le> p" "p \<le> 255" "\<bar>z\<bar> \<le> 256"
  shows "quantize (f32 (1 / 255)) z lo hi (f32 (of_int p / 255)) = min (max (p + z) lo) hi"
proof -
  define q where "q = f32 (f32 (of_int p / 255) / f32 (f32 (1 / 255)))"
  define zr where "zr = (of_int z :: rat)"
  have z: "\<bar>zr\<bar> \<le> 256" using assms(3) by (simp add: zr_def flip: of_int_abs)
  have q: "\<bar>q - of_int p\<bar> \<le> 1 / 4096" using pixel_recovered [OF assms(1,2)] by (simp add: q_def)
  have p: "(0::rat) \<le> of_int p" "(of_int p :: rat) \<le> 255" using assms(1,2) by simp_all
  have "\<bar>zr\<bar> / 16777216 \<le> 256 / 16777216" using z by (intro divide_right_mono) auto
  then have fz: "\<bar>f32 zr - zr\<bar> \<le> 1 / 4096"
    by (intro order_trans [OF f32_error]) (simp add: field_simps)
  then have "\<bar>q + f32 zr\<bar> \<le> 512" using q z p by linarith
  then have "\<bar>f32 (q + f32 zr) - (q + f32 zr)\<bar> \<le> 512 / 16777216 + 1 / 18446744073709551616"
    using f32_error [of "q + f32 zr"] by simp
  with q fz have "\<bar>f32 (q + f32 zr) - (of_int p + zr)\<bar> < 1 / 2" by linarith
  then have "rne (f32 (q + f32 (of_int z))) = p + z" by (intro rne_near) (simp add: zr_def)
  then show ?thesis by (simp add: quantize_def q_def)
qed

text \<open>
  C29. For a quantised input of scale 1/255 (as float32) and a zero point of at most 256 in size,
  the float32 arithmetic of normalising, dividing, adding and rounding changes nothing: the
  tensor holds every pixel moved by the zero point, clipped to the limits of its type.
\<close>

theorem quantized_input_exact:
  assumes "get_default inp ''normalization'' (JObj []) = JObj nm"
    and "get nm ''type'' = Some (JStr ''zero_to_one'')"
    and "int_limits (tensor_dtype detail) = Some (lo, hi)"
    and "tensor_quantization detail = (f32 (1 / 255), z)" and "\<bar>z\<bar> \<le> 256"
    and "list_all (\<lambda>p. 0 \<le> p \<and> p \<le> 255) px"
  shows "prepare_input_tensor detail inp px = Ok (Ints (map (\<lambda>p. min (max (p + z) lo) hi) px))"
proof -
  have "\<bar>f32 (1 / 255) - 1 / 255\<bar> \<le> 1 / 2147483648"
    by (rule order_trans [OF f32_error]) simp
  then have scale: "f32 (1 / 255) \<noteq> 0" by auto
  have types: "tensor_dtype detail \<notin> {''float32'', ''float64'', ''float16''}"
    using assms(3) by auto
  have "map (quantize (f32 (1 / 255)) z lo hi) (map (\<lambda>p. f32 (of_int p / 255)) px)
      = map (\<lambda>p. min (max (p + z) lo) hi) px"
    using assms(5,6) by (auto simp: list_all_iff quantize_pixel)
  with assms scale types show ?thesis
    by (simp add: prepare_input_tensor_def real_values_def Let_def del: int_limits.simps map_map)
qed

theorem quantized_input_exact_witness:
  "prepare_input_tensor \<lparr>tensor_index = 0, tensor_shape = [1, 1, 1, 3], tensor_dtype = ''int8'',
       tensor_quantization = (f32 (1 / 255), - 128)\<rparr>
     [(''normalization'', JObj [(''type'', JStr ''zero_to_one'')])] [0, 17, 255]
   = Ok (Ints [- 128, - 111, 127])"
  by (subst quantized_input_exact
      [where nm = "[(''type'', JStr ''zero_to_one'')]" and lo = "- 128" and hi = 127 and z = "- 128"])
    (simp_all add: get_default_def)

end
