(* ===== verification/Appliance.thy ===== *)
theory Appliance
  imports Helpers Inference Edge
begin

text \<open>
  The edge program as a whole, \<^verbatim>\<open>main\<close> and \<^verbatim>\<open>run\<close> of \<^verbatim>\<open>src/poc/pi/ignis_poc/edge.py\<close>: what is
  constructed in which order, the frame loop with the camera (theory \<open>Helpers\<close>), the detector
  (theory \<open>Inference\<close>), the panel, the verifier and the connection (theory \<open>Edge\<close>), and what
  the \<^verbatim>\<open>finally\<close> closes. A KeyboardInterrupt comes at one of the stages before the \<^verbatim>\<open>try\<close>, or between two
  turns of the loop; one inside a turn would reach the same \<^verbatim>\<open>finally\<close>, which lets go of everything in
  whatever state it finds the parts (\<open>shut_down_lets_go\<close>). The lemmas show that theory \<open>Edge\<close>, which starts from frames with
  their detections, is refined by the program that has to produce them.
\<close>

section \<open>The parts and their surroundings\<close>

text \<open>
  What surrounds the program: OpenCV, the image operations of the detector, and the height and
  width of a picture.
\<close>

record 'img platform =
  pf_cv :: "'img opencv"
  pf_vision :: "'img vision"
  pf_shape :: "'img \<Rightarrow> int \<times> int"

text \<open>
  One turn of the loop: what a capture of OpenCV returns, what the interpreter computes, and the
  readings of the clocks and the network, in a \<open>camera_frame\<close> whose picture is still to be filled
  in.
\<close>

record 'img tick =
  tick_captured :: "'img option"
  tick_invoke :: "int \<Rightarrow> tensor \<Rightarrow> int \<Rightarrow> ndarray"
  tick_readings :: camera_frame

record appliance =
  app_camera :: camera
  app_detector :: detector
  app_panel :: "lcd option"
  app_edge :: edge

datatype halt = ReadFailed read_failure | DetectFailed model_error | LinkFailed crash

section \<open>One turn of the loop\<close>

definition seen :: "'img platform \<Rightarrow> 'img tick \<Rightarrow> 'img \<Rightarrow> detection list \<Rightarrow> bytes \<Rightarrow> camera_frame" where
  "seen P t img ds jpeg = (case pf_shape P img of (height, width) \<Rightarrow>
     (tick_readings t)\<lparr>c_detections := ds, c_jpeg := jpeg, c_width := width, c_height := height\<rparr>)"

definition show_alert :: "appliance \<Rightarrow> appliance" where
  "show_alert a = a\<lparr>app_panel := map_option (set_alert (confirmed (state (gate (app_edge a))))) (app_panel a)\<rparr>"

definition link_result :: "(crash, unit) result \<Rightarrow> (halt, unit) result" where
  "link_result r = (case r of Inl x \<Rightarrow> Err (LinkFailed x) | Inr u \<Rightarrow> Ok u)"

text \<open>
  The body of \<^verbatim>\<open>while True\<close>. A picture that cannot be encoded stops the loop after the verifier
  and the panel have been updated and before anything is sent. Nothing after the update changes
  the state the panel shows.
\<close>

definition appliance_frame ::
  "'img platform \<Rightarrow> dumps \<Rightarrow> loads \<Rightarrow> edge_args \<Rightarrow> 'img tick \<Rightarrow> appliance \<Rightarrow> (halt, unit) result \<times> appliance"
  where
  "appliance_frame P dumps loads args t a =
     (case read_camera (pf_cv P) (tick_captured t) (app_camera a) of
        (Inl x, cam) \<Rightarrow> (Err (ReadFailed x), a\<lparr>app_camera := cam\<rparr>)
      | (Inr img, cam) \<Rightarrow>
          (case detect (pf_vision P) (tick_invoke t) (app_detector a) img of
             Inl x \<Rightarrow> (Err (DetectFailed x), a\<lparr>app_camera := cam\<rparr>)
           | Inr ds \<Rightarrow>
               (case camera_jpeg (pf_cv P) img (a_jpeg_quality args) of
                  Inl x \<Rightarrow> (Err (ReadFailed x), show_alert (a\<lparr>app_camera := cam,
                    app_edge := snd (see args (seen P t img ds []) (app_edge a))\<rparr>))
                | Inr jpeg \<Rightarrow>
                    (case frame_step dumps loads args (Some (seen P t img ds jpeg)) (app_edge a) of
                       (r, e) \<Rightarrow> (link_result r, show_alert (a\<lparr>app_camera := cam, app_edge := e\<rparr>))))))"

text \<open>The loop, ended by a KeyboardInterrupt after its turns unless one of them stops it.\<close>

fun appliance_loop ::
  "'img platform \<Rightarrow> dumps \<Rightarrow> loads \<Rightarrow> edge_args \<Rightarrow> 'img tick list \<Rightarrow> appliance \<Rightarrow> (halt, unit) result \<times> appliance"
  where
  "appliance_loop P dumps loads args [] a = (Ok (), a)"
| "appliance_loop P dumps loads args (t # ts) a = (case appliance_frame P dumps loads args t a of
     (Inl x, a) \<Rightarrow> (Err x, a)
   | (Inr _, a) \<Rightarrow> appliance_loop P dumps loads args ts a)"

section \<open>The program\<close>

text \<open>
  Where a KeyboardInterrupt may come before the \<^verbatim>\<open>try\<close>: before the camera is opened, while the detector
  or the panel is constructed, and after that.
\<close>

datatype stage = AtCamera | AtDetector | AtPanel | AtLoop

text \<open>
  What the program is started with: the arguments, the two files (\<open>None\<close> when there is none), what
  the constructors find, how the helpers react when they are closed, and whether the start is
  interrupted. A camera helper that is there but cannot be started counts as not present.
\<close>

record startup =
  st_token :: string
  st_boot :: string
  st_source :: string
  st_width :: int
  st_height :: int
  st_helper_present :: bool
  st_pipe :: "bytes list"
  st_opens :: "camera_source \<Rightarrow> bool"
  st_model :: "bytes option"
  st_manifest :: "bytes option"
  st_threshold :: rat
  st_interpreter :: interpreter
  st_sha256 :: "bytes \<Rightarrow> string"
  st_repr :: "json \<Rightarrow> string"
  st_panel_size :: "int \<times> int"
  st_flash :: rat
  st_fps :: rat
  st_canvas :: draw
  st_panel_reaction :: reaction
  st_panel_present :: bool
  st_panel_starts :: bool
  st_network :: network
  st_camera_end :: reaction
  st_panel_end :: reaction
  st_interrupt :: "stage option"

datatype outcome = NoArtifact | NoToken | NoCamera open_error | NoDetector model_error | NoPanel | NoPeriod
  | Interrupted stage | Ended "(halt, unit) result"

text \<open>What is left of the objects when \<^verbatim>\<open>main\<close> has returned or raised.\<close>

record remains =
  rem_camera :: "camera option"
  rem_panel :: "lcd option"
  rem_edge :: "edge option"

definition nothing_left :: remains where
  "nothing_left = \<lparr>rem_camera = None, rem_panel = None, rem_edge = None\<rparr>"

text \<open>The panel, if one is asked for; a logo that cannot be drawn is an error nothing catches.\<close>

definition start_panel :: "startup \<Rightarrow> edge_args \<Rightarrow> (outcome, lcd option) result" where
  "start_panel st args =
     (if a_has_lcd args
      then case st_panel_size st of (width, height) \<Rightarrow>
        (case new_lcd (st_canvas st) (st_panel_reaction st) (st_panel_present st) (st_panel_starts st)
            width height (st_flash st) of
           None \<Rightarrow> Err NoPanel | Some l \<Rightarrow> Ok (Some l))
      else Ok None)"

text \<open>
  What an interrupt during the construction of the panel may leave of it: the helper, once it is started.
\<close>

definition unfinished_panel :: "startup \<Rightarrow> edge_args \<Rightarrow> lcd option" where
  "unfinished_panel st args = (case st_panel_size st of (width, height) \<Rightarrow>
     if a_has_lcd args \<and> st_canvas st width height render_logo \<noteq> None \<and> st_panel_present st \<and> st_panel_starts st
     then Some (pausing_lcd width height (st_flash st)) else None)"

text \<open>The \<^verbatim>\<open>try\<close>: a first attempt to connect, then the loop.\<close>

definition connect_first :: "dumps \<Rightarrow> loads \<Rightarrow> network \<Rightarrow> appliance \<Rightarrow> (halt, unit) result \<times> appliance" where
  "connect_first dumps loads net a = (case connect dumps loads net (link_of (app_edge a)) of
     (q, s) \<Rightarrow> (case q of Inl x \<Rightarrow> Err (LinkFailed x) | Inr _ \<Rightarrow> Ok (),
               a\<lparr>app_edge := (app_edge a)\<lparr>link_of := s\<rparr>\<rparr>))"

definition appliance_body ::
  "'img platform \<Rightarrow> dumps \<Rightarrow> loads \<Rightarrow> edge_args \<Rightarrow> network \<Rightarrow> 'img tick list \<Rightarrow> appliance
   \<Rightarrow> (halt, unit) result \<times> appliance" where
  "appliance_body P dumps loads args net ts a = (case connect_first dumps loads net a of
     (Inl x, a) \<Rightarrow> (Err x, a)
   | (Inr _, a) \<Rightarrow> appliance_loop P dumps loads args ts a)"

text \<open>The \<^verbatim>\<open>finally\<close>.\<close>

definition shut_down :: "startup \<Rightarrow> appliance \<Rightarrow> remains" where
  "shut_down st a =
     \<lparr>rem_camera = Some (close_camera (st_camera_end st) (app_camera a)),
      rem_panel = map_option (close_lcd (st_panel_end st)) (app_panel a),
      rem_edge = Some ((app_edge a)\<lparr>link_of := close_stream (link_of (app_edge a))\<rparr>)\<rparr>"

text \<open>
  What comes before the \<^verbatim>\<open>try\<close>: the token, the camera, the detector, the panel, a verifier and a
  stream that cannot fail, and the division for the period of a frame. Nothing here is closed when
  a later step fails or is interrupted.
\<close>

definition constructed ::
  "loads \<Rightarrow> startup \<Rightarrow> edge_args \<Rightarrow> bytes \<Rightarrow> bytes \<Rightarrow> (outcome \<times> remains, appliance) result" where
  "constructed loads st args model manifest =
     (if st_token st = [] then Err (NoToken, nothing_left)
      else if st_interrupt st = Some AtCamera then Err (Interrupted AtCamera, nothing_left)
      else case open_camera (st_helper_present st) (st_pipe st) (st_opens st) (st_source st) (st_width st) (st_height st) of
          Inl x \<Rightarrow> Err (NoCamera x, nothing_left)
        | Inr cam \<Rightarrow>
            (let held = nothing_left\<lparr>rem_camera := Some cam\<rparr> in
             if st_interrupt st = Some AtDetector then Err (Interrupted AtDetector, held)
             else case load_detector loads (st_repr st) (st_sha256 st) (st_interpreter st) model manifest (st_threshold st) of
               Inl x \<Rightarrow> Err (NoDetector x, held)
             | Inr d \<Rightarrow>
                 if st_interrupt st = Some AtPanel
                 then Err (Interrupted AtPanel, held\<lparr>rem_panel := unfinished_panel st args\<rparr>)
                 else (case start_panel st args of
                     Inl out \<Rightarrow> Err (out, held)
                   | Inr p \<Rightarrow>
                       if st_interrupt st = Some AtLoop then Err (Interrupted AtLoop, held\<lparr>rem_panel := p\<rparr>)
                       else if st_fps st = 0 then Err (NoPeriod, held\<lparr>rem_panel := p\<rparr>)
                       else Ok \<lparr>app_camera = cam, app_detector = d, app_panel = p,
                         app_edge = new_edge args (st_token st) (st_boot st)\<rparr>)))"

definition run_program ::
  "'img platform \<Rightarrow> dumps \<Rightarrow> loads \<Rightarrow> startup \<Rightarrow> edge_args \<Rightarrow> bytes \<Rightarrow> bytes \<Rightarrow> 'img tick list \<Rightarrow> outcome \<times> remains"
  where
  "run_program P dumps loads st args model manifest ts = (case constructed loads st args model manifest of
     Inl stopped \<Rightarrow> stopped
   | Inr a \<Rightarrow> (case appliance_body P dumps loads args (st_network st) ts a of
       (r, a) \<Rightarrow> (Ended r, shut_down st a)))"

definition main_program ::
  "'img platform \<Rightarrow> dumps \<Rightarrow> loads \<Rightarrow> startup \<Rightarrow> edge_args \<Rightarrow> 'img tick list \<Rightarrow> outcome \<times> remains" where
  "main_program P dumps loads st args ts = (case (st_model st, st_manifest st) of
     (Some model, Some manifest) \<Rightarrow> run_program P dumps loads st args model manifest ts
   | _ \<Rightarrow> (NoArtifact, nothing_left))"

section \<open>The gate through a frame\<close>

lemma keeps_gate_sends [intro]:
  "keeps_true (\<lambda>e. gate e = v) (send_bytes dumps loads ty pl f k)"
  "(\<And>e. gate (g e) = gate e) \<Longrightarrow> keeps_true (\<lambda>e. gate e = v) (assign g)"
  by (auto simp: keeps_true_def send_bytes_def assign_def split: sum.split prod.split)

lemma keeps_gate_change: "keeps_true (\<lambda>e. gate e = v) (report_change dumps loads i f)"
proof -
  have "keeps_true (\<lambda>e. gate e = v) (followed_by (assign (\<lambda>e. e\<lparr>local_log := local_log e @ [x]\<rparr>))
      (followed_by (send_bytes dumps loads E_INCIDENT_TIMELINE_EVENT pl f 3) (assign (\<lambda>e. e\<lparr>last_state := h\<rparr>))))"
    for x pl h
    by (intro keeps_true_followed keeps_gate_sends) simp_all
  then show ?thesis by (auto simp: keeps_true_def report_change_def Let_def)
qed

lemma keeps_gate_incident: "keeps_true (\<lambda>e. gate e = v) (report_incident dumps loads args f)"
proof -
  have "keeps_true (\<lambda>e. gate e = v) (followed_by (send_bytes dumps loads E_INCIDENT_UPDATE pl f 2)
      (report_change dumps loads i f))" for pl i
    by (intro keeps_true_followed keeps_gate_sends keeps_gate_change)
  then show ?thesis by (auto simp: keeps_true_def report_incident_def split: option.split list.split)
qed

lemma keeps_gate_rest:
  "keeps_true (\<lambda>e. gate e = v) (followed_by (send_frame dumps loads args f)
     (followed_by (send_detections dumps loads f) (followed_by (report_incident dumps loads args f)
       (followed_by (report_health dumps loads f) (log_health f)))))"
proof (intro keeps_true_followed keeps_gate_incident)
  note sends = keeps_gate_sends(1) [unfolded keeps_true_def, rule_format]
  show "keeps_true (\<lambda>e. gate e = v) (send_frame dumps loads args f)"
    by (auto simp: keeps_true_def send_frame_def sends split: sum.split)
  show "keeps_true (\<lambda>e. gate e = v) (send_detections dumps loads f)"
    by (auto simp: keeps_true_def send_detections_def sends)
  show "keeps_true (\<lambda>e. gate e = v) (report_health dumps loads f)"
    by (auto simp: keeps_true_def report_health_def sends)
  show "keeps_true (\<lambda>e. gate e = v) (log_health f)"
    by (auto simp: keeps_true_def log_health_def)
qed

lemma frame_step_gate:
  "gate (snd (frame_step dumps loads args (Some f) e)) = Verifier.step (c_ns f, c_detections f) (gate e)"
proof -
  obtain e1 where see: "see args f e = (Ok (), e1)" and g: "gate e1 = Verifier.step (c_ns f, c_detections f) (gate e)"
    by (simp add: see_def assign_def Let_def Verifier.step_def)
  from keeps_gate_rest [unfolded keeps_true_def, rule_format, OF g] show ?thesis
    by (simp add: frame_step_def followed_by_def [of "see args f"] see)
qed

lemma frames_loop_gate:
  "frames_loop dumps loads args (map Some fs) e = (Ok (), e') \<Longrightarrow>
     gate e' = Verifier.run (map (\<lambda>f. (c_ns f, c_detections f)) fs) (gate e)"
proof (induction fs arbitrary: e)
  case (Cons f fs)
  from Cons.prems obtain e1 where e1: "frame_step dumps loads args (Some f) e = (Ok (), e1)"
    "frames_loop dumps loads args (map Some fs) e1 = (Ok (), e')"
    by (auto simp: followed_by_def split: sum.splits prod.splits)
  from Cons.IH [OF e1(2)] frame_step_gate [of dumps loads args f e] show ?case by (simp add: e1(1))
qed simp

section \<open>The program as an edge with given frames\<close>

definition crash_of :: "(halt, unit) result \<Rightarrow> (crash, unit) result" where
  "crash_of r = (case r of Inr u \<Rightarrow> Ok u | Inl (LinkFailed x) \<Rightarrow> Err x | _ \<Rightarrow> Err CameraFailed)"

lemma crash_of_link [simp]: "crash_of (link_result r) = r"
  by (simp add: crash_of_def link_result_def split: sum.split)

text \<open>Two edges that have written the same to the backend and to the log.\<close>

definition same_output :: "edge \<Rightarrow> edge \<Rightarrow> bool" where
  "same_output e e' \<longleftrightarrow> link_of e = link_of e' \<and> local_log e = local_log e'"

lemma see_output: "same_output e (snd (see args f e))"
  by (simp add: same_output_def see_def assign_def Let_def)

text \<open>A frame the program has made of a turn, with a picture that was encoded.\<close>

definition from_tick :: "'img platform \<Rightarrow> 'img tick \<Rightarrow> camera_frame option \<Rightarrow> bool" where
  "from_tick P t f \<longleftrightarrow> (case f of None \<Rightarrow> True | Some x \<Rightarrow>
     \<exists>img ds jpeg q. x = seen P t img ds jpeg \<and> encode_jpeg (pf_cv P) img q = Some jpeg)"

lemma seen_fields [simp]:
  "c_detections (seen P t img ds jpeg) = ds" "c_jpeg (seen P t img ds jpeg) = jpeg"
  "c_ns (seen P t img ds jpeg) = c_ns (tick_readings t)"
  "c_network (seen P t img ds jpeg) = c_network (tick_readings t)"
  by (simp_all add: seen_def split: prod.split)

lemma from_tick_None [simp]: "from_tick P t None"
  by (simp add: from_tick_def)

text \<open>What the detector finds in the picture of a turn, and in those of a run.\<close>

definition observation :: "'img platform \<Rightarrow> 'img tick \<Rightarrow> appliance \<Rightarrow> frame option" where
  "observation P t a = (case fst (read_camera (pf_cv P) (tick_captured t) (app_camera a)) of
     Inl x \<Rightarrow> None
   | Inr img \<Rightarrow> (case detect (pf_vision P) (tick_invoke t) (app_detector a) img of
         Inl x \<Rightarrow> None | Inr ds \<Rightarrow> Some (c_ns (tick_readings t), ds)))"

fun observations ::
  "'img platform \<Rightarrow> dumps \<Rightarrow> loads \<Rightarrow> edge_args \<Rightarrow> 'img tick list \<Rightarrow> appliance \<Rightarrow> frame list" where
  "observations P dumps loads args [] a = []"
| "observations P dumps loads args (t # ts) a = (case observation P t a of
     None \<Rightarrow> []
   | Some x \<Rightarrow> x # (case appliance_frame P dumps loads args t a of
       (Inl _, _) \<Rightarrow> [] | (Inr _, a) \<Rightarrow> observations P dumps loads args ts a))"

definition program_observations ::
  "'img platform \<Rightarrow> dumps \<Rightarrow> loads \<Rightarrow> startup \<Rightarrow> edge_args \<Rightarrow> 'img tick list \<Rightarrow> frame list" where
  "program_observations P dumps loads st args ts = (case (st_model st, st_manifest st) of
     (Some model, Some manifest) \<Rightarrow> (case constructed loads st args model manifest of
         Inl _ \<Rightarrow> []
       | Inr a \<Rightarrow> (case connect_first dumps loads (st_network st) a of
             (Inl _, _) \<Rightarrow> [] | (Inr _, a) \<Rightarrow> observations P dumps loads args ts a))
   | _ \<Rightarrow> [])"

lemma observation_Some:
  "observation P t a = Some x \<Longrightarrow>
     fst x = c_ns (tick_readings t) \<and> list_all (sound_detection (d_threshold (app_detector a))) (snd x)"
  by (auto simp: observation_def dest: detect_sound split: sum.splits)

text \<open>The frames of a run of the theory \<open>Edge\<close>, as the gate sees them.\<close>

fun given :: "'a option list \<Rightarrow> 'a list" where
  "given [] = []"
| "given (None # fs) = given fs"
| "given (Some f # fs) = f # given fs"

definition shown :: "camera_frame \<Rightarrow> frame" where
  "shown f = (c_ns f, c_detections f)"

lemma appliance_frame_refines:
  assumes "appliance_frame P dumps loads args t a = (r, a')"
  obtains f e where "frame_step dumps loads args f (app_edge a) = (crash_of r, e)" "same_output e (app_edge a')"
    "from_tick P t f" "\<forall>x. f = Some x \<longrightarrow> observation P t a = Some (shown x)"
    "is_ok r \<longrightarrow> e = app_edge a' \<and> f \<noteq> None"
proof (cases "read_camera (pf_cv P) (tick_captured t) (app_camera a)")
  case (Pair got cam)
  show ?thesis
  proof (cases got)
    case (Inl x)
    with assms Pair that [of None "app_edge a"] show ?thesis
      by (auto simp: appliance_frame_def frame_step_def crash_of_def same_output_def is_ok_def)
  next
    case (Inr img)
    show ?thesis
    proof (cases "detect (pf_vision P) (tick_invoke t) (app_detector a) img")
      case (Inl x)
      with assms Pair Inr that [of None "app_edge a"] show ?thesis
        by (auto simp: appliance_frame_def frame_step_def crash_of_def same_output_def is_ok_def)
    next
      case ds: (Inr ds)
      show ?thesis
      proof (cases "camera_jpeg (pf_cv P) img (a_jpeg_quality args)")
        case (Inl x)
        with assms Pair Inr ds that [of None "app_edge a"] see_output show ?thesis
          by (auto simp: appliance_frame_def frame_step_def crash_of_def is_ok_def show_alert_def)
      next
        case jpeg: (Inr jpeg)
        let ?f = "seen P t img ds jpeg"
        obtain q e where q: "frame_step dumps loads args (Some ?f) (app_edge a) = (q, e)" by fastforce
        have "from_tick P t (Some ?f)" "observation P t a = Some (shown ?f)"
          using Pair Inr ds jpeg
          by (auto simp: from_tick_def camera_jpeg_def observation_def shown_def split: option.splits)
        with assms Pair Inr ds jpeg q that [of "Some ?f" e] show ?thesis
          by (auto simp: appliance_frame_def show_alert_def same_output_def)
      qed
    qed
  qed
qed

lemma appliance_frame_gate:
  assumes "appliance_frame P dumps loads args t a = (r, a')"
  shows "gate (app_edge a') = (case observation P t a of
      None \<Rightarrow> gate (app_edge a) | Some x \<Rightarrow> Verifier.step x (gate (app_edge a)))"
    and "app_detector a' = app_detector a" and "is_ok r \<longrightarrow> observation P t a \<noteq> None"
proof -
  have step: "gate e' = Verifier.step (c_ns f, c_detections f) (gate e)"
    if "frame_step dumps loads args (Some f) e = (q, e')" for f e q e'
    using frame_step_gate [of dumps loads args f e] that by simp
  have "gate (snd (see args f e)) = Verifier.step (c_ns f, c_detections f) (gate e)" for f e
    by (simp add: see_def assign_def Let_def Verifier.step_def)
  then show "gate (app_edge a') = (case observation P t a of
      None \<Rightarrow> gate (app_edge a) | Some x \<Rightarrow> Verifier.step x (gate (app_edge a)))"
    using assms by (auto simp: appliance_frame_def observation_def show_alert_def dest!: step
        split: prod.splits sum.splits)
  show "app_detector a' = app_detector a" "is_ok r \<longrightarrow> observation P t a \<noteq> None"
    using assms by (auto simp: appliance_frame_def observation_def show_alert_def is_ok_def
        split: prod.splits sum.splits)
qed

lemma appliance_loop_refines:
  assumes "appliance_loop P dumps loads args ts a = (r, a')"
  shows "\<exists>fs e. frames_loop dumps loads args fs (app_edge a) = (crash_of r, e) \<and> same_output e (app_edge a') \<and>
    length fs \<le> length ts \<and> list_all2 (from_tick P) (take (length fs) ts) fs \<and>
    prefix (map shown (given fs)) (observations P dumps loads args ts a) \<and>
    (is_ok r \<longrightarrow> e = app_edge a' \<and> None \<notin> set fs \<and> length fs = length ts \<and>
       map shown (given fs) = observations P dumps loads args ts a)"
  using assms
proof (induction ts arbitrary: a)
  case Nil
  then show ?case by (intro exI [of _ "[]"]) (auto simp: crash_of_def same_output_def)
next
  case (Cons t ts)
  obtain q a1 where q: "appliance_frame P dumps loads args t a = (q, a1)" by fastforce
  then obtain f e1 where f: "frame_step dumps loads args f (app_edge a) = (crash_of q, e1)"
    "same_output e1 (app_edge a1)" "from_tick P t f" "\<forall>x. f = Some x \<longrightarrow> observation P t a = Some (shown x)"
    "is_ok q \<longrightarrow> e1 = app_edge a1 \<and> f \<noteq> None"
    by (rule appliance_frame_refines)
  show ?case
  proof (cases q)
    case (Inl x)
    with Cons.prems q f show ?thesis
      by (intro exI [of _ "[f]"] exI [of _ e1], cases f)
        (auto simp: followed_by_def crash_of_def is_ok_def split: halt.split)
  next
    case (Inr u)
    with f(4,5) obtain x where x: "f = Some x" "observation P t a = Some (shown x)" "e1 = app_edge a1"
      by (auto simp: is_ok_def)
    from Inr Cons.prems q have "appliance_loop P dumps loads args ts a1 = (r, a')" by simp
    from Cons.IH [OF this] obtain fs e where "frames_loop dumps loads args fs (app_edge a1) = (crash_of r, e)"
      "same_output e (app_edge a')" "length fs \<le> length ts" "list_all2 (from_tick P) (take (length fs) ts) fs"
      "prefix (map shown (given fs)) (observations P dumps loads args ts a1)"
      "is_ok r \<longrightarrow> e = app_edge a' \<and> None \<notin> set fs \<and> length fs = length ts \<and>
         map shown (given fs) = observations P dumps loads args ts a1" by blast
    with Inr f x q show ?thesis
      by (intro exI [of _ "f # fs"] exI [of _ e]) (auto simp: followed_by_def crash_of_def is_ok_def)
  qed
qed

abbreviation tick_times :: "'img tick list \<Rightarrow> int list" where
  "tick_times ts \<equiv> map (\<lambda>t. c_ns (tick_readings t)) ts"

lemma appliance_loop_gate:
  assumes "appliance_loop P dumps loads args ts a = (r, a')"
  shows "gate (app_edge a') = Verifier.run (observations P dumps loads args ts a) (gate (app_edge a)) \<and>
    prefix (map fst (observations P dumps loads args ts a)) (tick_times ts) \<and>
    list_all (\<lambda>(ns, ds). list_all (sound_detection (d_threshold (app_detector a))) ds) (observations P dumps loads args ts a)"
  using assms
proof (induction ts arbitrary: a)
  case (Cons t ts)
  obtain q a1 where q: "appliance_frame P dumps loads args t a = (q, a1)" by fastforce
  note g = appliance_frame_gate [OF q]
  show ?case
  proof (cases "observation P t a")
    case None
    with Cons.prems q g show ?thesis by (cases q) (auto simp: is_ok_def)
  next
    case (Some x)
    note o = observation_Some [OF Some]
    show ?thesis
    proof (cases q)
      case (Inl y)
      with Cons.prems q g Some o show ?thesis by auto
    next
      case (Inr u)
      with Cons.prems q have "appliance_loop P dumps loads args ts a1 = (r, a')" by simp
      from Cons.IH [OF this] Inr q g Some o show ?thesis by auto
    qed
  qed
qed simp

lemma constructed_not_Ended: "constructed loads st args model manifest \<noteq> Err (Ended r, left)"
  by (auto simp: constructed_def start_panel_def Let_def split: if_splits sum.splits prod.splits option.splits)

lemma constructed_fields:
  assumes "constructed loads st args model manifest = Ok a"
  shows "st_token st \<noteq> []" "d_threshold (app_detector a) = st_threshold st"
    "app_edge a = new_edge args (st_token st) (st_boot st)"
  using assms by (auto simp: constructed_def load_detector_Ok Let_def split: if_splits sum.splits)

lemma run_program_Ended:
  assumes "main_program P dumps loads st args ts = (Ended r, left)"
  obtains a0 a where "st_token st \<noteq> []" "d_threshold (app_detector a0) = st_threshold st"
    "app_edge a0 = new_edge args (st_token st) (st_boot st)" "left = shut_down st a"
    "appliance_body P dumps loads args (st_network st) ts a0 = (r, a)"
    "program_observations P dumps loads st args ts = (case connect_first dumps loads (st_network st) a0 of
       (Inl _, _) \<Rightarrow> [] | (Inr _, a) \<Rightarrow> observations P dumps loads args ts a)"
proof -
  from assms obtain model manifest where m: "st_model st = Some model" "st_manifest st = Some manifest"
    and run: "run_program P dumps loads st args model manifest ts = (Ended r, left)"
    by (auto simp: main_program_def split: option.splits)
  from run obtain a0 a where a: "constructed loads st args model manifest = Ok a0"
    "appliance_body P dumps loads args (st_network st) ts a0 = (r, a)" "left = shut_down st a"
    using constructed_not_Ended by (fastforce simp: run_program_def split: sum.splits prod.splits)
  with constructed_fields [OF a(1)] m that show ?thesis by (simp add: program_observations_def)
qed

lemma program_gate:
  assumes "main_program P dumps loads st args ts = (Ended r, left)" and "rem_edge left = Some e"
  defines "obs \<equiv> program_observations P dumps loads st args ts"
  shows "gate e = Verifier.run obs (default_verifier (a_device args) (st_boot st))"
    and "prefix (map fst obs) (tick_times ts)" and "list_all (\<lambda>(ns, ds). list_all (sound_detection (st_threshold st)) ds) obs"
proof -
  obtain a0 a where a0: "d_threshold (app_detector a0) = st_threshold st"
    "app_edge a0 = new_edge args (st_token st) (st_boot st)"
    and body: "appliance_body P dumps loads args (st_network st) ts a0 = (r, a)" and left: "left = shut_down st a"
    and obs: "obs = (case connect_first dumps loads (st_network st) a0 of
       (Inl _, _) \<Rightarrow> [] | (Inr _, a) \<Rightarrow> observations P dumps loads args ts a)"
    using assms(1) unfolding obs_def by (rule run_program_Ended)
  have e: "gate e = gate (app_edge a)" using assms(2) by (auto simp: left shut_down_def)
  obtain q a1 where q: "connect_first dumps loads (st_network st) a0 = (q, a1)" by fastforce
  then have a1: "gate (app_edge a1) = default_verifier (a_device args) (st_boot st)" "app_detector a1 = app_detector a0"
    using a0(2) by (auto simp: connect_first_def new_edge_def split: prod.splits)
  have "gate e = Verifier.run obs (gate (app_edge a1)) \<and> prefix (map fst obs) (tick_times ts) \<and>
    list_all (\<lambda>(ns, ds). list_all (sound_detection (d_threshold (app_detector a1))) ds) obs"
  proof (cases q)
    case (Inl x)
    with body q obs have "a = a1" "obs = []" by (auto simp: appliance_body_def)
    with e show ?thesis by simp
  next
    case (Inr u)
    with body q have "appliance_loop P dumps loads args ts a1 = (r, a)" by (simp add: appliance_body_def)
    from appliance_loop_gate [OF this] Inr q obs e show ?thesis by simp
  qed
  with a0(1) a1 show "gate e = Verifier.run obs (default_verifier (a_device args) (st_boot st))"
    "prefix (map fst obs) (tick_times ts)" "list_all (\<lambda>(ns, ds). list_all (sound_detection (st_threshold st)) ds) obs"
    by simp_all
qed

lemma program_refines_run_edge:
  assumes "main_program P dumps loads st args ts = (Ended r, left)"
  defines "obs \<equiv> program_observations P dumps loads st args ts"
  shows "\<exists>fs e e'. run_edge dumps loads args (st_token st) (st_boot st) (st_network st) fs = Some (crash_of r, e) \<and>
    rem_edge left = Some e' \<and> same_output e e' \<and> length fs \<le> length ts \<and>
    list_all2 (from_tick P) (take (length fs) ts) fs \<and> prefix (map shown (given fs)) obs \<and>
    (is_ok r \<longrightarrow> e = e' \<and> None \<notin> set fs \<and> length fs = length ts \<and> map shown (given fs) = obs)"
proof -
  obtain a0 a where tok: "st_token st \<noteq> []" and a0: "app_edge a0 = new_edge args (st_token st) (st_boot st)"
    and body: "appliance_body P dumps loads args (st_network st) ts a0 = (r, a)" and left: "left = shut_down st a"
    and obs: "obs = (case connect_first dumps loads (st_network st) a0 of
       (Inl _, _) \<Rightarrow> [] | (Inr _, a) \<Rightarrow> observations P dumps loads args ts a)"
    using assms(1) unfolding obs_def by (rule run_program_Ended)
  let ?e0 = "new_edge args (st_token st) (st_boot st)"
  obtain q s where q: "connect dumps loads (st_network st) (link_of ?e0) = (q, s)" by fastforce
  show ?thesis
  proof (cases q)
    case (Inl x)
    with body q left tok a0 obs show ?thesis
      by (intro exI [of _ "[]"])
        (auto simp: appliance_body_def connect_first_def run_edge_def edge_loop_def shut_down_def crash_of_def
          same_output_def is_ok_def)
  next
    case (Inr u)
    define a1 where "a1 = a0\<lparr>app_edge := ?e0\<lparr>link_of := s\<rparr>\<rparr>"
    from Inr q a0 have c: "connect_first dumps loads (st_network st) a0 = (Ok (), a1)" by (simp add: connect_first_def a1_def)
    with body have "appliance_loop P dumps loads args ts a1 = (r, a)" by (simp add: appliance_body_def)
    from appliance_loop_refines [OF this] obtain fs e where
      "frames_loop dumps loads args fs (?e0\<lparr>link_of := s\<rparr>) = (crash_of r, e)" "same_output e (app_edge a)"
      "length fs \<le> length ts" "list_all2 (from_tick P) (take (length fs) ts) fs"
      "prefix (map shown (given fs)) (observations P dumps loads args ts a1)"
      "is_ok r \<longrightarrow> e = app_edge a \<and> None \<notin> set fs \<and> length fs = length ts \<and>
         map shown (given fs) = observations P dumps loads args ts a1" by (auto simp: a1_def)
    with Inr q left tok obs c show ?thesis
      by (intro exI [of _ fs]) (auto simp: run_edge_def edge_loop_def shut_down_def same_output_def)
  qed
qed

section \<open>What the program does to its panel\<close>

lemma appliance_frame_panel:
  "appliance_frame P dumps loads args t a = (r, a') \<Longrightarrow>
     app_panel a' = app_panel a \<or> (\<exists>b. app_panel a' = map_option (set_alert b) (app_panel a))"
  by (auto simp: appliance_frame_def show_alert_def split: prod.splits sum.splits)

lemma appliance_loop_panel:
  assumes "\<And>l b. Q l \<Longrightarrow> Q (set_alert b l)" and "pred_option Q (app_panel a)"
    and "appliance_loop P dumps loads args ts a = (r, a')"
  shows "pred_option Q (app_panel a')"
  using assms(2,3)
proof (induction ts arbitrary: a)
  case (Cons t ts)
  obtain q a1 where q: "appliance_frame P dumps loads args t a = (q, a1)" by fastforce
  with appliance_frame_panel [OF q] Cons.prems(1) assms(1) have "pred_option Q (app_panel a1)"
    by (auto simp: option.pred_map pred_option_def)
  with Cons q show ?case by (auto split: sum.splits)
qed simp

text \<open>The frame with the logo the panel may get, and a panel that has let its helper go.\<close>

definition logo_frame :: "startup \<Rightarrow> bytes" where
  "logo_frame st = (case st_panel_size st of (w, h) \<Rightarrow> logo_bytes (st_canvas st) w h)"

definition panel_left :: "startup \<Rightarrow> lcd \<Rightarrow> bool" where
  "panel_left st l \<longleftrightarrow> panel l = None \<and> length (released l) \<le> 1 \<and>
     list_all (\<lambda>p. \<not> running p \<and> prefix (taken p) (logo_frame st)) (released l)"

lemma panel_left_closed:
  assumes "lcd_ok (logo_frame st) l"
  shows "panel_left st (close_lcd r l)"
proof -
  have "lcd_ok (logo_frame st) (close_lcd r l) \<and> panel (close_lcd r l) = None"
    unfolding close_lcd_def using assms by (intro lcd_ok_stop) simp
  then show ?thesis by (simp add: panel_left_def lcd_ok_def)
qed

lemma start_panel_ok: "start_panel st args = Ok p \<Longrightarrow> pred_option (lcd_ok (logo_frame st)) p"
  by (auto simp: start_panel_def logo_frame_def pred_option_def split: prod.splits option.splits if_splits intro: new_lcd_ok)

lemma program_panel:
  assumes "appliance_body P dumps loads args net ts a = (r, a')" and "pred_option (lcd_ok (logo_frame st)) (app_panel a)"
  shows "pred_option (lcd_ok (logo_frame st)) (app_panel a')"
proof -
  have alert: "lcd_ok (logo_frame st) (set_alert b l)" if "lcd_ok (logo_frame st) l" for l b
    using lcd_ok_do [OF that, of "SetAlert b"] by simp
  obtain q a1 where q: "connect_first dumps loads net a = (q, a1)" by fastforce
  then have a1: "app_panel a1 = app_panel a" by (auto simp: connect_first_def split: prod.splits)
  from assms(1) q consider "a' = a1" | "appliance_loop P dumps loads args ts a1 = (r, a')"
    by (auto simp: appliance_body_def split: sum.splits)
  then show ?thesis
  proof cases
    case 1
    with assms(2) a1 show ?thesis by simp
  next
    case 2
    show ?thesis
      by (rule appliance_loop_panel [where Q = "lcd_ok (logo_frame st)", OF _ _ 2]) (simp_all add: alert assms(2) a1)
  qed
qed

text \<open>
  The \<^verbatim>\<open>finally\<close> lets go of everything, in whatever state a turn of the loop has left the parts.
\<close>

lemma shut_down_lets_go:
  assumes "pred_option (lcd_ok (logo_frame st)) (app_panel a)"
  shows "\<exists>cam. rem_camera (shut_down st a) = Some cam \<and> camera_ended cam"
    and "pred_option (panel_left st) (rem_panel (shut_down st a))"
    and "pred_option (\<lambda>e. \<not> link (link_of e)) (rem_edge (shut_down st a))"
  using assms camera_closed panel_left_closed
  by (auto simp: shut_down_def close_stream_def option.pred_map pred_option_def)

text \<open>The ways to stop before the \<^verbatim>\<open>try\<close> that leave the camera open.\<close>

definition holds_camera :: "outcome \<Rightarrow> bool" where
  "holds_camera out = (case out of
     NoDetector x \<Rightarrow> True | NoPanel \<Rightarrow> True | NoPeriod \<Rightarrow> True | Interrupted s \<Rightarrow> s \<noteq> AtCamera | _ \<Rightarrow> False)"

abbreviation opened :: "startup \<Rightarrow> (open_error, camera) result" where
  "opened st \<equiv> open_camera (st_helper_present st) (st_pipe st) (st_opens st) (st_source st) (st_width st) (st_height st)"

lemma constructed_Err:
  assumes "constructed loads st args model manifest = Err (out, left)"
  shows "(\<forall>r. out \<noteq> Ended r) \<and> rem_edge left = None \<and>
    (if holds_camera out then \<exists>cam. opened st = Ok cam \<and> rem_camera left = Some cam else left = nothing_left)"
  using assms
  by (auto simp: constructed_def start_panel_def holds_camera_def nothing_left_def Let_def
      split: if_splits sum.splits prod.splits option.splits)

lemma constructed_Ok:
  assumes "constructed loads st args model manifest = Ok a"
  shows "pred_option (lcd_ok (logo_frame st)) (app_panel a)"
  using assms start_panel_ok [of st args] by (auto simp: constructed_def Let_def split: if_splits sum.splits)

lemma opened_helper_runs: "opened st = Ok cam \<Longrightarrow> starts_with ''qnx:'' (st_source st) \<Longrightarrow> \<not> camera_ended cam"
  by (auto simp: open_camera_def source_of_text_def camera_ended_def spawned_def split: if_splits)

lemma main_program_ends:
  "main_program P dumps loads st args ts = (out, left) \<Longrightarrow>
     out = NoArtifact \<and> left = nothing_left \<or>
     (\<exists>model manifest. constructed loads st args model manifest = Err (out, left)) \<or>
     (\<exists>model manifest a0 r a. constructed loads st args model manifest = Ok a0 \<and> out = Ended r \<and> left = shut_down st a \<and>
        appliance_body P dumps loads args (st_network st) ts a0 = (r, a))"
  by (auto simp: main_program_def run_program_def split: option.splits sum.splits prod.splits)

lemma default_gate:
  "required (default_verifier dev bid) = 6" "maxlen (default_verifier dev bid) = 10"
  "window (default_verifier dev bid) = []"
  "wf (default_verifier dev bid)" "fire_state.incident_id (state (default_verifier dev bid)) = None"
  by (simp_all add: default_verifier_def wf_init) (simp_all add: fire_verifier_def fire_state0_def)

text \<open>A run over a capture of OpenCV and without a panel, as a run of the theory \<open>Edge\<close>.\<close>

lemma captured_turn:
  assumes "cam_feed (app_camera a) = Capture" and "app_panel a = None" and "tick_captured t = Some img"
    and "detect (pf_vision P) (tick_invoke t) (app_detector a) img = Ok ds"
    and "encode_jpeg (pf_cv P) img (a_jpeg_quality args) = Some jpeg"
  shows "appliance_frame P dumps loads args t a =
      (case frame_step dumps loads args (Some (seen P t img ds jpeg)) (app_edge a) of
         (r, e) \<Rightarrow> (link_result r, a\<lparr>app_edge := e\<rparr>)) \<and>
    observation P t a = Some (shown (seen P t img ds jpeg))"
  using assms
  by (cases a) (simp add: appliance_frame_def read_camera_def camera_jpeg_def show_alert_def observation_def shown_def
      split: prod.split)

lemma captured_turns:
  assumes "cam_feed (app_camera a) = Capture" and "app_panel a = None"
    and "\<forall>t \<in> set ts. \<exists>img ds jpeg. tick_captured t = Some img \<and> f t = seen P t img ds jpeg \<and>
       detect (pf_vision P) (tick_invoke t) (app_detector a) img = Ok ds \<and>
       encode_jpeg (pf_cv P) img (a_jpeg_quality args) = Some jpeg"
    and "frames_loop dumps loads args (map Some (map f ts)) (app_edge a) = (Ok (), e)"
  shows "appliance_loop P dumps loads args ts a = (Ok (), a\<lparr>app_edge := e\<rparr>) \<and>
    observations P dumps loads args ts a = map shown (map f ts)"
  using assms
proof (induction ts arbitrary: a)
  case (Cons t ts)
  from Cons.prems(3) obtain img ds jpeg where t: "tick_captured t = Some img" "f t = seen P t img ds jpeg"
    "detect (pf_vision P) (tick_invoke t) (app_detector a) img = Ok ds"
    "encode_jpeg (pf_cv P) img (a_jpeg_quality args) = Some jpeg" by auto
  from Cons.prems(4) t(2) obtain e1 where e1: "frame_step dumps loads args (Some (seen P t img ds jpeg)) (app_edge a) = (Ok (), e1)"
    "frames_loop dumps loads args (map Some (map f ts)) e1 = (Ok (), e)"
    by (auto simp: followed_by_def split: sum.splits prod.splits)
  from captured_turn [OF Cons.prems(1,2) t(1,3,4), of dumps loads] e1(1)
  have turn: "appliance_frame P dumps loads args t a = (Ok (), a\<lparr>app_edge := e1\<rparr>)"
    "observation P t a = Some (shown (f t))" by (simp_all add: link_result_def t(2))
  from Cons.IH [of "a\<lparr>app_edge := e1\<rparr>"] Cons.prems(1-3) e1(2) turn show ?case by simp
qed simp

section \<open>Properties\<close>

text \<open>
  C3. The program refines the edge of theory \<open>Edge\<close>: however a run of the whole program ends, what it
  has written to the backend and to its log is what \<open>run_edge\<close> writes for some frames, and
  these show what the detector found in the pictures of the camera, in their order: fires and smoke
  of at least the program's threshold with proper boxes. A run that nothing stops is such a run
  with a frame for every turn of the loop and every observation.
\<close>

theorem program_refines_edge:
  assumes "main_program P dumps loads st args ts = (Ended r, left)"
    and "obs = program_observations P dumps loads st args ts"
  shows "\<exists>fs e e'. run_edge dumps loads args (st_token st) (st_boot st) (st_network st) fs = Some (crash_of r, e) \<and>
    rem_edge left = Some e' \<and> link_of e = link_of e' \<and> local_log e = local_log e' \<and>
    length fs \<le> length ts \<and> prefix (map shown (given fs)) obs \<and>
    list_all (\<lambda>(ns, ds). list_all (sound_detection (st_threshold st)) ds) obs \<and>
    (is_ok r \<longrightarrow> e = e' \<and> None \<notin> set fs \<and> length fs = length ts \<and> map shown (given fs) = obs)"
proof -
  from program_refines_run_edge [OF assms(1)] obtain fs e e' where e': "rem_edge left = Some e'"
    and run: "run_edge dumps loads args (st_token st) (st_boot st) (st_network st) fs = Some (crash_of r, e)"
      "same_output e e'" "length fs \<le> length ts" "prefix (map shown (given fs)) obs"
      "is_ok r \<longrightarrow> e = e' \<and> None \<notin> set fs \<and> length fs = length ts \<and> map shown (given fs) = obs"
    unfolding assms(2) by blast
  from program_gate(3) [OF assms(1) e'] run e' show ?thesis unfolding same_output_def assms(2) by blast
qed

text \<open>
  An example: a detector that finds a fire in every picture of a camera that delivers, and a
  backend that cannot be reached.
\<close>

definition demo_platform :: "int list platform" where
  "demo_platform = \<lparr>pf_cv = \<lparr>from_nv12 = (\<lambda>w h raw. None), resize_to = (\<lambda>img w h. img),
       encode_jpeg = (\<lambda>img q. Some [])\<rparr>,
     pf_vision = demo_vision, pf_shape = (\<lambda>_. (1, 1))\<rparr>"

definition demo_tick :: "int \<Rightarrow> int list tick" where
  "demo_tick t = \<lparr>tick_captured = Some [0, 0, 0], tick_invoke = demo_invoke, tick_readings = offline t []\<rparr>"

definition demo_loads :: loads where
  "demo_loads bs = (if bs = [2] then Some (JObj (demo_manifest ''fire'' ''smoke'')) else toy_loads bs)"

definition demo_startup :: "string \<Rightarrow> startup" where
  "demo_startup cam = \<lparr>st_token = ''t'', st_boot = ''b'', st_source = cam, st_width = 1, st_height = 1,
     st_helper_present = True, st_pipe = [], st_opens = (\<lambda>_. True), st_model = Some [1], st_manifest = Some [2],
     st_threshold = 1/2, st_interpreter = (\<lambda>_. ([demo_detail [1, 320, 320, 3]], [demo_detail [1, 6, 1]])),
     st_sha256 = (\<lambda>_. []), st_repr = (\<lambda>_. []), st_panel_size = (480, 320), st_flash = 3/4, st_fps = 5,
     st_canvas = (\<lambda>w h ops. if 0 < w \<and> 0 < h then Some [] else None), st_panel_reaction = stubborn, st_panel_present = True, st_panel_starts = True,
     st_network = demo_network\<lparr>dialled := Refused ''no route''\<rparr>, st_camera_end = stubborn, st_panel_end = stubborn,
     st_interrupt = None\<rparr>"

definition demo_times :: "int list" where
  "demo_times = [0, 500000000, 1000000000, 1500000000, 2000000000, 2500000000]"

text \<open>A statement that runs through when the backend cannot be reached.\<close>

definition quiet :: "statement \<Rightarrow> bool" where
  "quiet a \<longleftrightarrow> (\<forall>e. \<not> link (link_of e) \<longrightarrow> (\<exists>e'. a e = (Ok (), e') \<and> \<not> link (link_of e')))"

lemma quiet_followed: "quiet a \<Longrightarrow> quiet b \<Longrightarrow> quiet (followed_by a b)"
  unfolding quiet_def followed_by_def by fastforce

lemma quiet_assign: "(\<And>e. link_of (g e) = link_of e) \<Longrightarrow> quiet (assign g)"
  by (simp add: quiet_def assign_def)

lemma quiet_send: "dialled (c_network f k) = Refused msg \<Longrightarrow> quiet (send_bytes dumps loads ty pl f k)"
  by (auto simp: quiet_def send_bytes_def send_packet_def connect_def connect_failed_def close_stream_def)

lemma quiet_frame: "quiet (frame_step (\<lambda>_. []) loads args (Some (offline t ds)))"
proof -
  have off: "dialled (c_network (offline t ds) k) = Refused ''no route''" for k by (simp add: offline_def)
  note sends = quiet_send [OF off]
  have see: "quiet (see args (offline t ds))"
    unfolding see_def by (rule quiet_assign) (simp add: Let_def)
  have frame: "quiet (send_frame (\<lambda>_. []) loads args (offline t ds))"
    using sends by (simp add: quiet_def send_frame_def edge_frame_payload_def Let_def fits_def)
  have dets: "quiet (send_detections (\<lambda>_. []) loads (offline t ds))"
    using sends by (simp add: quiet_def send_detections_def)
  have "quiet (followed_by (assign (\<lambda>e. e\<lparr>local_log := local_log e @ [x]\<rparr>))
      (followed_by (send_bytes (\<lambda>_. []) loads E_INCIDENT_TIMELINE_EVENT pl (offline t ds) 3)
        (assign (\<lambda>e. e\<lparr>last_state := h\<rparr>))))" for x pl h
    by (intro quiet_followed quiet_assign sends) simp_all
  then have change: "quiet (report_change (\<lambda>_. []) loads i (offline t ds))" for i
    by (auto simp: quiet_def report_change_def Let_def)
  have "quiet (followed_by (send_bytes (\<lambda>_. []) loads E_INCIDENT_UPDATE pl (offline t ds) 2)
      (report_change (\<lambda>_. []) loads i (offline t ds)))" for pl i
    by (intro quiet_followed sends change)
  then have incident: "quiet (report_incident (\<lambda>_. []) loads args (offline t ds))"
    by (auto simp: quiet_def report_incident_def split: option.split list.split)
  have "quiet (report_health (\<lambda>_. []) loads (offline t ds))"
    using sends by (auto simp: quiet_def report_health_def)
  moreover have "quiet (log_health (offline t ds))" by (auto simp: quiet_def log_health_def)
  ultimately have "quiet (followed_by (see args (offline t ds)) (followed_by (send_frame (\<lambda>_. []) loads args (offline t ds))
      (followed_by (send_detections (\<lambda>_. []) loads (offline t ds)) (followed_by (report_incident (\<lambda>_. []) loads args (offline t ds))
        (followed_by (report_health (\<lambda>_. []) loads (offline t ds)) (log_health (offline t ds)))))))"
    using see frame dets incident by (intro quiet_followed)
  then show ?thesis by (simp add: quiet_def frame_step_def)
qed

lemma quiet_loop: "quiet (frames_loop (\<lambda>_. []) loads args (map Some (map (\<lambda>t. offline t ds) ns)))"
proof (induction ns)
  case Nil
  then show ?case by (simp add: quiet_def)
next
  case (Cons t ns)
  with quiet_frame show ?case by (simp add: quiet_followed)
qed

lemma demo_loaded:
  "load_detector demo_loads (\<lambda>_. []) (\<lambda>_. []) (st_interpreter (demo_startup cam)) [1] [2] (1/2)
     = Ok (demo_detector ''fire'' ''smoke'')"
proof -
  have "st_interpreter (demo_startup cam) = (\<lambda>_. ([demo_detail [1, 320, 320, 3]], [demo_detail [1, 6, 1]]))"
    by (simp add: demo_startup_def)
  moreover have "load_detector demo_loads (\<lambda>_. []) (\<lambda>_. [])
      (\<lambda>_. ([demo_detail [1, 320, 320, 3]], [demo_detail [1, 6, 1]])) [1] [2] (1/2) = Ok (demo_detector ''fire'' ''smoke'')"
    by code_simp
  ultimately show ?thesis by simp
qed

lemma demo_program:
  "\<exists>left e. main_program demo_platform (\<lambda>_. []) demo_loads (demo_startup ''0'') (demo_args\<lparr>a_has_lcd := False\<rparr>)
       (map demo_tick demo_times) = (Ended (Ok ()), left) \<and>
     rem_edge left = Some e \<and> confirmed (state (gate e))"
proof -
  let ?args = "demo_args\<lparr>a_has_lcd := False\<rparr>" and ?net = "demo_network\<lparr>dialled := Refused ''no route''\<rparr>"
  let ?e0 = "(new_edge ?args ''t'' ''b'')\<lparr>link_of := snd (connect (\<lambda>_. []) demo_loads ?net (new_stream ''d'' ''t'' ''b''))\<rparr>"
  let ?fs = "map (\<lambda>t. offline t [Inference.demo_fire]) demo_times"
  have "confirmed (state (Verifier.run (map (\<lambda>t. (t, [Inference.demo_fire])) demo_times) (default_verifier ''d'' ''b'')))"
    by code_simp
  moreover have "map (\<lambda>f. (c_ns f, c_detections f)) ?fs = map (\<lambda>t. (t, [Inference.demo_fire])) demo_times"
    "gate ?e0 = default_verifier ''d'' ''b''"
    by (simp_all add: offline_def demo_frame_def new_edge_def demo_args_def)
  moreover have "\<not> link (link_of ?e0)"
    by (simp add: connect_def connect_failed_def close_stream_def new_stream_def)
  then obtain e where run: "frames_loop (\<lambda>_. []) demo_loads ?args (map Some ?fs) ?e0 = (Ok (), e)"
    using quiet_loop unfolding quiet_def by blast
  ultimately have e: "confirmed (state (gate e))" using frames_loop_gate [OF run] by (simp only:)
  have "open_camera True [] (\<lambda>_. True) ''0'' 1 1 = Ok \<lparr>cam_width = 1, cam_height = 1, cam_feed = Capture\<rparr>"
    by code_simp
  moreover have "fst (connect (\<lambda>_. []) demo_loads ?net (new_stream ''d'' ''t'' ''b'')) = Ok False" by code_simp
  moreover let ?a = "\<lparr>app_camera = \<lparr>cam_width = 1, cam_height = 1, cam_feed = Capture\<rparr>,
      app_detector = demo_detector ''fire'' ''smoke'', app_panel = None, app_edge = ?e0\<rparr>"
  have "appliance_loop demo_platform (\<lambda>_. []) demo_loads ?args (map demo_tick demo_times) ?a = (Ok (), ?a\<lparr>app_edge := e\<rparr>)"
    by (rule captured_turns [where f = "\<lambda>t. offline (c_ns (tick_readings t)) [Inference.demo_fire]", THEN conjunct1])
      (use run in \<open>auto simp: demo_tick_def demo_platform_def offline_def demo_frame_def seen_def demo_detects comp_def\<close>)
  ultimately show ?thesis
    using demo_loaded [of "''0''"] e
    by (cases "connect (\<lambda>_. []) demo_loads ?net (new_stream ''d'' ''t'' ''b'')")
      (simp add: main_program_def run_program_def constructed_def demo_startup_def start_panel_def appliance_body_def
        connect_first_def new_edge_def demo_args_def shut_down_def)
qed

theorem program_refines_edge_witness:
  "\<exists>fs e. run_edge (\<lambda>_. []) demo_loads (demo_args\<lparr>a_has_lcd := False\<rparr>) ''t'' ''b''
       (demo_network\<lparr>dialled := Refused ''no route''\<rparr>) fs = Some (Ok (), e) \<and>
     length fs = 6 \<and> None \<notin> set fs"
proof -
  from demo_program obtain left where
    "main_program demo_platform (\<lambda>_. []) demo_loads (demo_startup ''0'') (demo_args\<lparr>a_has_lcd := False\<rparr>)
       (map demo_tick demo_times) = (Ended (Ok ()), left)" by blast
  from program_refines_edge [OF this refl] show ?thesis
    by (auto simp: demo_startup_def demo_times_def crash_of_def)
qed

text \<open>
  C6. No alarm without pictures of a hazard. Take a program that ends with a confirmed incident, and what
  the detector found in the pictures of the camera, at their times and in their order. Then these
  observations have a part \<open>first # since\<close> that belongs to one incident: none was open before
  \<open>first\<close>, which has a fire or smoke over the gate's thresholds and opens one, and the same incident is open
  after every observation of the part. At its last observation, which has such a fire or smoke too,
  1.5 seconds or more have passed since \<open>first\<close>, and of the last ten observations up to it at least
  six have one.
\<close>

theorem alarm_has_pictures:
  assumes "main_program P dumps loads st args ts = (Ended r, left)" and "rem_edge left = Some e"
    and "confirmed (state (gate e))" and "v = default_verifier (a_device args) (st_boot st)"
    and "obs = program_observations P dumps loads st args ts"
  shows "prefix (map fst obs) (tick_times ts) \<and>
    list_all (\<lambda>(ns, ds). list_all (sound_detection (st_threshold st)) ds) obs \<and>
    (\<exists>before first since after i. obs = before @ (first # since) @ after \<and>
       fire_state.incident_id (state (Verifier.run before v)) = None \<and>
       (\<forall>c. prefix c since \<longrightarrow> fire_state.incident_id (state (Verifier.run (before @ first # c) v)) = Some i) \<and>
       relevant v (snd first) \<and> relevant v (snd (last (first # since))) \<and>
       1500000000 \<le> fst (last (first # since)) - fst first \<and>
       6 \<le> hit_count (last_n 10 (flags v (before @ first # since))))"
proof -
  note obs = program_gate [OF assms(1,2), folded assms(4,5)]
  note v = default_gate [of "a_device args" "st_boot st", folded assms(4)]
  have c: "confirm_ns v = 1500000000" by (simp add: assms(4) default_confirm_ns)
  from assms(3) have "confirmed (state (Verifier.run obs v))" by (simp add: obs(1))
  from confirmed_incident [OF v(4,5,3) this, unfolded v(1,2) c opened_by_def] obs(2,3) show ?thesis by blast
qed

theorem alarm_has_pictures_witness:
  "\<exists>obs before first since after. obs = program_observations demo_platform (\<lambda>_. []) demo_loads (demo_startup ''0'')
       (demo_args\<lparr>a_has_lcd := False\<rparr>) (map demo_tick demo_times) \<and> obs = before @ (first # since) @ after \<and>
     1500000000 \<le> fst (last (first # since)) - fst first \<and>
     6 \<le> hit_count (last_n 10 (flags (default_verifier ''d'' ''b'') (before @ first # since)))"
proof -
  have v: "default_verifier ''d'' ''b'' = default_verifier (a_device (demo_args\<lparr>a_has_lcd := False\<rparr>)) (st_boot (demo_startup ''0''))"
    by (simp add: demo_args_def demo_startup_def)
  from demo_program obtain left e where
    "main_program demo_platform (\<lambda>_. []) demo_loads (demo_startup ''0'') (demo_args\<lparr>a_has_lcd := False\<rparr>)
       (map demo_tick demo_times) = (Ended (Ok ()), left)" "rem_edge left = Some e" "confirmed (state (gate e))" by blast
  from alarm_has_pictures [OF this v refl] show ?thesis by blast
qed

text \<open>
  C40. The program lets go of what it holds once it has got as far as its \<^verbatim>\<open>try\<close>: however it ends from
  there, the connection is closed, the helper of the camera has ended and been collected, and the
  panel, if there is one, has no helper: the one it had does not run and has got the logo or a first
  part of it and nothing else. The other outcomes are the ways to stop before the \<^verbatim>\<open>try\<close>, and
  nothing is closed on them: a refused detector, a logo that cannot be drawn, a frame rate of zero, and
  an interrupt while the detector or the panel is constructed or after it leave the camera as it was
  opened, its helper still running; on the others nothing was opened.
  (An interrupt in the loop comes between two turns here; \<open>shut_down_lets_go\<close> shows that the \<^verbatim>\<open>finally\<close>
  lets go of everything in any state of the parts. A second interrupt while it closes is not modelled.)
\<close>

theorem program_lets_go:
  assumes "main_program P dumps loads st args ts = (out, left)"
  shows "pred_option (\<lambda>e. \<not> link (link_of e)) (rem_edge left) \<and>
    (case out of
       Ended r \<Rightarrow> (\<exists>cam. rem_camera left = Some cam \<and> camera_ended cam) \<and> pred_option (panel_left st) (rem_panel left)
     | _ \<Rightarrow> (if holds_camera out
         then \<exists>cam. opened st = Ok cam \<and> rem_camera left = Some cam \<and>
           (starts_with ''qnx:'' (st_source st) \<longrightarrow> \<not> camera_ended cam)
         else left = nothing_left))"
  using main_program_ends [OF assms]
proof (elim disjE exE conjE)
  fix model manifest
  assume "constructed loads st args model manifest = Err (out, left)"
  from constructed_Err [OF this] opened_helper_runs [of st] show ?thesis
    by (cases out) (auto simp: holds_camera_def)
next
  fix model manifest a0 r a
  assume a0: "constructed loads st args model manifest = Ok a0" and out: "out = Ended r" "left = shut_down st a"
    and a: "appliance_body P dumps loads args (st_network st) ts a0 = (r, a)"
  from shut_down_lets_go [OF program_panel [OF a constructed_Ok [OF a0]]] show ?thesis by (simp add: out)
qed (simp add: nothing_left_def holds_camera_def)

text \<open>A camera helper that writes nothing and a panel helper that has to be killed.\<close>

definition demo_stop :: "outcome \<times> remains" where
  "demo_stop = main_program demo_platform (\<lambda>_. []) demo_loads (demo_startup ''qnx:'') demo_args [demo_tick 0]"

theorem program_lets_go_witness:
  "\<exists>cam l. demo_stop = (Ended (Err (ReadFailed (BadFrame HelperStopped))), snd demo_stop) \<and>
     rem_camera (snd demo_stop) = Some cam \<and> camera_ended cam \<and>
     rem_panel (snd demo_stop) = Some l \<and> panel_left (demo_startup ''qnx:'') l"
proof -
  have "fst demo_stop = Ended (Err (ReadFailed (BadFrame HelperStopped))) \<and>
      rem_camera (snd demo_stop) \<noteq> None \<and> rem_panel (snd demo_stop) \<noteq> None"
    by code_simp
  then obtain cam l where d: "demo_stop = (Ended (Err (ReadFailed (BadFrame HelperStopped))), snd demo_stop)"
    "rem_camera (snd demo_stop) = Some cam" "rem_panel (snd demo_stop) = Some l" by (metis option.exhaust prod.collapse)
  from program_lets_go [OF d(1) [unfolded demo_stop_def]] d show ?thesis by (auto simp: demo_stop_def)
qed

text \<open>
  Two starts that leave helpers behind: a panel of a width below zero, and an interrupt in the pause of
  the panel's constructor.
\<close>

lemma start_leaves_helpers:
  "(case main_program demo_platform (\<lambda>_. []) demo_loads ((demo_startup ''qnx:'')\<lparr>st_panel_size := (- 1, 320)\<rparr>) demo_args [] of
      (out, left) \<Rightarrow> out = NoPanel \<and> map_option camera_ended (rem_camera left) = Some False) \<and>
   (case main_program demo_platform (\<lambda>_. []) demo_loads ((demo_startup ''qnx:'')\<lparr>st_interrupt := Some AtPanel\<rparr>) demo_args [] of
      (out, left) \<Rightarrow> out = Interrupted AtPanel \<and> map_option camera_ended (rem_camera left) = Some False \<and>
        map_option panel (rem_panel left) = Some (Some spawned))"
  by (intro conjI; code_simp)

end
