(* ===== verification/Alarm.thy ===== *)
theory Alarm
  imports Pipeline Appliance
begin

text \<open>
  The device program of theory \<open>Appliance\<close> and the backend put together, from the lens of the camera
  to the request to the voice provider: what theory \<open>Pipeline\<close> shows of the frames an edge is
  given holds of the frames the program makes of its pictures.
\<close>

section \<open>A run on a steady network\<close>

text \<open>
  What is asked of the turns from a moment on: a clock that does not run backwards and a network that
  holds; of OpenCV: that a picture is encoded with the markers of a JPEG; and of the model: that its
  scores are at most 1.
\<close>

fun turns_fit :: "int \<Rightarrow> 'img tick list \<Rightarrow> bool" where
  "turns_fit t [] = True"
| "turns_fit t (k # ks) \<longleftrightarrow> t \<le> c_ns (tick_readings k) \<and> sqlite_int (c_ns (tick_readings k)) \<and>
     (\<forall>n. transferred (c_network (tick_readings k) n) = Sent) \<and> turns_fit (c_ns (tick_readings k)) ks"

definition jpegs_ok :: "'img platform \<Rightarrow> bool" where
  "jpegs_ok P \<longleftrightarrow> (\<forall>img q jpeg. encode_jpeg (pf_cv P) img q = Some jpeg \<longrightarrow> jpeg_ok jpeg)"

definition scores_ok :: "frame list \<Rightarrow> bool" where
  "scores_ok obs \<longleftrightarrow> list_all (\<lambda>(ns, ds). list_all (\<lambda>x. confidence x \<le> 1) ds) obs"

text \<open>
  The program runs until it is interrupted, connected from the start; \<open>e\<close> is what is left of its
  verifier and its stream.
\<close>

definition steady_program ::
  "'img platform \<Rightarrow> dumps \<Rightarrow> loads \<Rightarrow> startup \<Rightarrow> edge_args \<Rightarrow> 'img tick list \<Rightarrow> edge \<Rightarrow> bool" where
  "steady_program P dumps loads st args ts e \<longleftrightarrow>
     (\<exists>left. main_program P dumps loads st args ts = (Ended (Ok ()), left) \<and> rem_edge left = Some e)
     \<and> fst (connect dumps loads (st_network st) (new_stream (a_device args) (st_token st) (st_boot st))) = Ok True
     \<and> 0 \<le> st_threshold st \<and> scores_ok (program_observations P dumps loads st args ts)
     \<and> jpegs_ok P \<and> turns_fit 0 ts \<and> names_fit (a_device args) (st_boot st) (int (length ts))"

text \<open>The settings with which the backend places calls.\<close>

definition can_call :: "env \<Rightarrow> bool" where
  "can_call env \<longleftrightarrow> demo_calls_enabled (conf env) \<and> call_provider (conf env) = ''elevenlabs''
     \<and> elevenlabs_api_key (conf env) \<noteq> [] \<and> dispatch_agent_id (conf env) \<noteq> [] \<and> phone_number_id (conf env) \<noteq> []
     \<and> validate_destination (demo_dispatch_number (conf env)) (demo_allowed_numbers (conf env)) = Ok ()
     \<and> 0 < max_calls_per_incident (conf env)"

section \<open>The frames of the run\<close>

lemma given_Some: "None \<notin> set fs \<Longrightarrow> map Some (given fs) = fs \<and> length (given fs) = length fs"
  by (induction fs rule: given.induct) auto

lemma frames_fit_given:
  assumes "list_all2 (from_tick P) ts fs" and "None \<notin> set fs" and "turns_fit t ts" and "jpegs_ok P"
    and "\<forall>x \<in> set (map shown (given fs)). \<forall>d \<in> set (snd x). unit_confidence d"
  shows "frames_fit t fs"
  using assms
proof (induction arbitrary: t rule: list_all2_induct)
  case (Cons k ks f fs)
  from Cons.prems(1) obtain x where x: "f = Some x" by (cases f) auto
  with Cons.hyps(1) obtain img ds jpeg q where f: "x = seen P k img ds jpeg" "encode_jpeg (pf_cv P) img q = Some jpeg"
    by (auto simp: from_tick_def)
  have "frame_fits t x" using Cons.prems(2-4) f x by (auto simp: frame_fits_def jpegs_ok_def shown_def)
  moreover have "frames_fit (c_ns x) fs"
    using Cons.IH [of "c_ns x"] Cons.prems f x by simp
  ultimately show ?case by (simp add: x)
qed simp

lemma observed_unit:
  assumes "list_all (\<lambda>(ns, ds). list_all (sound_detection thr) ds) obs" and "scores_ok obs" and "0 \<le> thr"
  shows "\<forall>x \<in> set obs. \<forall>d \<in> set (snd x). unit_confidence d"
  using assms by (fastforce simp: list_all_iff scores_ok_def unit_confidence_def sound_detection_def)

lemma steady_program_run:
  assumes "steady_program P dumps loads st args ts e"
  obtains fs e0 where "steady_run dumps loads args (st_token st) (st_boot st) (st_network st) fs e0"
    "gate e0 = gate e" "wire (link_of e0) = wire (link_of e)" "last_sent (link_of e0) = last_sent (link_of e)"
    "length (program_observations P dumps loads st args ts) = length ts"
proof -
  let ?obs = "program_observations P dumps loads st args ts"
  from assms obtain left where left: "main_program P dumps loads st args ts = (Ended (Ok ()), left)" "rem_edge left = Some e"
    by (auto simp: steady_program_def)
  from program_refines_run_edge [OF left(1)] left(2) obtain fs where
    run: "run_edge dumps loads args (st_token st) (st_boot st) (st_network st) fs = Some (Ok (), e)"
    and frames: "list_all2 (from_tick P) ts fs" "None \<notin> set fs" "length fs = length ts" "map shown (given fs) = ?obs"
    by (auto simp: crash_of_def is_ok_def)
  from run obtain e0 where e0: "edge_loop dumps loads args (st_token st) (st_boot st) (st_network st) fs = (Ok (), e0)"
    "e = e0\<lparr>link_of := close_stream (link_of e0)\<rparr>"
    by (auto simp: run_edge_def split: if_splits prod.splits)
  have "frames_fit 0 fs"
    using frames_fit_given [OF frames(1,2)] observed_unit [OF program_gate(3) [OF left]] assms
    by (simp add: steady_program_def frames(4))
  with e0(1) assms frames(3) have "steady_run dumps loads args (st_token st) (st_boot st) (st_network st) fs e0"
    by (simp add: steady_run_def steady_program_def)
  moreover have "length ?obs = length ts" using given_Some [OF frames(2)] frames(3,4) by (metis length_map)
  ultimately show ?thesis using that e0(2) by (simp add: close_stream_def)
qed

section \<open>Properties\<close>

text \<open>
  C1. From the lens to the telephone: the program runs on a network that holds, and in every picture
  of its camera, at least six and over at least 1.5 seconds, the detector finds a fire or smoke
  over the gate's thresholds. Its bytes reach an armed backend that may call, in any chunks, at
  any times. Then an incident is open, and the timer of that incident, once it fires
  unanswered, sends a request to the provider.
\<close>

theorem fire_in_view_is_dialled:
  assumes "steady_program P dumps loads st args ts e"
    and "\<forall>x \<in> set (program_observations P dumps loads st args ts).
           relevant (default_verifier (a_device args) (st_boot st)) (snd x)"
    and "6 \<le> length ts" and "1500000000 \<le> last (tick_times ts) - hd (tick_times ts)"
    and "compatible env dumps args (st_token st)" and "idle env args (st_boot st) w" and "arrives env e as"
    and "can_call env" and "attempts (store w) = []"
    and "(s', w') = on_chunks env as (new_session env wr, w)"
  shows "\<exists>i q. fire_state.incident_id (state (gate e)) = Some i \<and>
    requests (on_timeout env ck i w') = requests w @ [q]"
proof -
  let ?v = "default_verifier (a_device args) (st_boot st)" and ?obs = "program_observations P dumps loads st args ts"
  from assms(1) obtain left where left: "main_program P dumps loads st args ts = (Ended (Ok ()), left)" "rem_edge left = Some e"
    by (auto simp: steady_program_def)
  from steady_program_run [OF assms(1)] obtain fs e0 where
    e0: "steady_run dumps loads args (st_token st) (st_boot st) (st_network st) fs e0"
    "gate e0 = gate e" "wire (link_of e0) = wire (link_of e)" "last_sent (link_of e0) = last_sent (link_of e)"
    and len: "length ?obs = length ts" by blast
  have times: "map fst ?obs = tick_times ts"
    using program_gate(2) [OF left] len by (metis length_map not_equal_is_parallel parallelD1)
  have ne: "?obs \<noteq> []" using assms(3) len by auto
  note v = default_gate [of "a_device args" "st_boot st"]
  have "fst (last ?obs) - fst (hd ?obs) = last (tick_times ts) - hd (tick_times ts)"
    using ne by (simp add: times [symmetric] last_map hd_map)
  with sustained_confirmed [OF v(4,5) assms(2) ne] v(1,2) default_confirm_ns assms(3,4) len
  have "confirmed (state (Verifier.run ?obs ?v))" by simp
  then have c: "confirmed (state (gate e0))" using program_gate(1) [OF left] e0(2) by simp
  have "wf (gate e0)" using program_gate(1) [OF left] wf_run [OF v(4), of ?obs] e0(2) by simp
  with c obtain i where i: "fire_state.incident_id (state (gate e0)) = Some i"
    by (auto simp: wf_def split: option.splits)
  have "arrives env e0 as" using assms(7) e0(3,4) by (simp add: arrives_def)
  from unanswered_fire_is_dialled [OF e0(1) assms(5,6) this i c _ _ _ _ _ _ assms(9) _ assms(10), of ck] assms(8) i e0(2)
  show ?thesis by (auto simp: can_call_def)
qed

section \<open>An example\<close>

text \<open>The frames of the example of theory \<open>Pipeline\<close>, made of pictures.\<close>

definition lens_invoke :: "int \<Rightarrow> tensor \<Rightarrow> int \<Rightarrow> ndarray" where
  "lens_invoke i t j = \<lparr>nd_shape = [1, 2, 6],
     nd_values = [1/2, 1/2, 1, 1, 1, 1/8, 1/2, 1/2, 1/4, 1/4, 1/8, 1/4]\<rparr>"

definition lens_platform :: "int list platform" where
  "lens_platform = \<lparr>pf_cv = \<lparr>from_nv12 = (\<lambda>w h raw. None), resize_to = (\<lambda>img w h. img),
       encode_jpeg = (\<lambda>img q. Some [0xFF, 0xD8, 0xFF, 0xD9])\<rparr>,
     pf_vision = demo_vision, pf_shape = (\<lambda>_. (1, 1))\<rparr>"

definition lens_tick :: "int \<Rightarrow> int list tick" where
  "lens_tick t = \<lparr>tick_captured = Some [0, 0, 0], tick_invoke = lens_invoke, tick_readings = demo_frame t []\<rparr>"

definition lens_ticks :: "int list tick list" where
  "lens_ticks = map (\<lambda>k. lens_tick (k * 500000000)) [0, 1, 2, 3, 4, 5]"

definition lens_startup :: startup where
  "lens_startup = (demo_startup ''0'')\<lparr>st_token := ''replace-me'', st_network := demo_network\<rparr>"

lemma lens_detects: "detect demo_vision lens_invoke (demo_detector ''fire'' ''smoke'') [0, 0, 0] = Ok [pipe_fire]"
proof -
  have sums: "fdiv 1 2 = 1/2" "fsub (1/2) (1/2) = 0" "fadd (1/2) (1/2) = 1" by code_simp+
  have row: "decode_row (1/2) [(0, ''fire''), (1, ''smoke'')] False 320 320 (1/2, 1/2, 1, 1) [1, 1/8] = Some pipe_fire"
    by (simp add: decode_row_def hazard_class_def label_of_def Let_def pipe_fire_def sums)
  have "label_table [(''0'', JStr ''fire''), (''1'', JStr ''smoke'')] [] = Ok [(0, ''fire''), (1, ''smoke'')]"
    by code_simp
  moreover have "decode_yolo_v8 (1/2) [(0, ''fire''), (1, ''smoke'')] False 320 320 2 2 6
      [[1/2, 1/2, 1, 1, 1, 1/8], [1/2, 1/2, 1/4, 1/4, 1/8, 1/4]] = Ok [pipe_fire]"
    by (simp add: decode_yolo_v8_def decode_yolo_rows_def map_filter_simps split_row_def row
        class_aware_nms_def by_confidence_def)
       (simp add: decode_row_def Let_def)
  ultimately show ?thesis
    by (simp add: detect_def demo_vision_def lens_invoke_def demo_detector_def demo_manifest_def
        demo_detail_def field_of_def int_at_def get_def get_default_def prepare_input_tensor_def
        real_values_def f32_def round_bits_def output_of_def dequantize_def squeeze_def
        decode_predictions_def rows_of_def upt_rec Let_def)
qed

lemma lens_acknowledged:
  "fst (receive_ack demo_loads [take 3 demo_ack, drop 3 demo_ack]) = Ok [(''accepted'', JBool True)]"
  by code_simp

lemma lens_startup_fields:
  "st_model lens_startup = Some [1]" "st_manifest lens_startup = Some [2]" "st_network lens_startup = demo_network"
  "st_token lens_startup = ''replace-me''" "st_boot lens_startup = ''b''" "st_threshold lens_startup = 1/2"
  by (simp_all add: lens_startup_def demo_startup_def)

definition lens_appliance :: "edge \<Rightarrow> appliance" where
  "lens_appliance e = \<lparr>app_camera = \<lparr>cam_width = 1, cam_height = 1, cam_feed = Capture\<rparr>,
     app_detector = demo_detector ''fire'' ''smoke'', app_panel = None, app_edge = e\<rparr>"

lemma lens_constructed:
  "constructed demo_loads lens_startup pipe_args [1] [2] = Ok (lens_appliance (new_edge pipe_args ''replace-me'' ''b''))"
proof -
  have "open_camera True [] (\<lambda>_. True) ''0'' 1 1 = Ok \<lparr>cam_width = 1, cam_height = 1, cam_feed = Capture\<rparr>" by code_simp
  then show ?thesis
    using demo_loaded [of "''0''"]
    by (simp add: constructed_def lens_startup_def demo_startup_def start_panel_def pipe_args_def lens_appliance_def)
qed

text \<open>The turns of the program are those of the example.\<close>

lemma lens_loop:
  assumes "frames_loop code_dumps demo_loads pipe_args (map Some pipe_frames) e = (Ok (), e0)"
  shows "appliance_loop lens_platform code_dumps demo_loads pipe_args lens_ticks (lens_appliance e) = (Ok (), lens_appliance e0) \<and>
    observations lens_platform code_dumps demo_loads pipe_args lens_ticks (lens_appliance e) = map shown pipe_frames"
proof -
  let ?f = "\<lambda>t. pipe_frame (c_ns (tick_readings t))"
  have fs: "map ?f lens_ticks = pipe_frames"
    by (simp add: lens_ticks_def pipe_frames_def lens_tick_def demo_frame_def)
  have e0: "lens_appliance e0 = (lens_appliance e)\<lparr>app_edge := e0\<rparr>" by (simp add: lens_appliance_def)
  show ?thesis
    unfolding fs [symmetric] e0
  proof (rule captured_turns)
    show "frames_loop code_dumps demo_loads pipe_args (map Some (map ?f lens_ticks)) (app_edge (lens_appliance e)) = (Ok (), e0)"
      using assms by (simp add: fs lens_appliance_def)
  qed (auto simp: lens_appliance_def lens_ticks_def lens_tick_def lens_platform_def pipe_frame_def demo_frame_def
      seen_def lens_detects)
qed

lemma lens_program:
  assumes "edge_loop code_dumps demo_loads pipe_args ''replace-me'' ''b'' demo_network (map Some pipe_frames) = (Ok (), e0)"
    and "fst (connect code_dumps demo_loads demo_network (new_stream (a_device pipe_args) ''replace-me'' ''b'')) = Ok True"
  shows "\<exists>left. main_program lens_platform code_dumps demo_loads lens_startup pipe_args lens_ticks = (Ended (Ok ()), left)
      \<and> rem_edge left = Some (e0\<lparr>link_of := close_stream (link_of e0)\<rparr>)"
    and "program_observations lens_platform code_dumps demo_loads lens_startup pipe_args lens_ticks = map shown pipe_frames"
proof -
  let ?e = "new_edge pipe_args ''replace-me'' ''b''"
  obtain s where s: "connect code_dumps demo_loads demo_network (link_of ?e) = (Ok True, s)"
    using assms(2) by (cases "connect code_dumps demo_loads demo_network (link_of ?e)") (simp add: new_edge_def)
  then have "frames_loop code_dumps demo_loads pipe_args (map Some pipe_frames) (?e\<lparr>link_of := s\<rparr>) = (Ok (), e0)"
    using assms(1) by (simp add: edge_loop_def Let_def)
  note loop = lens_loop [OF this]
  have first: "connect_first code_dumps demo_loads demo_network (lens_appliance ?e) = (Ok (), lens_appliance (?e\<lparr>link_of := s\<rparr>))"
    using s by (simp add: connect_first_def lens_appliance_def)
  show "\<exists>left. main_program lens_platform code_dumps demo_loads lens_startup pipe_args lens_ticks = (Ended (Ok ()), left)
      \<and> rem_edge left = Some (e0\<lparr>link_of := close_stream (link_of e0)\<rparr>)"
    using first loop by (simp add: main_program_def run_program_def appliance_body_def lens_constructed
        lens_startup_fields shut_down_def) (simp add: lens_appliance_def)
  show "program_observations lens_platform code_dumps demo_loads lens_startup pipe_args lens_ticks = map shown pipe_frames"
    using first loop by (simp add: program_observations_def lens_constructed lens_startup_fields)
qed

lemma lens_run:
  "\<exists>e. steady_program lens_platform code_dumps demo_loads lens_startup pipe_args lens_ticks e \<and>
     program_observations lens_platform code_dumps demo_loads lens_startup pipe_args lens_ticks = map shown pipe_frames \<and>
     arrives pipe_env e (pipe_arrivals e)"
proof -
  from pipe_run [OF lens_acknowledged] obtain e0 where
    e0: "steady_run code_dumps demo_loads pipe_args ''replace-me'' ''b'' demo_network (map Some pipe_frames) e0"
    "arrives pipe_env e0 (pipe_arrivals e0)" by blast
  let ?e = "e0\<lparr>link_of := close_stream (link_of e0)\<rparr>"
  note program = lens_program [of e0] e0(1) [unfolded steady_run_def]
  have "scores_ok (map shown pipe_frames)"
    by (simp add: scores_ok_def shown_def pipe_frames_def pipe_frame_def demo_frame_def pipe_fire_def)
  moreover have "turns_fit 0 lens_ticks"
    by (simp add: lens_ticks_def lens_tick_def demo_frame_def demo_network_def sqlite_int_def)
  moreover have "names_fit (a_device pipe_args) ''b'' (int (length lens_ticks))"
    using pipe_names by (simp add: lens_ticks_def)
  moreover have "jpegs_ok lens_platform" by (simp add: jpegs_ok_def lens_platform_def jpeg_ok_def)
  ultimately have "steady_program lens_platform code_dumps demo_loads lens_startup pipe_args lens_ticks ?e"
    using program by (simp add: steady_program_def lens_startup_fields)
  moreover have "arrives pipe_env ?e (pipe_arrivals ?e)"
    using e0(2) by (simp add: arrives_def pipe_arrivals_def close_stream_def)
  ultimately show ?thesis using program by blast
qed

theorem fire_in_view_is_dialled_witness:
  "\<exists>e i as s' w'. steady_program lens_platform code_dumps demo_loads lens_startup pipe_args lens_ticks e \<and>
     fire_state.incident_id (state (gate e)) = Some i \<and>
     (s', w') = on_chunks pipe_env as (new_session pipe_env 1, pipe_world) \<and>
     length (requests (on_timeout pipe_env (\<lambda>_. 200) i w')) = 1"
proof -
  from lens_run obtain e where e: "steady_program lens_platform code_dumps demo_loads lens_startup pipe_args lens_ticks e"
    "program_observations lens_platform code_dumps demo_loads lens_startup pipe_args lens_ticks = map shown pipe_frames"
    "arrives pipe_env e (pipe_arrivals e)" by blast
  obtain s' w' where w': "(s', w') = on_chunks pipe_env (pipe_arrivals e) (new_session pipe_env 1, pipe_world)"
    by (metis prod.collapse)
  note st = lens_startup_fields(4,5)
  have "fl (55/100) \<le> 1" by code_simp
  then have rel: "\<forall>x \<in> set (map shown pipe_frames). relevant (default_verifier (a_device pipe_args) (st_boot lens_startup)) (snd x)"
    by (simp add: pipe_frames_def shown_def pipe_frame_def demo_frame_def pipe_fire_def relevant_def class_max_def
        max_default_def default_verifier_def fire_verifier_def)
  have times: "6 \<le> length lens_ticks" "1500000000 \<le> last (tick_times lens_ticks) - hd (tick_times lens_ticks)"
    by (simp_all add: lens_ticks_def lens_tick_def demo_frame_def)
  have "validate_destination (demo_dispatch_number (conf pipe_env)) (demo_allowed_numbers (conf pipe_env)) = Ok ()"
    by code_simp
  then have can: "can_call pipe_env"
    by (simp add: can_call_def pipe_env_def call_settings_def default_settings_def)
  have w: "attempts (store pipe_world) = []" "requests pipe_world = []"
    by (simp_all add: pipe_world_def new_world_def empty_db_def)
  from fire_in_view_is_dialled [OF e(1) rel [folded e(2)] times _ _ e(3) can w(1) w', of "\<lambda>_. 200"]
    pipe_compatible pipe_idle w(2) st
  obtain i q where "fire_state.incident_id (state (gate e)) = Some i" "requests (on_timeout pipe_env (\<lambda>_. 200) i w') = [q]"
    by auto
  with e(1) w' show ?thesis by (metis One_nat_def length_Cons list.size(3))
qed

end
