(* ===== verification/Prepare.thy ===== *)
theory Prepare
  imports Inference Codec "HOL-Library.Char_ord" "HOL-Library.List_Lexorder"
begin

text \<open>
  The tools that produce a model with its manifest: \<^verbatim>\<open>src/poc/model/prepare-yolov8.py\<close>, which
  converts trained weights, \<^verbatim>\<open>generate_manifest.py\<close> and \<^verbatim>\<open>validate_tflite.py\<close> of
  \<^verbatim>\<open>src/training/ignis_training\<close>, and that what the first writes is accepted and run by the
  detector of theory \<open>Inference\<close>. Ultralytics, the files and SHA-256 are not under \<^verbatim>\<open>src/\<close>:
  the class names of the weights, the exported path, the paths found below it, the contents
  of a file and the digest are arguments. The \<open>imgsz\<close>, \<open>format\<close> and \<open>data\<close> options only
  reach the exporter; copying the model and writing the manifest are the result.
\<close>

section \<open>Choosing the exported model\<close>

text \<open>\<open>path.name\<close>, and whether \<open>path.suffix\<close> is \<open>.tflite\<close>.\<close>

definition path_name :: "string \<Rightarrow> string" where
  "path_name p = last (split_on (CHR ''/'') p)"

definition tflite_suffix :: "string \<Rightarrow> bool" where
  "tflite_suffix p \<longleftrightarrow> suffix ''.tflite'' (path_name p) \<and> path_name p \<noteq> ''.tflite''"

definition tflite_candidates :: "string \<Rightarrow> string list \<Rightarrow> bool \<Rightarrow> string list" where
  "tflite_candidates exported found int8 =
     (let candidates = (if tflite_suffix exported then [exported] else found);
          marker = (if int8 then ''int8'' else ''float32'');
          preferred = filter (\<lambda>p. sublist marker (lower (path_name p))) candidates
      in if preferred \<noteq> [] then preferred else candidates)"

section \<open>Preparing a model\<close>

datatype prepare_error =
  NeedsData | MissingHazard | AmbiguousOutput | NotOneTensorEach | UnsupportedShape

text \<open>\<open>model.names\<close> is a dictionary by index or a list.\<close>

datatype class_names = NameDict "(int \<times> string) list" | NameList "string list"

fun name_items :: "class_names \<Rightarrow> (int \<times> string) list" where
  "name_items (NameDict d) = d"
| "name_items (NameList ns) = zip (map int [0..<length ns]) ns"

definition class_labels :: "class_names \<Rightarrow> labels" where
  "class_labels names = map (\<lambda>(i, n). (i, lower (strip n))) (name_items names)"

definition ignored_of :: "labels \<Rightarrow> string list" where
  "ignored_of labels = sort (remdups (filter (\<lambda>n. n \<notin> {''fire'', ''smoke''}) (map snd labels)))"

definition prepared_input :: "tensor_detail \<Rightarrow> dict" where
  "prepared_input inp =
     (let shape = tensor_shape inp in
      [(''index'', JInt 0), (''width'', JInt (shape ! 2)), (''height'', JInt (shape ! 1)),
       (''channels'', JInt (shape ! 3)), (''layout'', JStr ''NHWC''), (''dtype'', JStr (tensor_dtype inp)),
       (''color_order'', JStr ''RGB''), (''normalization'', JObj [(''type'', JStr ''zero_to_one'')])])"

definition prepared_outputs :: dict where
  "prepared_outputs =
     [(''decoder'', JStr ''yolo_v8''), (''predictions_index'', JInt 0),
      (''box_order'', JStr ''center_x_center_y_width_height''),
      (''coordinates_are_input_pixels'', JBool False), (''classes_are_zero_based'', JBool True)]"

definition written_labels :: "labels \<Rightarrow> dict" where
  "written_labels labels = map (\<lambda>(i, n). (str_int i, JStr n)) labels"

definition prepared_manifest ::
  "string \<Rightarrow> string \<Rightarrow> tensor_detail \<Rightarrow> labels \<Rightarrow> dict" where
  "prepared_manifest stem digest inp labels =
     [(''schema_version'', JInt 1), (''model_name'', JStr stem), (''model_sha256'', JStr digest),
      (''input'', JObj (prepared_input inp)), (''outputs'', JObj prepared_outputs),
      (''labels'', JObj (written_labels labels)),
      (''ignored_labels'', JArr (map JStr (ignored_of labels)))]"

text \<open>\<open>main\<close>: the bytes of the model copied to the output and the manifest.\<close>

definition prepare ::
  "interpreter \<Rightarrow> (bytes \<Rightarrow> string) \<Rightarrow> (string \<Rightarrow> bytes) \<Rightarrow> string \<Rightarrow> bool \<Rightarrow> string option \<Rightarrow> class_names
   \<Rightarrow> string \<Rightarrow> string list \<Rightarrow> (prepare_error, bytes \<times> dict) result" where
  "prepare interpreter sha256_hex contents stem int8 data names exported found =
     (if int8 \<and> (data = None \<or> data = Some []) then Err NeedsData
      else let labels = class_labels names in
        if \<not> {''fire'', ''smoke''} \<subseteq> set (map snd labels) then Err MissingHazard
        else (case tflite_candidates exported found int8 of
          [p] \<Rightarrow>
            (let model = contents p in
             case interpreter model of
               ([inp], [out]) \<Rightarrow>
                 (let shape = tensor_shape inp in
                  if length shape \<noteq> 4 \<or> shape ! 0 \<noteq> 1 \<or> shape ! 3 \<noteq> 3 then Err UnsupportedShape
                  else Ok (model, prepared_manifest stem (sha256_hex model) inp labels))
             | _ \<Rightarrow> Err NotOneTensorEach)
        | _ \<Rightarrow> Err AmbiguousOutput))"

section \<open>The manifest of the training tools\<close>

definition generate_manifest :: "string \<Rightarrow> int \<Rightarrow> int \<Rightarrow> dict" where
  "generate_manifest digest width height =
     [(''schema_version'', JInt 1),
      (''model_name'', JStr ''ignis_fire_smoke_detector''),
      (''model_sha256'', JStr digest),
      (''input'', JObj [(''index'', JInt 0), (''width'', JInt width), (''height'', JInt height),
         (''channels'', JInt 3), (''layout'', JStr ''NHWC''), (''dtype'', JStr ''uint8''),
         (''color_order'', JStr ''RGB''), (''normalization'', JObj [(''type'', JStr ''zero_to_one'')])]),
      (''outputs'', JObj [(''decoder'', JStr ''yolo_v8''), (''predictions_index'', JInt 0),
         (''box_order'', JStr ''center_x_center_y_width_height''),
         (''coordinates_are_input_pixels'', JBool True), (''classes_are_zero_based'', JBool True)]),
      (''labels'', JObj [(''0'', JStr ''fire''), (''1'', JStr ''smoke'')])]"

text \<open>\<open>validate_tflite\<close>: the shape compared with numbers of the manifest, equal as Python numbers.\<close>

fun number_of :: "json \<Rightarrow> rat option" where
  "number_of (JInt i) = Some (of_int i)"
| "number_of (JBool b) = Some (if b then 1 else 0)"
| "number_of (JNum x) = Some x"
| "number_of _ = None"

definition validate_tflite :: "dict \<Rightarrow> tensor_detail list \<Rightarrow> (model_error, unit) result" where
  "validate_tflite manifest inputs = (case inputs of
     [] \<Rightarrow> Err BadTensor
   | inp # _ \<Rightarrow>
       rbind (rbind (field_of manifest ''input'') as_dict) (\<lambda>expected.
       rbind (field_of expected ''height'') (\<lambda>h.
       rbind (field_of expected ''width'') (\<lambda>w.
         if map (\<lambda>n. Some (of_int n)) (tensor_shape inp) \<noteq> [Some 1, number_of h, number_of w, Some 3]
         then Err ShapeMismatch else Ok ()))))"

section \<open>Labels written and read back\<close>

lemma label_table_written:
  "distinct (map fst acc @ map fst ls) \<Longrightarrow>
   label_table (written_labels ls) acc = Ok (acc @ ls)"
proof (induction ls arbitrary: acc)
  case (Cons l ls)
  obtain i n where l: "l = (i, n)" by (cases l)
  with Cons.prems have "i \<notin> fst ` set acc" by auto
  then have "AList.update i n acc = acc @ [(i, n)]" by (induction acc) auto
  with Cons.IH [of "acc @ [(i, n)]"] Cons.prems show ?case by (simp add: l int_of_text_str_int written_labels_def)
qed (simp add: written_labels_def)

lemma lower_char_lower: "lower_char (lower_char c) = lower_char c"
proof -
  have "(of_char (char_of (of_char c + 32 :: nat)) :: nat) = of_char c + 32" if "(of_char c :: nat) \<le> 222"
    using that by (simp add: take_bit_nat_def)
  then show ?thesis by (auto simp: lower_char_def between_def)
qed

lemma lower_lower [simp]: "lower (lower s) = lower s"
  by (simp add: lower_def lower_char_lower)

lemma label_set_written:
  "label_set repr (map snd (written_labels (class_labels names))) =
   set (map snd (class_labels names))"
  by (force simp: label_set_def class_labels_def written_labels_def)

lemma label_set_ignored:
  "label_set repr (map JStr (ignored_of (class_labels names))) =
   set (map snd (class_labels names)) - {''fire'', ''smoke''}"
proof -
  have "set (ignored_of (class_labels names)) = set (map snd (class_labels names)) - {''fire'', ''smoke''}"
    by (auto simp: ignored_of_def)
  moreover have "map (\<lambda>v. lower (py_str repr v)) (map JStr (ignored_of (class_labels names)))
      = ignored_of (class_labels names)"
    by (auto simp: ignored_of_def class_labels_def intro!: map_idI)
  ultimately show ?thesis by (simp only: label_set_def)
qed

section \<open>A prepared model is accepted and runs\<close>

lemma prepare_Ok:
  assumes "prepare interpreter sha256_hex contents stem int8 data names exported found = Ok (model, m)"
  obtains inp out h w where "interpreter model = ([inp], [out])"
    "tensor_shape inp = [1, h, w, 3]" "m = prepared_manifest stem (sha256_hex model) inp (class_labels names)"
    "{''fire'', ''smoke''} \<subseteq> set (map snd (class_labels names))"
proof -
  from assms obtain inp out where io: "interpreter model = ([inp], [out])"
    and m: "m = prepared_manifest stem (sha256_hex model) inp (class_labels names)"
    and sh: "length (tensor_shape inp) = 4" "tensor_shape inp ! 0 = 1" "tensor_shape inp ! 3 = 3"
    and lab: "{''fire'', ''smoke''} \<subseteq> set (map snd (class_labels names))"
    by (auto simp: prepare_def Let_def split: if_splits list.splits prod.splits)
  from sh obtain h w where "tensor_shape inp = [1, h, w, 3]"
    by (auto simp: length_Suc_conv eval_nat_numeral)
  from that [OF io this m lab] show ?thesis .
qed

lemma prepared_contract:
  assumes "tensor_shape inp = [1, h, w, 3]" and "{''fire'', ''smoke''} \<subseteq> set (map snd (class_labels names))"
  shows "contract_holds repr (prepared_manifest stem digest inp (class_labels names)) inp 1"
proof -
  let ?ls = "class_labels names"
  let ?m = "prepared_manifest stem digest inp ?ls"
  have "get ?m ''input'' = Some (JObj (prepared_input inp))"
    "get ?m ''labels'' = Some (JObj (written_labels ?ls))"
    "elements (get_default ?m ''ignored_labels'' (JArr [])) = Ok (map JStr (ignored_of ?ls))"
    "get ?m ''outputs'' = Some (JObj prepared_outputs)"
    by (simp_all add: prepared_manifest_def get_default_def)
  moreover have "{''fire'', ''smoke''} \<subseteq> label_set repr (map snd (written_labels ?ls))"
    "label_set repr (map snd (written_labels ?ls)) - {''fire'', ''smoke''}
       = label_set repr (map JStr (ignored_of ?ls))"
    using assms(2) by (simp_all only: label_set_written label_set_ignored)
  moreover have "int_at (prepared_input inp) ''height'' = Ok h" "int_at (prepared_input inp) ''width'' = Ok w"
    "int_at (prepared_input inp) ''channels'' = Ok 3"
    "get (prepared_input inp) ''dtype'' = Some (JStr (tensor_dtype inp))"
    by (simp_all add: prepared_input_def int_at_def field_of_def assms(1) Let_def)
  moreover have "tensor_dtype inp = py_str repr (JStr (tensor_dtype inp))" by simp
  moreover have "let dec = decoder_of repr (get_default prepared_outputs ''decoder'' (JStr ''ssd'')) in
      dec \<in> {SSD, YOLO_V8} \<and>
      list_all (\<lambda>k. \<exists>i. int_at prepared_outputs k = Ok i \<and> 0 \<le> i \<and> i < 1) (decoder_keys dec)"
    by (simp add: prepared_outputs_def get_default_def int_at_def field_of_def)
  ultimately show ?thesis
    unfolding contract_holds_def using assms(1) by blast
qed

text \<open>Whether the input tensor can be filled: a float type, or a type with limits and a scale.\<close>

definition fillable :: "tensor_detail \<Rightarrow> bool" where
  "fillable detail \<longleftrightarrow> tensor_dtype detail \<in> {''float16'', ''float32'', ''float64''} \<or>
     int_limits (tensor_dtype detail) \<noteq> None \<and> fst (tensor_quantization detail) \<noteq> 0"

lemma prepare_input_fillable:
  assumes "fillable detail" and "get inp ''normalization'' = Some (JObj [(''type'', JStr ''zero_to_one'')])"
  shows "\<exists>t. prepare_input_tensor detail inp px = Ok t"
  using assms
  by (auto simp: prepare_input_tensor_def fillable_def real_values_def get_default_def get_def Let_def
      split: prod.splits option.splits simp del: int_limits.simps)

text \<open>
  C28. The pair of files that \<^verbatim>\<open>prepare-yolov8.py\<close> writes works on the device: for weights whose
  class indices are distinct, the detector loads the model with its manifest, and on every
  frame, when the model's prediction has 4 + classes columns (either way round), detection
  returns. The hypotheses on the interpreter are that it reports the same tensors for the
  same file and that the input tensor can be filled; on SHA-256 that its text is lower case.
\<close>

theorem prepared_model_runs:
  assumes "prepare interpreter sha256_hex contents stem int8 data names exported found = Ok (model, m)"
    and "distinct (map fst (name_items names))"
    and "loads mtext = Some (JObj m)" and "lower (sha256_hex model) = sha256_hex model"
    and "list_all fillable (fst (interpreter model))"
    and "\<And>t i. \<exists>k. nd_shape (squeeze (invoke (tensor_index (hd (fst (interpreter model)))) t i)) \<in>
           {[4 + length (name_items names), k], [k, 4 + length (name_items names)]}"
  shows "\<exists>d ds. load_detector loads repr sha256_hex interpreter model mtext thr = Ok d \<and>
           detect vis invoke d frame = Ok ds"
proof -
  from prepare_Ok [OF assms(1)] obtain inp out h w where io: "interpreter model = ([inp], [out])"
    and sh: "tensor_shape inp = [1, h, w, 3]"
    and m: "m = prepared_manifest stem (sha256_hex model) inp (class_labels names)"
    and lab: "{''fire'', ''smoke''} \<subseteq> set (map snd (class_labels names))" .
  define d where "d = \<lparr>d_manifest = m, d_threshold = thr, d_input = inp, d_outputs = [out]\<rparr>"
  have "load_detector loads repr sha256_hex interpreter model mtext thr = Ok d"
    using prepared_contract [OF sh lab] assms(3,4) io
    by (simp add: load_detector_Ok d_def m)
       (simp add: prepared_manifest_def get_default_def Let_def)
  moreover have "label_table (written_labels (class_labels names)) [] = Ok (class_labels names)"
    using label_table_written [of "[]" "class_labels names"] assms(2)
    by (simp add: class_labels_def o_def case_prod_unfold)
  moreover from assms(5) io obtain t where
    "prepare_input_tensor inp (prepared_input inp) (values_of vis (to_rgb vis (resize vis frame w h))) = Ok t"
    using prepare_input_fillable [of inp "prepared_input inp"] by (auto simp: prepared_input_def Let_def)
  moreover have "\<exists>ds. decode_predictions thr (class_labels names) px iw ih
      (squeeze (dequantize q (invoke (tensor_index inp) t i))) = Ok ds" for px iw ih q t i
    using assms(6) [of t i] io
    by (auto simp: decode_predictions_def decode_yolo_v8_def dequantize_def squeeze_def class_labels_def
        Let_def split: prod.splits)
  moreover have "get_default prepared_outputs ''decoder'' (JStr ''ssd'') = JStr ''yolo_v8''"
    "output_of d prepared_outputs got ''predictions_index'' =
       Ok (squeeze (dequantize (tensor_quantization out) (got (tensor_index out))))" for got
    by (simp_all add: prepared_outputs_def get_default_def output_of_def int_at_def field_of_def d_def)
  moreover have "field_of m ''input'' = Ok (JObj (prepared_input inp))"
    "field_of m ''outputs'' = Ok (JObj prepared_outputs)"
    "field_of m ''labels'' = Ok (JObj (written_labels (class_labels names)))"
    "int_at (prepared_input inp) ''width'' = Ok w" "int_at (prepared_input inp) ''height'' = Ok h"
    "field_of (prepared_input inp) ''color_order'' = Ok (JStr ''RGB'')"
    by (simp_all add: m prepared_manifest_def prepared_input_def int_at_def field_of_def sh Let_def)
  ultimately show ?thesis
    by (intro exI [of _ d]) (simp add: detect_def d_def)
qed

definition demo_model :: interpreter where
  "demo_model bs = ([demo_detail [1, 320, 320, 3]], [demo_detail [1, 7, 2]])"

definition demo_prepared :: dict where
  "demo_prepared = prepared_manifest ''best'' ''ab'' (demo_detail [1, 320, 320, 3])
     [(0, ''fire''), (1, ''person''), (2, ''smoke'')]"

lemma demo_prepare:
  "prepare demo_model (\<lambda>_. ''ab'') (\<lambda>_. []) ''best'' False None (NameList [''Fire'', '' person'', ''smoke''])
     ''/m/best'' [''/m/best/best_float16.tflite'', ''/m/best/best_float32.tflite'']
   = Ok ([], demo_prepared)"
proof -
  have "class_labels (NameList [''Fire'', '' person'', ''smoke'']) = [(0, ''fire''), (1, ''person''), (2, ''smoke'')]"
    by code_simp
  moreover have "tflite_candidates ''/m/best'' [''/m/best/best_float16.tflite'', ''/m/best/best_float32.tflite'']
      False = [''/m/best/best_float32.tflite'']"
    by code_simp
  ultimately show ?thesis
    by (simp add: prepare_def demo_model_def demo_prepared_def demo_detail_def)
qed

theorem prepared_model_runs_witness:
  "\<exists>d ds. load_detector code_loads (\<lambda>_. []) (\<lambda>_. ''ab'') demo_model [] (code_dumps demo_prepared) (1/2) = Ok d \<and>
     detect demo_vision (\<lambda>_ _ _. \<lparr>nd_shape = [1, 7, 2], nd_values = replicate 14 0\<rparr>) d [0, 0, 0] = Ok ds"
proof (rule prepared_model_runs [OF demo_prepare])
  show "distinct (map fst (name_items (NameList [''Fire'', '' person'', ''smoke''])))" by simp
  show "code_loads (code_dumps demo_prepared) = Some (JObj demo_prepared)" by (rule code_round_trip)
  show "lower ''ab'' = ''ab''" by code_simp
  show "list_all fillable (fst (demo_model []))" by (simp add: demo_model_def demo_detail_def fillable_def)
  show "\<exists>k. nd_shape (squeeze \<lparr>nd_shape = [1, 7, 2], nd_values = replicate 14 0\<rparr>) \<in>
      {[4 + length (name_items (NameList [''Fire'', '' person'', ''smoke''])), k],
       [k, 4 + length (name_items (NameList [''Fire'', '' person'', ''smoke'']))]}"
    by (simp add: squeeze_def)
qed

section \<open>The manifest of the training tools\<close>

text \<open>
  A model with the manifest of \<^verbatim>\<open>generate_manifest.py\<close> is loaded by the detector exactly when
  its input tensor is uint8 of shape [1, height, width, 3]; \<^verbatim>\<open>validate_tflite.py\<close> asks for the
  shape only.
\<close>

theorem generated_manifest_accepted:
  assumes "loads mtext = Some (JObj (generate_manifest (sha256_hex model) w h))"
    and "lower (sha256_hex model) = sha256_hex model"
    and "interpreter model = (inp # rest, out # outs)"
  shows "(is_ok (load_detector loads repr sha256_hex interpreter model mtext thr) \<longleftrightarrow>
       tensor_shape inp = [1, h, w, 3] \<and> tensor_dtype inp = ''uint8'') \<and>
    (is_ok (validate_tflite (generate_manifest (sha256_hex model) w h) (inp # rest)) \<longleftrightarrow>
       tensor_shape inp = [1, h, w, 3])"
proof
  have labels: "label_set repr [JStr ''fire'', JStr ''smoke''] = {''fire'', ''smoke''}"
  proof -
    have "lower ''fire'' = ''fire''" "lower ''smoke'' = ''smoke''" by code_simp+
    then show ?thesis by (simp add: label_set_def)
  qed
  have empty: "label_set repr [] = {}" by (simp add: label_set_def)
  let ?m = "generate_manifest (sha256_hex model) w h"
  have "validate_contract repr ?m inp (int (length (out # outs))) =
      (if tensor_shape inp \<noteq> [1, h, w, 3] then Err ShapeMismatch
       else if tensor_dtype inp \<noteq> ''uint8'' then Err DtypeMismatch else Ok ())"
    by (simp add: validate_contract_def generate_manifest_def field_of_def int_at_def get_default_def
        labels empty Let_def)
  moreover have "lower (py_str repr (get_default ?m ''model_sha256'' (JStr ''''))) = sha256_hex model"
    using assms(2) by (simp add: generate_manifest_def get_default_def)
  ultimately show "is_ok (load_detector loads repr sha256_hex interpreter model mtext thr) \<longleftrightarrow>
       tensor_shape inp = [1, h, w, 3] \<and> tensor_dtype inp = ''uint8''"
    using assms(1,3) by (simp add: load_detector_def)
  show "is_ok (validate_tflite ?m (inp # rest)) \<longleftrightarrow> tensor_shape inp = [1, h, w, 3]"
    by (auto simp: validate_tflite_def generate_manifest_def field_of_def map_eq_Cons_conv)
qed

definition demo_uint8 :: tensor_detail where
  "demo_uint8 = \<lparr>tensor_index = 0, tensor_shape = [1, 240, 320, 3], tensor_dtype = ''uint8'',
     tensor_quantization = (0, 0)\<rparr>"

theorem generated_manifest_accepted_witness:
  "is_ok (load_detector code_loads (\<lambda>_. []) (\<lambda>_. ''ab'') (\<lambda>_. ([demo_uint8], [demo_uint8]))
      [] (code_dumps (generate_manifest ''ab'' 320 240)) (1/2))"
proof -
  have "lower ''ab'' = ''ab''" by code_simp
  note accepted = generated_manifest_accepted [where sha256_hex = "\<lambda>_. ''ab''" and inp = demo_uint8
      and rest = "[]" and out = demo_uint8 and outs = "[]" and loads = code_loads and model = "[]"
      and interpreter = "\<lambda>_. ([demo_uint8], [demo_uint8])" and w = 320 and h = 240,
      OF code_round_trip this refl]
  show ?thesis by (rule accepted [THEN conjunct1, THEN iffD2]) (simp add: demo_uint8_def)
qed

text \<open>
  It declares pixel coordinates, though the exporter writes fractions, as \<^verbatim>\<open>prepare-yolov8.py\<close>
  remarks: a box in the middle of the frame is placed in the first hundredth of it.
\<close>

lemma generated_manifest_misplaces_boxes:
  "case decode_row (1/2) [(0, ''fire''), (1, ''smoke'')]
      (truthy (get_default (case get (generate_manifest dg 320 320) ''outputs'' of Some (JObj c) \<Rightarrow> c | _ \<Rightarrow> [])
         ''coordinates_are_input_pixels'' (JBool True))) 320 320 (1/2, 1/2, 1/4, 1/4) [3/4, 1/8] of
     Some d \<Rightarrow> (case bbox d of (x1, y1, x2, y2) \<Rightarrow> x2 < 1/100 \<and> y2 < 1/100)
   | None \<Rightarrow> False"
proof -
  have "max 0 (fsub (fdiv (1/2) 320) (fdiv (fdiv (1/4) 320) 2)) <
      min 1 (fadd (fdiv (1/2) 320) (fdiv (fdiv (1/4) 320) 2))"
    and "fadd (fdiv (1/2) 320) (fdiv (fdiv (1/4) 320) 2) < 1/100"
    by code_simp+
  then show ?thesis
    by (simp add: decode_row_def generate_manifest_def get_default_def hazard_class_def label_of_def Let_def
        not_le max_less_iff_conj)
qed

end
