(* ===== verification/Logs.thy ===== *)
theory Logs
  imports Frames Text
begin

text \<open>
  The structured log of the backend, \<^verbatim>\<open>src/backend/app/logging_config.py\<close>: \<^verbatim>\<open>redact\<close>, and the
  line that \<^verbatim>\<open>JsonFormatter\<close> writes for a record, whose context is a JSON value: a tuple in it, which
  \<^verbatim>\<open>redact\<close> would leave alone and the serialisation would write as a list, is outside the model. The time of day and the text of JSON are
  arguments; \<^verbatim>\<open>configure_logging\<close> only installs handlers and is left out.
\<close>

text \<open>
  \<open>str.casefold\<close> on code points below 256: the lower case, with the sharp s as two letters.
  (The micro sign folds to a letter outside the model; no sensitive key has either.)
\<close>

definition casefold :: "string \<Rightarrow> string" where
  "casefold s = concat (map (\<lambda>c. if ord c = 223 then ''ss'' else [lower_char c]) s)"

definition SENSITIVE_KEYS :: "string set" where
  "SENSITIVE_KEYS = {''authorization'', ''device_token'', ''elevenlabs_api_key'', ''xi-api-key'',
     ''twilio_auth_token'', ''signed_url''}"

abbreviation sensitive :: "string \<Rightarrow> bool" where
  "sensitive k \<equiv> casefold k \<in> SENSITIVE_KEYS"

fun redact :: "json \<Rightarrow> json" where
  "redact (JObj d) =
     JObj (map (\<lambda>(k, v). (k, if sensitive k then JStr ''[REDACTED]'' else redact v)) d)"
| "redact (JArr xs) = JArr (map redact xs)"
| "redact v = v"

text \<open>A log record: its level, its message and the attribute \<open>context\<close> where there is one.\<close>

record log_record =
  levelname :: string
  log_message :: string
  log_context :: "json option"

definition log_payload :: "string \<Rightarrow> log_record \<Rightarrow> dict" where
  "log_payload timestamp r =
     [(''timestamp'', JStr timestamp), (''severity'', JStr (levelname r)), (''service'', JStr ''backend''),
      (''message'', JStr (log_message r))]
     @ (case log_context r of
          None \<Rightarrow> []
        | Some c \<Rightarrow> if truthy c then [(''context'', redact c)] else [])"

definition format_record :: "dumps \<Rightarrow> string \<Rightarrow> log_record \<Rightarrow> bytes" where
  "format_record dumps timestamp r = dumps (log_payload timestamp r)"

section \<open>What a log line reveals\<close>

text \<open>Two values that differ at most in what stands under sensitive keys, at any depth.\<close>

fun alike :: "json \<Rightarrow> json \<Rightarrow> bool" where
  "alike (JObj d) (JObj e) \<longleftrightarrow>
     list_all2 (\<lambda>(k, v) (k', v'). k = k' \<and> (sensitive k \<or> alike v v')) d e"
| "alike (JArr xs) (JArr ys) \<longleftrightarrow> list_all2 alike xs ys"
| "alike a b \<longleftrightarrow> a = b"

text \<open>Every sensitive key stands before the mark, at any depth.\<close>

fun redacted :: "json \<Rightarrow> bool" where
  "redacted (JObj d) \<longleftrightarrow>
     list_all (\<lambda>(k, v). if sensitive k then v = JStr ''[REDACTED]'' else redacted v) d"
| "redacted (JArr xs) \<longleftrightarrow> list_all redacted xs"
| "redacted v \<longleftrightarrow> True"

lemma redact_eq_iff: "redact a = redact b \<longleftrightarrow> alike a b"
proof (induction a b rule: alike.induct)
  case (1 d e)
  let ?f = "\<lambda>(k, v). (k, if sensitive k then JStr ''[REDACTED]'' else redact v)"
  have "?f p = ?f q \<longleftrightarrow> (\<lambda>(k, v) (k', v'). k = k' \<and> (sensitive k \<or> alike v v')) p q"
    if "p \<in> set d" "q \<in> set e" for p q
    using 1 that by (cases p; cases q) auto
  then have "list_all2 (\<lambda>p q. ?f p = ?f q) d e \<longleftrightarrow>
      list_all2 (\<lambda>(k, v) (k', v'). k = k' \<and> (sensitive k \<or> alike v v')) d e"
    by (intro list.rel_cong refl)
  then show ?case by (simp add: list_all2_map1 list_all2_map2 flip: list.rel_eq)
next
  case (2 xs ys)
  then have "list_all2 (\<lambda>x y. redact x = redact y) xs ys \<longleftrightarrow> list_all2 alike xs ys"
    by (auto simp: list_all2_conv_all_nth)
  then show ?case by (simp add: list_all2_map1 list_all2_map2 flip: list.rel_eq)
qed (auto elim: redact.elims redact.elims [OF sym])

lemma redacted_redact: "redacted (redact v)"
  by (induction v rule: redact.induct) (auto simp: list_all_iff)

lemma redact_redacted: "redacted v \<Longrightarrow> redact v = v"
  by (induction v rule: redact.induct) (force simp: list_all_iff intro!: map_idI)+

lemma truthy_alike: "alike a b \<Longrightarrow> truthy a = truthy b"
  by (induction a b rule: alike.induct) auto

text \<open>
  C38. Two records with the same level and message give the same log line whenever their contexts
  differ at most under sensitive keys; in the context that is logged every sensitive key, in
  any spelling of its case and at any depth, stands before the mark, and all the rest of the
  context is there: logged contexts are equal only for such pairs.
\<close>

theorem log_hides_secrets:
  "(alike c c' \<longrightarrow>
      format_record dumps t \<lparr>levelname = l, log_message = m, log_context = Some c\<rparr>
      = format_record dumps t \<lparr>levelname = l, log_message = m, log_context = Some c'\<rparr>) \<and>
   (\<not> alike c c' \<longrightarrow> redact c \<noteq> redact c') \<and>
   redacted (redact c) \<and> redact (redact c) = redact c"
proof (intro conjI impI)
  assume "alike c c'"
  then have "redact c = redact c'" "truthy c = truthy c'"
    by (simp_all add: redact_eq_iff truthy_alike)
  then show "format_record dumps t \<lparr>levelname = l, log_message = m, log_context = Some c\<rparr>
      = format_record dumps t \<lparr>levelname = l, log_message = m, log_context = Some c'\<rparr>"
    by (simp add: format_record_def log_payload_def)
qed (simp_all add: redact_eq_iff redacted_redact redact_redacted)

theorem log_hides_secrets_witness:
  "redact (JObj [(''Device_Token'', JStr ''s3cret''), (''port'', JInt 1)])
   = redact (JObj [(''Device_Token'', JStr ''other''), (''port'', JInt 1)])"
proof -
  have "sensitive ''Device_Token''" by code_simp
  then have "alike (JObj [(''Device_Token'', JStr ''s3cret''), (''port'', JInt 1)])
    (JObj [(''Device_Token'', JStr ''other''), (''port'', JInt 1)])" by simp
  with log_hides_secrets [of _ _ "\<lambda>d. case d of [] \<Rightarrow> [] | _ \<Rightarrow> []" "[]" "[]" "[]"] redact_eq_iff show ?thesis by blast
qed

end
