(* ===== verification/Hub.thy ===== *)
theory Hub
  imports Frames "HOL-Library.Multiset"
begin

text \<open>
  The hub of the dashboards' WebSockets, \<^verbatim>\<open>src/backend/app/websockets.py\<close>, with the endpoint
  \<^verbatim>\<open>live\<close> of \<^verbatim>\<open>src/backend/app/main.py\<close>. A coroutine runs alone between two awaits, so each
  step below is one such stretch: a socket that has been accepted is registered and its
  snapshot is being sent; a broadcast starts one send for every registered client; each send
  ends by itself, delivered or failed (an error of the socket or the timeout of 0.35 s). The
  steps of any number of coroutines interleave in any order. A socket is known by a number;
  the time of day is an argument.
\<close>

definition envelope :: "string \<Rightarrow> string \<Rightarrow> json \<Rightarrow> dict" where
  "envelope now message_type data = [(''schema_version'', JInt 1), (''type'', JStr message_type),
     (''sent_at'', JStr now), (''data'', data)]"

text \<open>
  \<open>clients\<close> is \<^verbatim>\<open>_clients\<close>; \<open>greeting\<close> are the sockets whose snapshot is being sent and
  \<open>in_flight\<close> the sends of broadcasts. Kept for the theorems: the messages broadcast so far,
  how many there were when a socket was registered, and what has reached each socket.
\<close>

record hub =
  clients :: "nat set"
  greeting :: "(nat \<times> dict) list"
  in_flight :: "(nat \<times> bytes) list"
  log :: "bytes list"
  joined :: "nat \<rightharpoonup> nat"
  inbox :: "nat \<Rightarrow> bytes list"
  snapshots :: "nat \<rightharpoonup> dict"

definition new_hub :: hub where
  "new_hub = \<lparr>clients = {}, greeting = [], in_flight = [], log = [], joined = Map.empty,
     inbox = (\<lambda>_. []), snapshots = Map.empty\<rparr>"

text \<open>\<^verbatim>\<open>connect\<close> up to the send of the snapshot, and the end of that send.\<close>

definition connect :: "string \<Rightarrow> nat \<Rightarrow> json \<Rightarrow> hub \<Rightarrow> hub" where
  "connect now c snapshot h = h\<lparr>clients := insert c (clients h),
     greeting := greeting h @ [(c, envelope now ''system_snapshot'' snapshot)],
     joined := (joined h)(c \<mapsto> length (log h))\<rparr>"

definition greeted :: "nat \<Rightarrow> dict \<Rightarrow> hub \<Rightarrow> hub" where
  "greeted c d h = h\<lparr>greeting := remove1 (c, d) (greeting h), snapshots := (snapshots h)(c \<mapsto> d)\<rparr>"

text \<open>
  An error while the snapshot is sent leaves \<^verbatim>\<open>connect\<close>, which \<^verbatim>\<open>live\<close> calls outside its
  \<^verbatim>\<open>try\<close>: nothing unregisters the socket.
\<close>

definition greeting_failed :: "nat \<Rightarrow> dict \<Rightarrow> hub \<Rightarrow> hub" where
  "greeting_failed c d h = h\<lparr>greeting := remove1 (c, d) (greeting h)\<rparr>"

definition disconnect :: "nat \<Rightarrow> hub \<Rightarrow> hub" where
  "disconnect c h = h\<lparr>clients := clients h - {c}\<rparr>"

text \<open>
  \<^verbatim>\<open>broadcast\<close> up to the sends; \<open>order\<close> is the order in which the set is turned into a tuple.
\<close>

definition broadcast :: "dumps \<Rightarrow> string \<Rightarrow> string \<Rightarrow> json \<Rightarrow> nat list \<Rightarrow> hub \<Rightarrow> hub" where
  "broadcast dumps now ty data order h =
     (let serialized = dumps (envelope now ty data) in
      h\<lparr>in_flight := in_flight h @ map (\<lambda>c. (c, serialized)) order, log := log h @ [serialized]\<rparr>)"

definition delivered :: "nat \<Rightarrow> bytes \<Rightarrow> hub \<Rightarrow> hub" where
  "delivered c m h = h\<lparr>in_flight := remove1 (c, m) (in_flight h), inbox := (inbox h)(c := inbox h c @ [m])\<rparr>"

definition failed :: "nat \<Rightarrow> bytes \<Rightarrow> hub \<Rightarrow> hub" where
  "failed c m h = disconnect c (h\<lparr>in_flight := remove1 (c, m) (in_flight h)\<rparr>)"

text \<open>What \<^verbatim>\<open>live\<close> answers to a message of its socket; an answer that fails ends the endpoint.\<close>

definition live_reply :: "string \<Rightarrow> dict option" where
  "live_reply received = (if received = ''ping'' then Some [(''type'', JStr ''pong'')] else None)"

text \<open>A socket connects once; its endpoint may end at any time after its greeting.\<close>

inductive hub_step :: "dumps \<Rightarrow> hub \<Rightarrow> hub \<Rightarrow> bool" for dumps where
  Connect: "joined h c = None \<Longrightarrow> hub_step dumps h (connect now c snapshot h)"
| Greeted: "(c, d) \<in> set (greeting h) \<Longrightarrow> hub_step dumps h (greeted c d h)"
| GreetingFailed: "(c, d) \<in> set (greeting h) \<Longrightarrow> hub_step dumps h (greeting_failed c d h)"
| Broadcast: "distinct order \<Longrightarrow> set order = clients h \<Longrightarrow>
    hub_step dumps h (broadcast dumps now ty data order h)"
| Delivered: "(c, m) \<in> set (in_flight h) \<Longrightarrow> hub_step dumps h (delivered c m h)"
| Failed: "(c, m) \<in> set (in_flight h) \<Longrightarrow> hub_step dumps h (failed c m h)"
| Disconnect: "c \<in> clients h \<Longrightarrow> hub_step dumps h (disconnect c h)"

inductive hub_reachable :: "dumps \<Rightarrow> hub \<Rightarrow> bool" for dumps where
  Start: "hub_reachable dumps new_hub"
| Step: "hub_reachable dumps h \<Longrightarrow> hub_step dumps h h' \<Longrightarrow> hub_reachable dumps h'"

section \<open>What reaches a dashboard\<close>

text \<open>The messages on their way to a socket, and those broadcast since it was registered.\<close>

definition pending_for :: "nat \<Rightarrow> hub \<Rightarrow> bytes multiset" where
  "pending_for c h = image_mset snd (filter_mset (\<lambda>p. fst p = c) (mset (in_flight h)))"

definition since_joined :: "nat \<Rightarrow> hub \<Rightarrow> bytes multiset" where
  "since_joined c h = (case joined h c of None \<Rightarrow> {#} | Some n \<Rightarrow> mset (drop n (log h)))"

definition bound_for :: "nat \<Rightarrow> hub \<Rightarrow> bytes multiset" where
  "bound_for c h = mset (inbox h c) + pending_for c h"

definition socket_ok :: "hub \<Rightarrow> nat \<Rightarrow> bool" where
  "socket_ok h c \<longleftrightarrow>
     (case joined h c of None \<Rightarrow> c \<notin> clients h | Some n \<Rightarrow> n \<le> length (log h)) \<and>
     bound_for c h \<subseteq># since_joined c h \<and>
     (c \<in> clients h \<longrightarrow> bound_for c h = since_joined c h)"

definition hub_ok :: "hub \<Rightarrow> bool" where
  "hub_ok h \<longleftrightarrow> (\<forall>c. socket_ok h c)"

lemma pending_for_remove1:
  "(c, m) \<in> set (in_flight h) \<Longrightarrow>
   pending_for c' (h\<lparr>in_flight := remove1 (c, m) (in_flight h)\<rparr>)
     = (if c' = c then pending_for c h - {#m#} else pending_for c' h)"
  by (auto simp: pending_for_def image_mset_Diff)

lemma pending_for_member: "(c, m) \<in> set (in_flight h) \<Longrightarrow> m \<in># pending_for c h"
  by (force simp: pending_for_def)

lemma since_joined_broadcast:
  "(case joined h c of None \<Rightarrow> True | Some n \<Rightarrow> n \<le> length (log h)) \<Longrightarrow>
   since_joined c (broadcast dumps now ty data order h) =
     since_joined c h + (if joined h c = None then {#} else {#dumps (envelope now ty data)#})"
  by (auto simp: since_joined_def broadcast_def Let_def split: option.splits)

lemma pending_for_broadcast:
  "distinct order \<Longrightarrow> pending_for c (broadcast dumps now ty data order h) =
     pending_for c h + (if c \<in> set order then {#dumps (envelope now ty data)#} else {#})"
  by (induction order) (auto simp: pending_for_def broadcast_def Let_def)

lemma socket_same:
  assumes "socket_ok h c" and "joined h' c = joined h c" "log h' = log h"
    and "c \<in> clients h' \<longrightarrow> c \<in> clients h" and "bound_for c h' = bound_for c h"
  shows "socket_ok h' c"
  using assms by (auto simp: socket_ok_def since_joined_def split: option.splits)

lemma hub_ok_step:
  assumes "hub_step dumps h h'" and "hub_ok h"
  shows "hub_ok h'"
  unfolding hub_ok_def
proof
  fix x
  from assms(2) have x: "socket_ok h x" by (simp add: hub_ok_def)
  from assms(1) show "socket_ok h' x"
  proof cases
    case (Connect c now snapshot)
    have got: "bound_for x h' = bound_for x h"
      by (simp add: Connect connect_def bound_for_def pending_for_def)
    show ?thesis
    proof (cases "x = c")
      case True
      with x Connect(2) have "bound_for x h = {#}" by (simp add: socket_ok_def since_joined_def)
      with True got show ?thesis by (simp add: Connect connect_def socket_ok_def since_joined_def)
    next
      case False
      then show ?thesis
        by (intro socket_same [OF x _ _ _ got]) (simp_all add: Connect connect_def)
    qed
  next
    case (Broadcast order now ty data)
    let ?m = "dumps (envelope now ty data)"
    have got: "bound_for x h' = bound_for x h + (if x \<in> clients h then {#?m#} else {#})"
      using pending_for_broadcast [OF Broadcast(2), of x dumps now ty data h] Broadcast(3)
      by (simp add: Broadcast(1) bound_for_def) (simp add: broadcast_def Let_def)
    have since: "since_joined x h' = since_joined x h + (if joined h x = None then {#} else {#?m#})"
      unfolding Broadcast(1) using x
      by (intro since_joined_broadcast) (auto simp: socket_ok_def split: option.splits)
    have same: "joined h' = joined h" "clients h' = clients h" "length (log h) \<le> length (log h')"
      by (simp_all add: Broadcast(1) broadcast_def Let_def)
    show ?thesis
      using x same(3) unfolding socket_ok_def got since same
      by (auto split: option.splits intro: subset_mset.order_trans)
  next
    case (Delivered c m)
    have "bound_for x h' = bound_for x h"
      using pending_for_remove1 [OF Delivered(2), of x] pending_for_member [OF Delivered(2)]
      by (auto simp: Delivered(1) delivered_def pending_for_def bound_for_def)
    then show ?thesis by (intro socket_same [OF x]) (simp_all add: Delivered(1) delivered_def)
  next
    case (Failed c m)
    have less: "bound_for x h' \<subseteq># bound_for x h"
      using pending_for_remove1 [OF Failed(2), of x]
      by (auto simp: Failed(1) failed_def disconnect_def pending_for_def bound_for_def)
    have "bound_for x h' = bound_for x h" if "x \<noteq> c"
      using pending_for_remove1 [OF Failed(2), of x] that
      by (auto simp: Failed(1) failed_def disconnect_def pending_for_def bound_for_def)
    with x less show ?thesis
      by (auto simp: Failed(1) failed_def disconnect_def socket_ok_def since_joined_def
          split: option.splits intro: subset_mset.order_trans)
  qed (auto intro!: socket_same [OF x] simp: greeted_def greeting_failed_def disconnect_def
      bound_for_def pending_for_def)
qed

lemma hub_ok_reachable: "hub_reachable dumps h \<Longrightarrow> hub_ok h"
proof (induction rule: hub_reachable.induct)
  case Start
  show ?case by (simp add: hub_ok_def socket_ok_def new_hub_def bound_for_def pending_for_def)
qed (rule hub_ok_step)

text \<open>
  C34. However connections, broadcasts, deliveries, failures and disconnections interleave: a
  dashboard that is still registered and has no send under way has received every message
  broadcast since it was registered, each exactly once; any socket, registered or not, has
  received only such messages, none twice. One dashboard that fails costs the others nothing.
\<close>

theorem dashboards_informed:
  assumes "hub_reachable dumps h"
  shows "(c \<in> clients h \<and> list_all (\<lambda>(c', m). c' \<noteq> c) (in_flight h) \<longrightarrow>
      (\<exists>n. joined h c = Some n \<and> mset (inbox h c) = mset (drop n (log h)))) \<and>
    mset (inbox h c) \<subseteq># mset (drop (case joined h c of None \<Rightarrow> length (log h) | Some n \<Rightarrow> n) (log h))"
proof -
  from hub_ok_reachable [OF assms] have c: "socket_ok h c" by (simp add: hub_ok_def)
  have "pending_for c h = {#}" if "list_all (\<lambda>(c', m). c' \<noteq> c) (in_flight h)"
    using that by (auto simp: pending_for_def list_all_iff multiset_eq_iff count_eq_zero_iff)
  moreover have "mset (inbox h c) \<subseteq># since_joined c h"
    using c unfolding socket_ok_def bound_for_def
    by (meson mset_subset_eq_add_left subset_mset.order_trans)
  ultimately show ?thesis
    using c by (auto simp: socket_ok_def bound_for_def since_joined_def split: option.splits)
qed

text \<open>
  Two dashboards, of which one fails: after it is dropped, the other has the second message
  and the failed one has nothing.
\<close>

definition demo_text :: dumps where
  "demo_text d = replicate (length d) 7"

definition demo_hub :: hub where
  "demo_hub =
     (let m = demo_text (envelope [] ''frame'' JNull) in
      delivered 2 m (broadcast demo_text [] ''frame'' JNull [2]
        (delivered 2 m (failed 1 m (broadcast demo_text [] ''frame'' JNull [1, 2]
          (connect [] 2 JNull (connect [] 1 JNull new_hub)))))))"

lemma hub_two: "hub_reachable demo_text (connect [] 2 JNull (connect [] 1 JNull new_hub))"
proof -
  have "hub_reachable demo_text (connect [] 1 JNull new_hub)"
    by (rule Step [OF Start hub_step.Connect]) (simp add: new_hub_def)
  then show ?thesis
    by (rule Step [OF _ hub_step.Connect]) (simp add: new_hub_def connect_def)
qed

lemma demo_hub_reachable: "hub_reachable demo_text demo_hub"
proof -
  let ?m = "demo_text (envelope [] ''frame'' JNull)"
  let ?h2 = "connect [] 2 JNull (connect [] 1 JNull new_hub)"
  let ?h3 = "broadcast demo_text [] ''frame'' JNull [1, 2] ?h2"
  let ?h5 = "delivered 2 ?m (failed 1 ?m ?h3)"
  let ?h6 = "broadcast demo_text [] ''frame'' JNull [2] ?h5"
  note defs = new_hub_def connect_def broadcast_def failed_def disconnect_def delivered_def Let_def
  have "hub_reachable demo_text ?h3"
    by (rule Step [OF hub_two hub_step.Broadcast]) (auto simp: defs)
  then have "hub_reachable demo_text (failed 1 ?m ?h3)"
    by (rule Step [OF _ hub_step.Failed]) (simp add: defs)
  then have "hub_reachable demo_text ?h5"
    by (rule Step [OF _ hub_step.Delivered]) (simp add: defs)
  then have "hub_reachable demo_text ?h6"
    by (rule Step [OF _ hub_step.Broadcast]) (auto simp: defs)
  then have "hub_reachable demo_text (delivered 2 ?m ?h6)"
    by (rule Step [OF _ hub_step.Delivered]) (simp add: defs)
  then show ?thesis by (simp add: demo_hub_def Let_def)
qed

theorem dashboards_informed_witness:
  "mset (inbox demo_hub 2) = mset (log demo_hub) \<and> length (log demo_hub) = 2 \<and> inbox demo_hub 1 = []"
proof -
  note defs = demo_hub_def new_hub_def connect_def broadcast_def failed_def disconnect_def delivered_def
    Let_def
  have "2 \<in> clients demo_hub" "list_all (\<lambda>(c', m). c' \<noteq> 2) (in_flight demo_hub)"
    "joined demo_hub 2 = Some 0"
    by (simp_all add: defs)
  with dashboards_informed [OF demo_hub_reachable, of 2] show ?thesis by (simp add: defs)
qed

text \<open>A socket whose snapshot could not be sent stays registered.\<close>

lemma failed_greeting_stays_registered:
  "\<exists>h. hub_reachable dumps h \<and> 1 \<in> clients h \<and> greeting h = [] \<and> snapshots h 1 = None"
proof -
  let ?d = "envelope [] ''system_snapshot'' JNull"
  let ?h = "connect [] 1 JNull new_hub"
  have "hub_reachable dumps ?h"
    by (rule Step [OF Start hub_step.Connect]) (simp add: new_hub_def)
  then have "hub_reachable dumps (greeting_failed 1 ?d ?h)"
    by (rule Step [OF _ hub_step.GreetingFailed]) (simp add: connect_def new_hub_def)
  then show ?thesis
    by (intro exI [of _ "greeting_failed 1 ?d ?h"]) (simp add: greeting_failed_def connect_def new_hub_def)
qed

end
