(* ===== verification/Reads.thy ===== *)
theory Reads
  imports System
begin

text \<open>
  The reads of the HTTP API that compute something, \<^verbatim>\<open>src/backend/app/main.py\<close>: the health
  report, the snapshot a dashboard starts from, devices and configurations, the simulator's
  status, and the listing of an incident's evidence files. The file system and the number of
  open WebSockets are arguments.
\<close>

datatype read_error = Refused http_error | InvalidEvidencePath | NotFound

section \<open>Health and snapshot\<close>

text \<open>\<open>device_health\<close>: the health of the first device of the list, or nothing.\<close>

definition device_health :: "world \<Rightarrow> dict" where
  "device_health w = (case list_devices (store w) of
     [] \<Rightarrow> []
   | d # _ \<Rightarrow> (case health d of JObj h \<Rightarrow> h | _ \<Rightarrow> []))"

definition health_report :: "env \<Rightarrow> int \<Rightarrow> world \<Rightarrow> dict" where
  "health_report env websocket_clients w =
     (let h = device_health w;
          qnx_connected = (case list_devices (store w) of [] \<Rightarrow> False | d # _ \<Rightarrow> connected d);
          inference = get_default h ''inference'' (JStr ''UNKNOWN'');
          overall = (if qnx_connected \<and> inference = JStr ''HEALTHY'' then ''HEALTHY'' else ''DEGRADED'')
      in [(''status'', JStr overall), (''backend'', JStr ''HEALTHY''), (''qnx_connected'', JBool qnx_connected),
          (''camera'', get_default h ''camera'' (JStr ''UNKNOWN'')), (''inference'', inference),
          (''incident_engine'', get_default h ''incident_engine'' (JStr ''UNKNOWN'')),
          (''stream'', JStr ''HEALTHY''),
          (''last_frame_age_ms'', get_default h ''last_frame_age_ms'' JNull),
          (''last_inference_age_ms'', get_default h ''last_inference_age_ms'' JNull),
          (''watchdog_restart_count'', get_default h ''watchdog_restart_count'' (JInt 0)),
          (''demo_system'', JBool True), (''demo_calls_enabled'', JBool (demo_calls_enabled (conf env))),
          (''armed'', JBool (armed w)), (''websocket_clients'', JInt websocket_clients)])"

record snapshot =
  snap_demo_calls_enabled :: bool
  snap_armed :: bool
  snap_devices :: "device_row list"
  snap_incidents :: "incident list"
  snap_frame :: "dict option"
  snap_detections :: "dict option"
  snap_health :: dict
  snap_zones :: "json option"

definition snapshot_of :: "env \<Rightarrow> world \<Rightarrow> snapshot" where
  "snapshot_of env w = \<lparr>snap_demo_calls_enabled = demo_calls_enabled (conf env), snap_armed = armed w,
     snap_devices = list_devices (store w), snap_incidents = list_incidents 25 (store w),
     snap_frame = latest_frame (reg w), snap_detections = latest_detections (reg w),
     snap_health = latest_health (reg w), snap_zones = get_configuration ''zones'' (store w)\<rparr>"

definition get_arming :: "world \<Rightarrow> dict" where
  "get_arming w = [(''armed'', JBool (armed w))]"

definition devices_listed :: "world \<Rightarrow> device_row list" where
  "devices_listed w = list_devices (store w)"

definition device_read :: "string \<Rightarrow> world \<Rightarrow> (read_error, device_row) result" where
  "device_read dev w = (case get_device dev (store w) of
     None \<Rightarrow> Err (Refused DeviceMissing) | Some d \<Rightarrow> Ok d)"

definition incident_read :: "string \<Rightarrow> world \<Rightarrow> (read_error, incident) result" where
  "incident_read i w = (case get_incident i (store w) of
     None \<Rightarrow> Err (Refused IncidentMissing) | Some r \<Rightarrow> Ok r)"

definition configuration_read :: "string \<Rightarrow> world \<Rightarrow> json" where
  "configuration_read k w = (case get_configuration k (store w) of
     None \<Rightarrow> JObj [] | Some v \<Rightarrow> if truthy v then v else JObj [])"

definition simulator_status :: "env \<Rightarrow> int option \<Rightarrow> world \<Rightarrow> (read_error, int option \<times> string list) result" where
  "simulator_status env bound_port w =
     (if enable_simulator_endpoints (conf env) then Ok (bound_port, map fst (connections (reg w)))
      else Err NotFound)"

section \<open>Evidence files\<close>

text \<open>
  \<open>resolved\<close> is \<open>Path.resolve\<close>, which removes dots and follows links, as the list of a path's
  components; \<open>dir\<close> gives the entries of a directory, nothing when there is none.
\<close>

record entry =
  entry_name :: string
  is_file :: bool
  entry_size :: int

record files =
  resolved :: "string \<Rightarrow> string list"
  dir :: "string list \<Rightarrow> entry list option"

definition path_text :: "string list \<Rightarrow> string" where
  "path_text p = concat (map (\<lambda>c. CHR ''/'' # c) p)"

text \<open>\<open>root / p\<close>: an absolute right-hand side replaces the root.\<close>

definition join_path :: "string \<Rightarrow> string \<Rightarrow> string" where
  "join_path base p = (if starts_with ''/'' p then p else base @ ''/'' @ p)"

definition path_suffix :: "string \<Rightarrow> string" where
  "path_suffix name =
     (let ext = takeWhile (\<lambda>c. c \<noteq> CHR ''.'') (rev name) in
      if ext = [] \<or> length name \<le> length ext + 1 then [] else CHR ''.'' # rev ext)"

definition evidence_entry :: "entry \<Rightarrow> bool" where
  "evidence_entry e \<longleftrightarrow> is_file e \<and> lower (path_suffix (entry_name e)) \<in> {''.json'', ''.jpg'', ''.jpeg''}"

definition evidence ::
  "files \<Rightarrow> env \<Rightarrow> string \<Rightarrow> world \<Rightarrow> (read_error, bool \<times> (string \<times> int) list) result" where
  "evidence fs env i w = rbind (incident_read i w) (\<lambda>stored.
     case evidence_path stored of
       None \<Rightarrow> Ok (False, [])
     | Some p \<Rightarrow>
         if p = [] then Ok (False, [])
         else let base = resolved fs (incident_storage_root (conf env));
                  candidate = resolved fs (join_path (path_text base) p)
              in if \<not> prefix base candidate then Err InvalidEvidencePath
                 else (case dir fs candidate of
                     None \<Rightarrow> Ok (False, [])
                   | Some es \<Rightarrow> Ok (True, map (\<lambda>e. (entry_name e, entry_size e)) (filter evidence_entry es))))"

text \<open>
  Whatever path an incident holds and wherever links lead, only files of type JSON or JPEG of
  one directory inside the evidence root are ever listed.
\<close>

theorem evidence_inside_root:
  assumes "evidence fs env i w = Ok (True, files)"
  shows "\<exists>candidate es. prefix (resolved fs (incident_storage_root (conf env))) candidate \<and>
    dir fs candidate = Some es \<and>
    list_all (\<lambda>(n, s). \<exists>e \<in> set es. is_file e \<and> entry_name e = n \<and> entry_size e = s \<and>
      lower (path_suffix n) \<in> {''.json'', ''.jpg'', ''.jpeg''}) files"
proof -
  let ?base = "resolved fs (incident_storage_root (conf env))"
  from assms obtain p es where
    "prefix ?base (resolved fs (join_path (path_text ?base) p))"
    "dir fs (resolved fs (join_path (path_text ?base) p)) = Some es"
    "files = map (\<lambda>e. (entry_name e, entry_size e)) (filter evidence_entry es)"
    by (auto simp: evidence_def rbind_Ok Let_def split: if_splits option.splits)
  moreover from this(3) have "list_all (\<lambda>(n, s). \<exists>e \<in> set es. is_file e \<and> entry_name e = n \<and> entry_size e = s \<and>
      lower (path_suffix n) \<in> {''.json'', ''.jpg'', ''.jpeg''}) files"
    by (auto simp: evidence_entry_def list_all_iff)
  ultimately show ?thesis by blast
qed

text \<open>No operation of the store ever sets the path: over every run there is no evidence.\<close>

definition no_evidence :: "database \<Rightarrow> bool" where
  "no_evidence db \<longleftrightarrow> list_all (\<lambda>r. evidence_path r = None) (incidents db)"

lemma no_evidence_frames [simp]:
  "no_evidence (db\<lparr>devices := ds\<rparr>) = no_evidence db"
  "no_evidence (db\<lparr>events := es, event_seq := n\<rparr>) = no_evidence db"
  "no_evidence (db\<lparr>attempts := as, attempt_seq := n\<rparr>) = no_evidence db"
  "no_evidence (db\<lparr>configurations := cs\<rparr>) = no_evidence db"
  "no_evidence (write_attempt t n c db) = no_evidence db"
  by (simp_all add: no_evidence_def write_attempt_def)

lemma no_evidence_set_incident:
  "(\<And>r. evidence_path (f r) = evidence_path r) \<Longrightarrow> incidents db' = incidents db \<Longrightarrow> no_evidence db \<Longrightarrow>
   no_evidence (set_incident i f db')"
  by (auto simp: no_evidence_def set_incident_def update_where_def list_all_iff)

lemma no_evidence_tx:
  assumes "no_evidence db" and "\<And>x db'. body db = (Inr x, db') \<Longrightarrow> no_evidence db'"
  shows "no_evidence (snd (tx body db))"
  using assms by (cases rule: tx_cases [of body db]) auto

lemma no_evidence_upsert:
  "evidence_path new = None \<Longrightarrow> list_all (\<lambda>r. evidence_path r = None) rs \<Longrightarrow>
   list_all (\<lambda>r. evidence_path r = None) (upsert incident_id merge_incident new rs)"
  by (auto simp: upsert_def update_where_def merge_incident_def list_all_iff)

lemma no_evidence_exec: "no_evidence db \<Longrightarrow> no_evidence (exec wr db)"
proof (cases wr)
  case (UpdateResponse t1 t2 i rs occ hz)
  assume "no_evidence db"
  then show ?thesis
    by (auto simp: UpdateResponse exec_def update_incident_response_Ok Let_def
        intro!: no_evidence_set_incident split: option.splits)
next
  case (UpdateCall t1 t2 n c)
  assume "no_evidence db"
  then show ?thesis
    by (auto simp: UpdateCall exec_def update_call_attempt_eq Let_def incident_call_update_def
        intro!: no_evidence_set_incident split: option.splits)
next
  case (ReserveCall t i dest cd mx)
  assume ev: "no_evidence db"
  then show ?thesis
    unfolding ReserveCall exec_def perform.simps outcome_simps reserve_call_attempt_def
    by (rule no_evidence_tx) (auto simp: Let_def ev intro!: no_evidence_set_incident
        split: option.splits if_splits)
next
  case (UpsertIncident t u d b)
  assume ev: "no_evidence db"
  have "evidence_path (new_incident t u d b) = None" by (simp add: new_incident_def)
  with no_evidence_upsert ev have "no_evidence (db\<lparr>incidents := upsert incident_id merge_incident
      (new_incident t u d b) (incidents db)\<rparr>)"
    by (simp add: no_evidence_def)
  with ev show ?thesis
    unfolding UpsertIncident exec_def perform.simps outcome_simps upsert_incident_def
    by (intro no_evidence_tx) (auto split: if_splits)
qed (auto simp: exec_def upsert_device_def mark_device_disconnected_def update_health_def add_event_def
      put_configuration_def Let_def intro!: no_evidence_tx split: if_splits option.splits)

interpretation evidence_machine: machine exec no_evidence
  by unfold_locales (rule no_evidence_exec)

text \<open>
  Started on a store without evidence paths, the backend never lists an evidence file: after
  any inputs, every incident's evidence is reported as not available.
\<close>

theorem evidence_never_available:
  assumes "no_evidence db" and "sys = sys_run env inps (start_system env ck zones thresholds db)"
    and "get_incident i (data_of sys) = Some r"
  shows "evidence fs env i (world_of sys) = Ok (False, [])"
proof -
  have "written db (data_of sys)" unfolding assms(2) by (rule run_written)
  with assms(1) have "no_evidence (data_of sys)"
    by (auto simp: written_def writes_def intro: evidence_machine.run_inv)
  with assms(3) have "evidence_path r = None"
    by (auto simp: no_evidence_def list_all_iff get_incident_def dest: find_row_Some)
  with assms(3) show ?thesis by (simp add: evidence_def incident_read_def data_of_def)
qed

definition demo_files :: files where
  "demo_files = \<lparr>resolved = (\<lambda>p. split_on (CHR ''/'') p),
     dir = (\<lambda>p. Some [\<lparr>entry_name = ''frame.jpg'', is_file = True, entry_size = 9\<rparr>])\<rparr>"

theorem evidence_never_available_witness:
  "evidence demo_files demo_env ''a-1'' (world_of (sys_run demo_env demo_call demo_start)) = Ok (False, [])"
proof -
  have ev: "no_evidence flame_db" by code_simp
  have "written flame_db (data_of (sys_run demo_env demo_call demo_start))"
    unfolding demo_start_def by (rule run_written)
  from written_preserves [OF this, of "''a-1''"] obtain r where
    "get_incident ''a-1'' (data_of (sys_run demo_env demo_call demo_start)) = Some r"
    by (auto simp: preserves_def get_flame_db)
  from evidence_never_available [OF ev _ this] show ?thesis by (simp add: demo_start_def)
qed

end
