(* ===== verification/Restart.thy ===== *)
theory Restart
  imports System Inference
begin

text \<open>
  Runs of the backend one after another on the same database file, \<^verbatim>\<open>lifespan\<close> of
  \<^verbatim>\<open>src/backend/app/main.py\<close>: it starts with what the file holds and, where there is none,
  with the example configurations; it stops by closing its parts, or by being killed. Timers,
  calls in flight, connections and the arming state end with a run, the stored data does not. A run
  ends between two steps.
  The laws of theory \<open>Steps\<close> are carried over from one run to the next.
\<close>

section \<open>Starting and stopping\<close>

datatype start_error = FileMissing | FileNotJson | FileNotObject | NoVersion | BadVersion | NotStored

text \<open>\<^verbatim>\<open>_load_json\<close>; a file is its bytes, if there is one.\<close>

definition load_json :: "loads \<Rightarrow> bytes option \<Rightarrow> (start_error, dict) result" where
  "load_json loads f = (case f of
     None \<Rightarrow> Err FileMissing
   | Some bs \<Rightarrow> (case loads bs of
         None \<Rightarrow> Err FileNotJson | Some (JObj d) \<Rightarrow> Ok d | Some _ \<Rightarrow> Err FileNotObject))"

definition example_configuration :: "loads \<Rightarrow> bytes option \<Rightarrow> (start_error, int \<times> json) result" where
  "example_configuration loads f = rbind (load_json loads f) (\<lambda>d.
     case get d ''configuration_version'' of
       None \<Rightarrow> Err NoVersion
     | Some v \<Rightarrow> (case int_of_json v of None \<Rightarrow> Err BadVersion | Some n \<Rightarrow> Ok (n, JObj d)))"

definition store_missing ::
  "loads \<Rightarrow> time \<Rightarrow> string \<Rightarrow> bytes option \<Rightarrow> world \<Rightarrow> (start_error, unit) result \<times> world" where
  "store_missing loads t k f w =
     (if get_configuration k (store w) \<noteq> None then (Ok (), w)
      else case example_configuration loads f of
          Inl e \<Rightarrow> (Err e, w)
        | Inr (n, v) \<Rightarrow> (case put_configuration t k n v (store w) of
              (Inl e, db) \<Rightarrow> (Err NotStored, w\<lparr>store := db\<rparr>)
            | (Inr _, db) \<Rightarrow> (Ok (), w\<lparr>store := db\<rparr>)))"

definition start_backend ::
  "env \<Rightarrow> loads \<Rightarrow> clock \<Rightarrow> bytes option \<Rightarrow> bytes option \<Rightarrow> database \<Rightarrow> (start_error, unit) result \<times> system" where
  "start_backend env loads ck zones thresholds db =
     (case store_missing loads (ck 0) ''zones'' zones ((new_world env)\<lparr>store := db\<rparr>) of
        (Inl e, w) \<Rightarrow> (Err e, \<lparr>world_of = w, sessions = []\<rparr>)
      | (Inr _, w) \<Rightarrow> (case store_missing loads (ck 1) ''thresholds'' thresholds w of
          (r, w) \<Rightarrow> (r, \<lparr>world_of = w, sessions = []\<rparr>)))"

text \<open>The \<^verbatim>\<open>finally\<close> of \<^verbatim>\<open>lifespan\<close>: the timers are cancelled, the connections end.\<close>

definition stop_backend :: "system \<Rightarrow> system" where
  "stop_backend sys = \<lparr>world_of = close_timers (world_of sys), sessions = []\<rparr>"

section \<open>The life of an installation\<close>

text \<open>
  A run may be stopped in order, or end at any moment and be followed by a start; while nothing
  serves, nothing arrives. The requests of earlier runs are kept for the theorems.
\<close>

record life =
  serving :: bool
  current :: system
  past_requests :: "provider_request list"

datatype happening = Arrives input | Stops | Starts clock "bytes option" "bytes option"

definition new_life :: "env \<Rightarrow> database \<Rightarrow> life" where
  "new_life env db = \<lparr>serving = False,
     current = \<lparr>world_of = (new_world env)\<lparr>store := db\<rparr>, sessions = []\<rparr>, past_requests = []\<rparr>"

fun life_step :: "env \<Rightarrow> loads \<Rightarrow> happening \<Rightarrow> life \<Rightarrow> life" where
  "life_step env loads (Arrives inp) l =
     (if serving l then l\<lparr>current := sys_step env inp (current l)\<rparr> else l)"
| "life_step env loads Stops l = l\<lparr>serving := False, current := stop_backend (current l)\<rparr>"
| "life_step env loads (Starts ck zones thresholds) l =
     (case start_backend env loads ck zones thresholds (data_of (current l)) of
        (r, sys) \<Rightarrow> \<lparr>serving = is_ok r, current = sys, past_requests = past_requests l @ sent_by (current l)\<rparr>)"

definition life_run :: "env \<Rightarrow> loads \<Rightarrow> happening list \<Rightarrow> life \<Rightarrow> life" where
  "life_run env loads hs l = fold (life_step env loads) hs l"

definition all_sent :: "life \<Rightarrow> provider_request list" where
  "all_sent l = past_requests l @ sent_by (current l)"

section \<open>What a start and a stop keep\<close>

lemma store_missing_frame:
  "store_missing loads t k f w = (r, w') \<Longrightarrow>
     requests w' = requests w \<and> tasks w' = tasks w \<and> pending w' = pending w \<and> armed w' = armed w \<and>
     devices (store w') = devices (store w)"
  by (auto simp: store_missing_def put_configuration_def tx_def split: if_splits sum.splits prod.splits)

lemma start_backend_fresh:
  assumes "start_backend env loads ck zones thresholds db = (r, sys)"
  shows "sent_by sys = []" and "tasks (world_of sys) = []" and "pending (world_of sys) = []"
    and "\<not> armed (world_of sys)" and "sessions sys = []" and "devices (data_of sys) = devices db"
  using assms
  by (auto simp: start_backend_def sent_by_def data_of_def new_world_def dest!: store_missing_frame
      split: sum.splits prod.splits)

lemma close_timers_frame: "store (close_timers w) = store w" "requests (close_timers w) = requests w"
proof -
  have "store (fold cancel_timer is w) = store w \<and> requests (fold cancel_timer is w) = requests w" for "is" and w
    by (induction "is" arbitrary: w) simp_all
  then show "store (close_timers w) = store w" "requests (close_timers w) = requests w"
    by (simp_all add: close_timers_def)
qed

lemma stop_backend_frame [simp]: "data_of (stop_backend sys) = data_of sys" "sent_by (stop_backend sys) = sent_by sys"
  by (simp_all add: stop_backend_def data_of_def sent_by_def close_timers_frame)

text \<open>A start that succeeds is that of theory \<open>System\<close> with what the files hold.\<close>

lemma store_missing_ensures:
  assumes "store_missing loads t k f w = (Ok (), w')"
  shows "\<exists>v x. w' = ensure_configuration t k v x w"
proof (cases "get_configuration k (store w)")
  case None
  with assms obtain n v db where "put_configuration t k n v (store w) = (Ok (), db)" "w' = w\<lparr>store := db\<rparr>"
    by (auto simp: store_missing_def split: sum.splits prod.splits)
  with None show ?thesis by (intro exI [of _ n] exI [of _ v]) (simp add: ensure_configuration_def)
qed (use assms in \<open>auto simp: store_missing_def ensure_configuration_def\<close>)

lemma start_backend_starts:
  assumes "start_backend env loads ck zf tf db = (Ok (), sys)"
  shows "\<exists>zones thresholds. sys = start_system env ck zones thresholds db"
proof -
  from assms obtain w w' where "store_missing loads (ck 0) ''zones'' zf ((new_world env)\<lparr>store := db\<rparr>) = (Ok (), w)"
    "store_missing loads (ck 1) ''thresholds'' tf w = (Ok (), w')" "sys = \<lparr>world_of = w', sessions = []\<rparr>"
    by (auto simp: start_backend_def split: sum.splits prod.splits)
  with store_missing_ensures show ?thesis unfolding start_system_def by (metis fst_conv snd_conv)
qed

section \<open>Laws over a life\<close>

text \<open>A law that does not look at the requests of earlier runs holds over all runs.\<close>

locale lasting_law = backend_law +
  assumes law_earlier: "law (db, qs) (db', qs') \<Longrightarrow> law (db, ps @ qs) (db', ps @ qs')"
begin

lemma law_store_missing: "store_missing loads t k f w = (r, w') \<Longrightarrow> law (store w, qs) (store w', qs)"
  by (auto simp: store_missing_def law_refl split: if_splits sum.splits prod.splits
      intro: law_methods(4) [OF _ law_refl])

lemma law_start_backend:
  assumes "start_backend env' loads ck zones thresholds db = (r, sys)"
  shows "law (db, qs) (data_of sys, qs)"
proof -
  obtain q w where q: "store_missing loads (ck 0) ''zones'' zones ((new_world env')\<lparr>store := db\<rparr>) = (q, w)" by fastforce
  from law_store_missing [OF this] have first: "law (db, qs) (store w, qs)" by simp
  show ?thesis
  proof (cases q)
    case (Inl e)
    with assms q first show ?thesis by (auto simp: start_backend_def data_of_def)
  next
    case (Inr u)
    with assms q obtain w' where "store_missing loads (ck 1) ''thresholds'' thresholds w = (r, w')"
      "sys = \<lparr>world_of = w', sessions = []\<rparr>" by (auto simp: start_backend_def split: prod.splits)
    with law_trans [OF first law_store_missing] show ?thesis by (simp add: data_of_def)
  qed
qed

lemma law_life_step:
  "law (data_of (current l), all_sent l)
     (data_of (current (life_step env loads h l)), all_sent (life_step env loads h l))"
proof (cases h)
  case (Arrives inp)
  have "law (data_of (current l), sent_by (current l))
      (data_of (sys_step env inp (current l)), sent_by (sys_step env inp (current l)))"
    using keeps_sys_step [of "current l" inp] by (simp add: keeps_def core_def data_of_def sent_by_def)
  with law_earlier Arrives show ?thesis by (simp add: all_sent_def law_refl)
next
  case Stops
  then show ?thesis by (simp add: all_sent_def law_refl)
next
  case (Starts ck zones thresholds)
  obtain r sys where s: "start_backend env loads ck zones thresholds (data_of (current l)) = (r, sys)" by fastforce
  from law_start_backend [OF s] start_backend_fresh(1) [OF s] show ?thesis by (simp add: Starts s all_sent_def)
qed

lemma law_life:
  "law (data_of (current l), all_sent l) (data_of (current (life_run env loads hs l)), all_sent (life_run env loads hs l))"
proof (induction hs arbitrary: l)
  case Nil
  then show ?case by (simp add: life_run_def law_refl)
next
  case (Cons h hs)
  from law_trans [OF law_life_step Cons.IH [of "life_step env loads h l"]] show ?case by (simp add: life_run_def)
qed

end

interpretation sound_life: lasting_law env "sound_law env" for env
  by unfold_locales (auto simp: sound_law_def)

interpretation cancelled_life: lasting_law env "cancelled_law i" for env i
  by unfold_locales (simp add: cancelled_law_def)

section \<open>What a restart forgets\<close>

text \<open>The inputs that write nothing of themselves: time passing, replies, arming and new connections.\<close>

fun idle_input :: "input \<Rightarrow> bool" where
  "idle_input (TimerFires ck i) = True"
| "idle_input (ProviderReplies ck n rep) = True"
| "idle_input (PutArming c body) = True"
| "idle_input (OpenConnection n) = True"
| "idle_input _ = False"

definition dormant :: "database \<Rightarrow> world \<Rightarrow> bool" where
  "dormant db w \<longleftrightarrow> store w = db \<and> tasks w = [] \<and> pending w = [] \<and> requests w = []"

lemma dormant_step:
  "idle_input inp \<Longrightarrow> dormant db (world_of sys) \<Longrightarrow> dormant db (world_of (sys_step env inp sys))"
  by (cases inp) (auto simp: dormant_def on_timeout_def on_reply_def find_call_def put_arming_def limited_def
      require_rate_limit_def Let_def split: sum.splits prod.splits)

text \<open>
  An incident that awaits a response when a run ends is not escalated by the next: no timer is
  started for it, so however long one waits, and also once the system is armed again, nothing
  is stored and nothing sent, until the device reports the incident again or an operator acts.
\<close>

lemma restart_forgets_timers:
  assumes "start_backend env loads ck zones thresholds db = (r, sys)" and "\<forall>inp \<in> set inps. idle_input inp"
  shows "data_of (sys_run env inps sys) = data_of sys \<and> sent_by (sys_run env inps sys) = []"
proof -
  have run: "dormant db' (world_of s) \<Longrightarrow> dormant db' (world_of (sys_run env inps s))" for db' s
    using assms(2) by (induction inps arbitrary: s) (simp_all add: sys_run_def dormant_step)
  have "dormant (data_of sys) (world_of sys)"
    using start_backend_fresh [OF assms(1)] by (simp add: dormant_def data_of_def sent_by_def)
  from run [OF this] show ?thesis by (simp add: dormant_def data_of_def sent_by_def)
qed

text \<open>
  The rows of the devices keep what the last run has written: a device that was connected when
  the backend was killed is listed as connected by the next, which has no connection at all.
\<close>

lemma restart_keeps_devices:
  assumes "start_backend env loads ck zones thresholds db = (r, sys)"
  shows "list_devices (data_of sys) = list_devices db \<and> sessions sys = []"
  using start_backend_fresh(5,6) [OF assms] by (simp add: list_devices_def)

text \<open>
  A call in flight when a run ends stays requested for ever: its attempt counts as active, so the next
  run, armed again, refuses to place the call, and nothing ever reports how the first one went.
\<close>

definition example_loads :: loads where
  "example_loads bs = Some (JObj [(''configuration_version'', JInt 1)])"

definition starts :: happening where
  "starts = Starts (\<lambda>_. 0) (Some []) (Some [])"

lemma restart_loses_call:
  "(let before = map Arrives demo_call;
        later = map Arrives [PutArming (demo_step 90000000000) [(''armed'', JBool True)], CallDispatch (demo_step 91000000000) ''a-1''];
        l = life_run demo_env example_loads (starts # before @ [Stops, starts] @ later) (new_life demo_env flame_db)
    in length (all_sent l) = 1 \<and> armed (world_of (current l))
     \<and> map status (attempts (data_of (current l))) = [REQUESTED]
     \<and> map_option response_state (get_incident ''a-1'' (data_of (current l))) = Some CALL_REQUESTED)"
  by code_simp

section \<open>Properties\<close>

text \<open>
  C4. The installation is safe over its whole life. Whatever arrives, and however often the backend
  is stopped, killed and started again on the database it has left: the stored data stays
  well-formed; every incident is still there and has only evolved; and to every request ever
  sent to the provider belongs a call attempt of its own, with a new number, the numbers growing
  with the requests. That attempt is stored for the incident the request tells of, and it was made on a
  state of the database in between on which calls were enabled, the incident was stored, confirmed
  and not cancelled, had fewer active attempts than the limit, and no active attempt of any
  incident was younger than the cooldown; the request went to the configured and allow-listed number,
  which is no emergency number.
\<close>

theorem installation_safe:
  assumes "db_ok db" and "l = life_run env loads hs (new_life env db)"
  shows "db_ok (data_of (current l))
       \<and> (\<forall>q \<in> set (all_sent l). guarded_request env q)
       \<and> (\<exists>ns. list_all2 (backed env db (data_of (current l))) (all_sent l) ns
            \<and> sorted_wrt (<) ns \<and> (\<forall>n \<in> set ns. attempt_seq db < n))
       \<and> length (attempts db) + length (all_sent l) \<le> length (attempts (data_of (current l)))
       \<and> (get_incident i db = Some r \<longrightarrow>
            (\<exists>r'. get_incident i (data_of (current l)) = Some r' \<and> evolves r r'))"
proof -
  have new: "data_of (current (new_life env db)) = db" "all_sent (new_life env db) = []"
    by (simp_all add: new_life_def data_of_def all_sent_def sent_by_def new_world_def)
  from sound_life.law_life [of env "new_life env db" loads hs, folded assms(2)]
  have law: "sound_law env (db, []) (data_of (current l), [] @ all_sent l)" by (simp add: new)
  then obtain ns where w: "written db (data_of (current l))" and q: "list_all (guarded_request env) (all_sent l)"
    and ns: "list_all2 (backed env db (data_of (current l))) (all_sent l) ns" "sorted_wrt (<) ns"
      "\<forall>n \<in> set ns. attempt_seq db < n"
    by (auto simp: sound_law_def)
  show ?thesis
    using written_ok [OF w assms(1)] written_preserves [OF w, of i] q ns sound_law_attempts [OF law assms(1)]
    by (auto simp: list_all_iff preserves_def)
qed

definition demo_life :: life where
  "demo_life = life_run demo_env example_loads (starts # map Arrives demo_call @ [Stops, starts]) (new_life demo_env flame_db)"

lemma demo_life_sent: "length (all_sent demo_life) = 1 \<and> serving demo_life"
  by code_simp

theorem installation_safe_witness:
  "\<exists>q n. all_sent demo_life = [q] \<and> 0 < n \<and> guarded_request demo_env q
     \<and> backed demo_env flame_db (data_of (current demo_life)) q n \<and> db_ok (data_of (current demo_life))"
proof -
  obtain q where q: "all_sent demo_life = [q]" using demo_life_sent by (auto simp: length_Suc_conv)
  have 0: "attempt_seq flame_db = 0" by code_simp
  note safe = installation_safe [OF flame_db_ok demo_life_def]
  from safe obtain ns where "list_all2 (backed demo_env flame_db (data_of (current demo_life))) [q] ns"
    "\<forall>n \<in> set ns. 0 < n" unfolding q 0 by blast
  then obtain n where "backed demo_env flame_db (data_of (current demo_life)) q n" "0 < n"
    by (auto simp: list_all2_Cons1)
  moreover from safe have "guarded_request demo_env q" "db_ok (data_of (current demo_life))"
    unfolding q by (simp, blast)
  ultimately show ?thesis using q by blast
qed

text \<open>
  C13. A cancellation lasts, also over restarts: once an incident is cancelled and no call attempt of it
  is stored, nothing that arrives, late device updates included, and no restart changes its response
  or makes a call attempt for it.
\<close>

theorem cancellation_survives:
  assumes "db_ok db" and "get_incident i db = Some r" and "response_state r = CANCELLED"
    and "\<forall>a \<in> set (attempts db). attempt_incident a \<noteq> i" and "db = data_of (current l)"
    and "db' = data_of (current (life_run env loads hs l))"
  shows "(\<exists>r'. get_incident i db' = Some r' \<and> response_state r' = CANCELLED)
       \<and> (\<forall>a \<in> set (attempts db'). attempt_incident a \<noteq> i)"
proof -
  have "called_off i db" using assms(1-4) by (auto simp: called_off_def)
  with cancelled_life.law_life [of i l env loads hs] have "called_off i db'"
    by (simp add: cancelled_law_def assms(5,6))
  then show ?thesis by (auto simp: called_off_def split: option.splits)
qed

definition called_off_life :: life where
  "called_off_life = life_run demo_env example_loads
     [starts, Arrives (Cancel (demo_step 1000) ''a-1'' ''manual'' ''testing'' [])] (new_life demo_env flame_db)"

theorem cancellation_survives_witness:
  "\<exists>r. get_incident ''a-1'' (data_of (current (life_run demo_env example_loads (Stops # starts # map Arrives demo_call) called_off_life)))
      = Some r \<and> response_state r = CANCELLED"
proof -
  from sound_life.law_life [of demo_env "new_life demo_env flame_db" example_loads
      "[starts, Arrives (Cancel (demo_step 1000) ''a-1'' ''manual'' ''testing'' [])]"]
  have "written flame_db (data_of (current called_off_life))"
    by (simp add: sound_law_def called_off_life_def new_life_def data_of_def)
  then have ok: "db_ok (data_of (current called_off_life))" by (rule written_ok [OF _ flame_db_ok])
  have c: "map_option response_state (get_incident ''a-1'' (data_of (current called_off_life))) = Some CANCELLED"
    "attempts (data_of (current called_off_life)) = []"
    by code_simp+
  then obtain r where "get_incident ''a-1'' (data_of (current called_off_life)) = Some r" "response_state r = CANCELLED"
    by auto
  from cancellation_survives [OF ok this _ refl refl, of demo_env example_loads "Stops # starts # map Arrives demo_call"] c(2)
  show ?thesis by simp
qed

end
