(* ===== verification/Spec2Isabelle.thy ===== *)
theory Spec2Isabelle
  imports Prelude Binary64 Rounding Verifier Wire Protocol RateLimit Detector Text Json Tables Database Store
    CallPolicy Config Observations Communications Frames Registry World Escalation Gateway Api Steps System
    Models Rows Edge Camera Helpers Simulator Render Codec Pipeline Training Inference Appliance Alarm Prepare Logs Hub Reads
    Restart
begin

text \<open>
  IGNIS is a fire alarm with a camera: a program on the device detects fire and smoke in
  camera frames and decides when a fire is confirmed; a backend on a laptop receives its
  frames and incident reports over TCP, shows them to operators, waits for the occupant's
  answer and, when there is none, places a demonstration call through a voice provider. This
  development models the Python of the repository: the device program
  (\<^verbatim>\<open>src/poc/pi/ignis_poc\<close>), the backend (\<^verbatim>\<open>src/backend/app\<close>), the simulator that takes the
  device's place (\<^verbatim>\<open>src/simulator/ignis_simulator\<close>) and the tools that prepare the data and
  the model (\<^verbatim>\<open>src/training/ignis_training\<close>, \<^verbatim>\<open>src/poc/model\<close>). Definitions carry the names
  of the functions they translate; each theory begins with what it holds.

  \<^bold>\<open>How the parts interact.\<close> A frame goes from the camera helper's pipe
  (\<open>Camera\<close>, \<open>Helpers\<close>) through the detector (\<open>Inference\<close>,
  \<open>Detector\<close>) to the gate that confirms a fire (\<open>Verifier\<close>). The device
  program (\<open>Edge\<close>) turns what it sees into packets of the framed protocol
  (\<open>Protocol\<close>, \<open>Frames\<close>), which the backend's connection handler parses and
  dispatches (\<open>Gateway\<close>) into the store (\<open>Database\<close>), the registry
  (\<open>Registry\<close>) and the dashboards' WebSockets (\<open>Hub\<close>). An incident that awaits
  a response starts a timer (\<open>Escalation\<close>); operators act over HTTP (\<open>Api\<close>,
  \<open>Reads\<close>); a timer or an operator has the call placed (\<open>Communications\<close>),
  under the policy of the store (\<open>CallPolicy\<close>). \<open>World\<close> is the state they
  share, \<open>System\<close> the backend driven by bytes, timers, replies and requests in any order,
  and \<open>Restart\<close> its runs one after another on the same database. \<open>Appliance\<close>
  is the device program from its start to its end, with the camera, the detector, the panel and the
  connection, and \<open>Pipeline\<close> and \<open>Alarm\<close> put it and the backend together.

  \<^bold>\<open>Theories and sources.\<close>
  \<^item> Foundations: \<open>Prelude\<close> (states of \<^verbatim>\<open>models.py\<close>, results, the locale \<open>machine\<close> of
    invariants over runs), \<open>Binary64\<close> and \<open>Rounding\<close> (Python's float, NumPy's float32), \<open>Text\<close>
    (\<open>str\<close>), \<open>Json\<close> (values of \<open>json\<close> and dictionaries), \<open>Wire\<close> (\<open>struct\<close>, \<open>zlib.crc32\<close>,
    base64), \<open>Tables\<close> (rows with a key).
  \<^item> Device: \<open>Verifier\<close> is \<^verbatim>\<open>core.py\<close>; \<open>Inference\<close> and \<open>Detector\<close> are \<^verbatim>\<open>model.py\<close>; \<open>Edge\<close> and
    \<open>Camera\<close> are \<^verbatim>\<open>edge.py\<close> with the encoder and the acknowledgement of \<^verbatim>\<open>protocol.py\<close> in
    \<open>Protocol\<close> and \<open>Frames\<close>; \<open>Helpers\<close> has the processes of \<^verbatim>\<open>lcd.py\<close> and of the camera,
    \<open>Appliance\<close> the functions \<^verbatim>\<open>run\<close> and \<^verbatim>\<open>main\<close> around the frame loop of \<open>Edge\<close>.
  \<^item> Backend: \<open>Config\<close>, \<open>Models\<close>, \<open>RateLimit\<close>, \<open>Registry\<close>, \<open>Communications\<close>, \<open>Observations\<close>,
    \<open>Escalation\<close>, \<open>Hub\<close> and \<open>Logs\<close> model the files \<^verbatim>\<open>config.py\<close>, \<^verbatim>\<open>models.py\<close>, \<^verbatim>\<open>rate_limit.py\<close>,
    \<^verbatim>\<open>device_registry.py\<close>, \<^verbatim>\<open>communications.py\<close>, \<^verbatim>\<open>observation_formatter.py\<close>, \<^verbatim>\<open>escalation.py\<close>,
    \<^verbatim>\<open>websockets.py\<close> and \<^verbatim>\<open>logging_config.py\<close>; \<open>Database\<close>, \<open>Rows\<close>, \<open>Store\<close> and \<open>CallPolicy\<close> are
    \<^verbatim>\<open>database.py\<close>; \<open>Protocol\<close> and \<open>Frames\<close> are \<^verbatim>\<open>protocol.py\<close>; \<open>Gateway\<close> is \<^verbatim>\<open>tcp_server.py\<close>;
    \<open>World\<close>, \<open>Api\<close>, \<open>Reads\<close>, \<open>System\<close> and \<open>Restart\<close> are \<^verbatim>\<open>main.py\<close>.
  \<^item> Simulator: \<open>Simulator\<close> is \<^verbatim>\<open>scenarios.py\<close> and \<^verbatim>\<open>cli.py\<close>, \<open>Render\<close> is \<^verbatim>\<open>render.py\<close>.
  \<^item> Tools: \<open>Training\<close> is \<^verbatim>\<open>split_by_source.py\<close>, \<^verbatim>\<open>validate_split.py\<close>,
    \<^verbatim>\<open>calibrate_thresholds.py\<close>, \<^verbatim>\<open>convert_annotations.py\<close> and \<^verbatim>\<open>extract_frames.py\<close>; \<open>Prepare\<close> is
    \<^verbatim>\<open>prepare-yolov8.py\<close>, \<^verbatim>\<open>generate_manifest.py\<close> and \<^verbatim>\<open>validate_tflite.py\<close>.

  \<^bold>\<open>State and operations.\<close> An object is a record and a method a function from the record to
  the record, with a result of type \<open>result\<close> (a sum, \<open>Err\<close> for an exception) where the code
  raises. A coroutine runs alone between two awaits, so a handler is one function per such
  stretch; the await that matters, of the voice provider, leaves a call in flight in \<open>World\<close>.
  Transactions restore the tables when their body raises (\<open>tx\<close>). Integers are Python's, but
  the fields of the wire format and the CRC are kept at their width. Floats are the rationals
  they denote, every operation rounded; NaN and the infinities are outside the model (a score that is
  NaN passes the threshold of the decoders), as are characters beyond code point 255, except where
  code points are written as numbers.

  \<^bold>\<open>Coarser than the code.\<close> A chunk of bytes, a timer and a request are each one step up to the
  provider's answer, though the code also awaits the broadcasts and the draining of a writer; between
  these awaits its checks and writes run alone. The backend stops or is killed between two steps. An
  interrupt of the device program comes at a stage of its construction or between two turns of its
  loop. What is logged is a JSON value.

  \<^bold>\<open>Interfaces.\<close> \<open>machine\<close>: steps that keep an invariant, interpreted
  on the verifier, the parser and the writes of the store. \<open>rounding\<close>: what geometry needs
  of rounding, interpreted on binary64. \<open>packet_codec\<close>: what the parser needs of an
  encoder, interpreted on the backend's, the device's and the simulator's. \<open>keyed_table\<close>:
  what a merge owes its table, interpreted on the three tables with a key. \<open>backend_law\<close>:
  what every step of the backend keeps, interpreted for the guards of calls and for cancelled incidents;
  \<open>lasting_law\<close> extends it to what every run keeps, interpreted for the same two.

  \<^bold>\<open>What the lemmas show.\<close>
  \<^item> The gate confirms only on evidence, does confirm a sustained fire, keeps a confirmed
    incident under its id until its reset time has passed without a detection (ten seconds in the code,
    five in its documentation) and never reuses an id (\<open>Verifier\<close>).
  \<^item> Packets of any of the encoders come out of the parser unchanged however the stream is cut,
    a changed byte is caught, and the buffer is bounded (\<open>Protocol\<close>, \<open>Frames\<close>).
  \<^item> The device program and the simulator write streams the backend understands, whatever the
    network does, with updates its message models accept (\<open>Edge\<close>, \<open>Simulator\<close>, \<open>Models\<close>).
  \<^item> The store keeps its integrity over every history of writes, rows are read back as they were
    written, failed writes change nothing, and no incident is called more often than the policy
    allows (\<open>Store\<close>, \<open>Rows\<close>, \<open>CallPolicy\<close>).
  \<^item> No device acts without authentication or undoes a response; no request reaches the provider
    without passing every guard and having an attempt of its own; no second call is placed while an
    attempt counts; a cancelled incident stays cancelled; a system never armed
    never calls; restarts change none of this (\<open>Gateway\<close>, \<open>Communications\<close>, \<open>Steps\<close>, \<open>System\<close>,
    \<open>Restart\<close>).
  \<^item> The device program refines its frame loop on the frames its camera and detector give, alarms
    only on pictures of a hazard that belong to one incident, and lets go of its helpers once it has
    reached its \<^verbatim>\<open>try\<close>; what stops it before leaves them running (\<open>Appliance\<close>).
  \<^item> A fire in view of the camera, or one the frame loop confirms, is dialled on a steady network
    when nobody answers (\<open>Alarm\<close>, \<open>Pipeline\<close>).
  \<^item> The detector returns only proper detections, runs every model the preparation tool writes,
    and suppresses only overlapping boxes (\<open>Inference\<close>, \<open>Prepare\<close>, \<open>Detector\<close>).
  \<^item> The dataset tools leak no source between partitions, and choose the best threshold
    (\<open>Training\<close>); the log shows no secret (\<open>Logs\<close>); each dashboard gets every message once
    (\<open>Hub\<close>); the panel is written at most once (\<open>Helpers\<close>); frames are drawable and show the
    flame that is reported (\<open>Render\<close>).
  \<^item> Behaviours the code may not intend are lemmas as well, each on a concrete run.

  \<^bold>\<open>Arguments.\<close> Code that is not under \<^verbatim>\<open>src/\<close> is an argument of the definitions that use it:
  the text of JSON (\<open>dumps\<close>, \<open>loads\<close>; what a round trip asks of them is met by the pair of
  \<open>Codec\<close>), \<open>str\<close> of a container or a float, SHA-256, the validation of an update by Pydantic,
  the reply of the provider, the clock, the network, the interpreter of a model, OpenCV and
  Pillow, the helper processes and the file system.

  \<^bold>\<open>Loops.\<close> The parser's loop and the other recursive functions are total, by measures on what
  is left to read. The fragmented sending is \<open>while_option\<close>, and is proved to end for every
  packet. The loops of the device program and the simulator run over the list of what happens
  to them, one entry per iteration, so no fuel is chosen anywhere.

  \<^bold>\<open>Not modelled.\<close> The command lines, the sleeps and the printed messages; a log
  file of the device that cannot be written; opening and closing the SQLite file, the sockets of the
  servers and the HTTP client; the routing, CORS and parsing of requests by FastAPI; the installation of
  log handlers; the scripts of the training directory that only call Ultralytics or draw with Pillow.
  The dashboard (TypeScript), the services of the QNX target (C++), the C helpers of the camera and the
  panel and the deployment scripts are other programs; the Python side of their interfaces is modelled.
\<close>

end
